(* ===== verification/Prelude.thy ===== *)
theory Prelude
  imports Main "HOL-Library.Word" "HOL-Library.Monad_Syntax"
begin

text \<open>
  What the components share: bytes, the wrap-around of \<open>size_t\<close>, the C memory primitives
  the program uses on its buffers, and the reading of undefined behaviour. A C operation
  that may be undefined (a read or write outside an object, a use of a freed object, a
  division by zero, an over-wide shift) has a result of type \<open>'a option\<close>, where
  \<open>None\<close> is undefined behaviour; \<open>Some\<close> is a defined outcome, errors of the program
  itself included. Such operations are sequenced with the library's \<open>do\<close> syntax.
\<close>

unbundle bit_operations_syntax

type_synonym byte = "8 word"
type_synonym fd = int

named_theorems c_mem \<open>equations of the C memory primitives inside their bounds\<close>

section \<open>Total correctness of an operation that may be undefined\<close>

text \<open>
  \<open>wp m Q\<close>: the operation is defined and its result satisfies \<open>Q\<close>. The rules below push
  it through the sequencing of operations.
\<close>

definition wp :: "'a option \<Rightarrow> ('a \<Rightarrow> bool) \<Rightarrow> bool" where
  "wp m Q = (case m of None \<Rightarrow> False | Some x \<Rightarrow> Q x)"

lemma wp_Some [simp]: "wp (Some x) Q = Q x"
  by (simp add: wp_def)

lemma wp_None [simp]: "wp None Q = False"
  by (simp add: wp_def)

lemma wp_bind [simp]: "wp (Option.bind m f) Q = wp m (\<lambda>x. wp (f x) Q)"
  by (cases m) simp_all

lemma wp_if: "wp (if b then m else m') Q = ((b \<longrightarrow> wp m Q) \<and> (\<not> b \<longrightarrow> wp m' Q))"
  by simp

lemma wp_iff: "wp m Q \<longleftrightarrow> (\<exists>x. m = Some x \<and> Q x)"
  by (cases m) simp_all

lemma wp_mono: "wp m Q \<Longrightarrow> (\<And>x. Q x \<Longrightarrow> R x) \<Longrightarrow> wp m R"
  by (cases m) simp_all

lemma wp_SomeD: "wp m Q \<Longrightarrow> m = Some x \<Longrightarrow> Q x"
  by simp

lemma wp_conj: "wp m Q \<Longrightarrow> wp m R \<Longrightarrow> wp m (\<lambda>x. Q x \<and> R x)"
  by (cases m) simp_all

text \<open>\<open>wlp m Q\<close>: if the operation is defined, its result satisfies \<open>Q\<close>.\<close>

definition wlp :: "'a option \<Rightarrow> ('a \<Rightarrow> bool) \<Rightarrow> bool" where
  "wlp m Q = (case m of None \<Rightarrow> True | Some x \<Rightarrow> Q x)"

lemma wlp_simps [simp]: "wlp (Some x) Q = Q x" "wlp None Q"
  by (simp_all add: wlp_def)

lemma wlp_bind [simp]: "wlp (Option.bind m f) Q = wlp m (\<lambda>x. wlp (f x) Q)"
  by (cases m) simp_all

lemma wlp_bindI: "wlp m (\<lambda>x. wlp (f x) Q) \<Longrightarrow> wlp (Option.bind m f) Q"
  by simp

lemma wlp_if: "(b \<Longrightarrow> wlp m Q) \<Longrightarrow> (\<not> b \<Longrightarrow> wlp m' Q) \<Longrightarrow> wlp (if b then m else m') Q"
  by simp

lemma wlp_iff: "wlp m Q \<longleftrightarrow> (\<forall>x. m = Some x \<longrightarrow> Q x)"
  by (cases m) simp_all

lemma wlp_mono: "wlp m Q \<Longrightarrow> (\<And>x. Q x \<Longrightarrow> R x) \<Longrightarrow> wlp m R"
  by (cases m) simp_all

lemma wlp_any: "(\<And>x. Q x) \<Longrightarrow> wlp m Q"
  by (cases m) simp_all

section \<open>size\_t\<close>

text \<open>
  \<open>size_t\<close> values are natural numbers below \<open>2 ^ 64\<close>; its addition and subtraction wrap
  around, written out here. The lemmas say when they do not.
\<close>

definition size_add :: "nat \<Rightarrow> nat \<Rightarrow> nat" where
  "size_add a b = (a + b) mod 2 ^ 64"

definition size_sub :: "nat \<Rightarrow> nat \<Rightarrow> nat" where
  "size_sub a b = (a + 2 ^ 64 - b) mod 2 ^ 64"

lemma size_add_eq [simp]: "a + b < 2 ^ 64 \<Longrightarrow> size_add a b = a + b"
  by (simp add: size_add_def)

lemma size_sub_eq [simp]:
  assumes "b \<le> a" and "a < 2 ^ 64"
  shows "size_sub a b = a - b"
proof -
  have "a + 2 ^ 64 - b = (a - b) + 2 ^ 64" using assms by simp
  then have "size_sub a b = (a - b) mod 2 ^ 64"
    unfolding size_sub_def by (simp only: mod_add_self2)
  with assms show ?thesis by simp
qed

lemma size_sub_wraps: "size_sub 0 1 = 2 ^ 64 - 1"
  by (simp add: size_sub_def)

section \<open>Memory\<close>

text \<open>
  An array is the list of its cells. \<open>mem_read b off n\<close> reads \<open>n\<close> cells from \<open>off\<close>,
  \<open>memcpy_to b off src\<close> copies all of \<open>src\<close> to \<open>off\<close>; both are undefined when they
  leave the array.
\<close>

definition mem_read :: "'a list \<Rightarrow> nat \<Rightarrow> nat \<Rightarrow> 'a list option" where
  "mem_read b off n = (if off + n \<le> length b then Some (take n (drop off b)) else None)"

definition memcpy_to :: "'a list \<Rightarrow> nat \<Rightarrow> 'a list \<Rightarrow> 'a list option" where
  "memcpy_to b off src =
     (if off + length src \<le> length b
      then Some (take off b @ src @ drop (off + length src) b) else None)"

definition mem_get :: "'a list \<Rightarrow> nat \<Rightarrow> 'a option" where
  "mem_get b i = (if i < length b then Some (b ! i) else None)"

definition mem_set :: "'a list \<Rightarrow> nat \<Rightarrow> 'a \<Rightarrow> 'a list option" where
  "mem_set b i x = (if i < length b then Some (b[i := x]) else None)"

text \<open>A zeroed local buffer of \<open>n\<close> bytes after a copy of \<open>xs\<close> to its start.\<close>

definition zero_filled :: "nat \<Rightarrow> byte list \<Rightarrow> byte list" where
  "zero_filled n xs = xs @ replicate (n - length xs) 0"

lemma mem_read_in [c_mem]: "off + n \<le> length b \<Longrightarrow> mem_read b off n = Some (take n (drop off b))"
  by (simp add: mem_read_def)

lemma memcpy_to_in [c_mem]:
  "off + length src \<le> length b \<Longrightarrow>
   memcpy_to b off src = Some (take off b @ src @ drop (off + length src) b)"
  by (simp add: memcpy_to_def)

lemma mem_get_in [c_mem]: "i < length b \<Longrightarrow> mem_get b i = Some (b ! i)"
  by (simp add: mem_get_def)

lemma mem_set_in [c_mem]: "i < length b \<Longrightarrow> mem_set b i x = Some (b[i := x])"
  by (simp add: mem_set_def)

lemma length_zero_filled [simp]: "length xs \<le> n \<Longrightarrow> length (zero_filled n xs) = n"
  by (simp add: zero_filled_def)

lemma zero_filled_nth: "i < length xs \<Longrightarrow> zero_filled n xs ! i = xs ! i"
  by (simp add: zero_filled_def nth_append)

lemma take_zero_filled [simp]: "k \<le> length xs \<Longrightarrow> take k (zero_filled n xs) = take k xs"
  by (simp add: zero_filled_def)

lemma take_drop_zero_filled:
  "j + k \<le> length xs \<Longrightarrow> take k (drop j (zero_filled n xs)) = take k (drop j xs)"
  by (simp add: zero_filled_def)

lemma unat_byte_less: "unat (b :: byte) < 256"
  using unsigned_less [of b, where 'a = nat] by simp

lemma unat_byte_le: "unat (b :: byte) \<le> 255"
  using unat_byte_less [of b] by simp

lemma unat_byte_less_255: "b \<noteq> 0xFF \<Longrightarrow> unat (b :: byte) < 255"
proof -
  assume "b \<noteq> 0xFF"
  then have "unat b \<noteq> unat (0xFF :: byte)" by (simp only: word_unat_eq_iff not_False_eq_True)
  with unat_byte_le [of b] show ?thesis by simp
qed

section \<open>Decimal numbers\<close>

text \<open>The decimal digits of a number, as the \<^verbatim>\<open>%d\<close> of the C library writes them.\<close>

fun decimal :: "nat \<Rightarrow> char list" where
  "decimal n =
    (if n < 10 then [char_of (48 + n)] else decimal (n div 10) @ [char_of (48 + n mod 10)])"

declare decimal.simps [simp del]

lemma decimal_digit: "c \<in> set (decimal n) \<Longrightarrow> 48 \<le> (of_char c :: nat) \<and> (of_char c :: nat) \<le> 57"
proof (induction n rule: decimal.induct)
  case (1 n)
  have "n mod 10 \<le> 9" by (simp add: less_Suc_eq_le [symmetric])
  with 1 show ?case by (auto simp: decimal.simps [of n] of_char_of split: if_splits)
qed

lemma decimal_not_Nil [simp]: "decimal n \<noteq> []"
  by (subst decimal.simps) simp

section \<open>Arithmetic modulo a capacity\<close>

lemma mod_add_wrap:
  fixes a n c :: nat
  assumes "a < c" and "n \<le> c"
  shows "(a + n) mod c = (if a + n < c then a + n else a + n - c)"
proof (cases "a + n < c")
  case False
  then have "(a + n) mod c = (a + n - c) mod c" by (simp add: le_mod_geq)
  with False assms show ?thesis by simp
qed simp

lemma mod_add_inj:
  fixes r i j c :: nat
  assumes i: "i < c" and j: "j < c" and eq: "(r + i) mod c = (r + j) mod c"
  shows "i = j"
proof -
  have less: False if "a < b" and "b < c" and "(r + a) mod c = (r + b) mod c" for a b :: nat
  proof -
    from that have "c dvd (r + b) - (r + a)"
      by (intro iffD1 [OF mod_eq_dvd_iff_nat]) simp_all
    with that show False by (auto dest: dvd_imp_le)
  qed
  show ?thesis
    using less [of i j] less [of j i] i j eq by (cases i j rule: linorder_cases) simp_all
qed

end
