(* ===== verification/Ringbuff.thy ===== *)
theory Ringbuff
  imports Prelude
begin

text \<open>
  The ring buffers of \<^verbatim>\<open>src/epoll_data.c\<close> (\<^verbatim>\<open>write_ringbuff\<close>, \<^verbatim>\<open>peek_ringbuff\<close>,
  \<^verbatim>\<open>consume_ringbuff\<close>): the structure, its operations, the well-formedness invariant, and
  the refinement to a bounded FIFO of bytes. The locale \<open>byte_fifo\<close> is the interface the
  handlers rely on; it is interpreted on the code's own operations as \<open>rb\<close>.
\<close>

section \<open>The structure and its operations\<close>

definition OUTBUFFSIZE :: nat where
  "OUTBUFFSIZE = 4096"

text \<open>\<open>rb_buff\<close> is \<open>None\<close> for the null pointer that freeing the buffer leaves.\<close>

record Ringbuff =
  rb_buff :: "byte list option"
  rb_readhead :: nat
  rb_writehead :: nat
  rb_capacity :: nat
  rb_used :: nat

definition write_ringbuff :: "Ringbuff \<Rightarrow> byte list \<Rightarrow> nat \<Rightarrow> (nat \<times> Ringbuff) option" where
  "write_ringbuff dst src srclen =
    (let free = size_sub (rb_capacity dst) (rb_used dst) in
     if srclen > free then Some (0, dst)
     else do {
       let first_write = size_sub (rb_capacity dst) (rb_writehead dst);
       let first_write = (if first_write > srclen then srclen else first_write);
       b \<leftarrow> rb_buff dst;
       part \<leftarrow> mem_read src 0 first_write;
       b \<leftarrow> memcpy_to b (rb_writehead dst) part;
       let second_write = size_sub srclen first_write;
       b \<leftarrow> (if second_write > 0
            then do { part \<leftarrow> mem_read src first_write second_write; memcpy_to b 0 part }
            else Some b);
       (if rb_capacity dst = 0 then None
        else Some (srclen,
          dst\<lparr>rb_buff := Some b,
              rb_writehead := size_add (rb_writehead dst) srclen mod rb_capacity dst,
              rb_used := size_add (rb_used dst) srclen\<rparr>))
     })"

text \<open>
  The result of \<open>peek_ringbuff\<close> is the list of the bytes it copies to the start of \<open>dst\<close>;
  the C return value is its length.
\<close>

definition peek_ringbuff :: "Ringbuff \<Rightarrow> nat \<Rightarrow> byte list option" where
  "peek_ringbuff src dstlen =
    (if rb_used src = 0 then Some []
     else do {
       let dstlen = (if rb_used src < dstlen then rb_used src else dstlen);
       let first_read = size_sub (rb_capacity src) (rb_readhead src);
       let first_read = (if first_read > dstlen then dstlen else first_read);
       b \<leftarrow> rb_buff src;
       part1 \<leftarrow> mem_read b (rb_readhead src) first_read;
       let second_read = size_sub dstlen first_read;
       part2 \<leftarrow> (if second_read > 0 then mem_read b 0 second_read else Some []);
       Some (part1 @ part2)
     })"

definition consume_ringbuff :: "Ringbuff \<Rightarrow> nat \<Rightarrow> (nat \<times> Ringbuff) option" where
  "consume_ringbuff src consume =
    (if rb_used src = 0 then Some (0, src)
     else
       let consume = (if consume > rb_used src then rb_used src else consume) in
       if rb_capacity src = 0 then None
       else Some (consume,
         src\<lparr>rb_readhead := size_add (rb_readhead src) consume mod rb_capacity src,
             rb_used := size_sub (rb_used src) consume\<rparr>))"

section \<open>Invariant and abstraction\<close>

text \<open>
  The heads stay inside the buffer and differ by \<open>used\<close>. The bound on the capacity keeps
  the sums of the code below \<open>2 ^ 64\<close>.
\<close>

definition ring_inv :: "Ringbuff \<Rightarrow> bool" where
  "ring_inv r \<longleftrightarrow>
     (\<exists>b. rb_buff r = Some b \<and> length b = rb_capacity r) \<and>
     0 < rb_capacity r \<and> rb_capacity r < 2 ^ 32 \<and>
     rb_readhead r < rb_capacity r \<and> rb_writehead r < rb_capacity r \<and>
     rb_used r \<le> rb_capacity r \<and>
     rb_writehead r = (rb_readhead r + rb_used r) mod rb_capacity r"

definition ring_contents :: "Ringbuff \<Rightarrow> byte list" where
  "ring_contents r =
     (case rb_buff r of None \<Rightarrow> []
      | Some b \<Rightarrow> map (\<lambda>i. b ! ((rb_readhead r + i) mod rb_capacity r)) [0..<rb_used r])"

definition ring_free :: "Ringbuff \<Rightarrow> nat" where
  "ring_free r = rb_capacity r - rb_used r"

definition new_ring :: "nat \<Rightarrow> byte list \<Rightarrow> Ringbuff" where
  "new_ring cap mem =
     \<lparr>rb_buff = Some mem, rb_readhead = 0, rb_writehead = 0, rb_capacity = cap, rb_used = 0\<rparr>"

lemma new_ring_inv [simp]: "length mem = cap \<Longrightarrow> 0 < cap \<Longrightarrow> cap < 2 ^ 32 \<Longrightarrow> ring_inv (new_ring cap mem)"
  by (simp add: ring_inv_def new_ring_def)

lemma new_ring_contents [simp]: "ring_contents (new_ring cap mem) = []"
  by (simp add: ring_contents_def new_ring_def)

lemma ring_invE:
  assumes "ring_inv r"
  obtains b where "rb_buff r = Some b" and "length b = rb_capacity r" and "0 < rb_capacity r"
    and "rb_capacity r < 2 ^ 32" and "rb_readhead r < rb_capacity r" and "rb_writehead r < rb_capacity r"
    and "rb_used r \<le> rb_capacity r"
    and "rb_writehead r = (rb_readhead r + rb_used r) mod rb_capacity r"
  using assms unfolding ring_inv_def by blast

lemma length_ring_contents: "ring_inv r \<Longrightarrow> length (ring_contents r) = rb_used r"
  by (auto simp: ring_inv_def ring_contents_def)

lemma ring_contents_Nil_iff: "ring_inv r \<Longrightarrow> ring_contents r = [] \<longleftrightarrow> rb_used r = 0"
  using length_ring_contents [of r] by (metis length_0_conv)

section \<open>The circular copy\<close>

text \<open>
  What the two \<open>memcpy\<close> calls of a write compute, cell by cell: cell \<open>j\<close> holds the source
  byte at its circular distance from the write head, when there is one.
\<close>

definition ring_put :: "byte list \<Rightarrow> nat \<Rightarrow> byte list \<Rightarrow> byte list" where
  "ring_put b w src =
     (let c = length b; k = min (length src) (c - w)
      in drop k src @ drop (length src - k) (take w b) @ take k src @ drop (w + k) b)"

lemma length_ring_put:
  "w < length b \<Longrightarrow> length src \<le> length b \<Longrightarrow> length (ring_put b w src) = length b"
  by (simp add: ring_put_def Let_def min_def)

lemma ring_put_nth:
  assumes "w < length b" and "length src \<le> length b" and "i < length b"
  shows "ring_put b w src ! ((w + i) mod length b) =
         (if i < length src then src ! i else b ! ((w + i) mod length b))"
proof (cases "w + i < length b")
  case True
  with assms show ?thesis
    by (auto simp: ring_put_def Let_def min_def nth_append)
next
  case False
  then have "(w + i) mod length b = w + i - length b"
    using assms by (simp add: mod_add_wrap)
  with False assms show ?thesis
    by (auto simp: ring_put_def Let_def min_def nth_append algebra_simps)
qed

lemma write_ringbuff_full:
  assumes "ring_inv r" and "srclen > ring_free r"
  shows "write_ringbuff r src srclen = Some (0, r)"
  using assms by (auto simp: write_ringbuff_def ring_inv_def ring_free_def)

lemma write_ringbuff_fits:
  assumes inv: "ring_inv r" and fits: "length src \<le> ring_free r"
  shows "write_ringbuff r src (length src) =
    Some (length src,
      r\<lparr>rb_buff := Some (ring_put (the (rb_buff r)) (rb_writehead r) src),
        rb_writehead := (rb_writehead r + length src) mod rb_capacity r,
        rb_used := rb_used r + length src\<rparr>)"
proof -
  from inv obtain b where b: "rb_buff r = Some b" "length b = rb_capacity r"
    and c: "0 < rb_capacity r" "rb_capacity r < 2 ^ 32" "rb_writehead r < rb_capacity r"
      "rb_used r \<le> rb_capacity r"
    by (rule ring_invE)
  from fits c have n: "length src \<le> rb_capacity r" "rb_used r + length src \<le> rb_capacity r"
    by (simp_all add: ring_free_def)
  let ?c = "rb_capacity r" and ?w = "rb_writehead r" and ?n = "length src"
  have free: "\<not> ?n > size_sub ?c (rb_used r)" using n c by simp
  show ?thesis
  proof (cases "?c - ?w > ?n")
    case True
    with free b c n show ?thesis
      by (simp add: write_ringbuff_def c_mem ring_put_def Let_def)
  next
    case False
    with free b c n show ?thesis
      by (auto simp: write_ringbuff_def c_mem ring_put_def Let_def)
  qed
qed

section \<open>The operations against the abstract contents\<close>

lemma ring_write:
  assumes inv: "ring_inv r" and fits: "length src \<le> ring_free r"
  shows "\<exists>r'. write_ringbuff r src (length src) = Some (length src, r') \<and> ring_inv r' \<and>
    ring_contents r' = ring_contents r @ src \<and> ring_free r' = ring_free r - length src \<and>
    rb_capacity r' = rb_capacity r"
proof -
  from inv obtain b where b: "rb_buff r = Some b" "length b = rb_capacity r"
    and c: "0 < rb_capacity r" "rb_capacity r < 2 ^ 32" "rb_readhead r < rb_capacity r"
      "rb_writehead r < rb_capacity r" "rb_used r \<le> rb_capacity r"
    and w: "rb_writehead r = (rb_readhead r + rb_used r) mod rb_capacity r"
    by (rule ring_invE)
  let ?c = "rb_capacity r" and ?w = "rb_writehead r" and ?u = "rb_used r" and ?h = "rb_readhead r"
  let ?b' = "ring_put b ?w src"
  let ?r' = "r\<lparr>rb_buff := Some ?b', rb_writehead := (?w + length src) mod ?c, rb_used := ?u + length src\<rparr>"
  from fits c have n: "?u + length src \<le> ?c" by (simp add: ring_free_def)
  have len: "length ?b' = ?c" using n b c by (simp add: length_ring_put)
  have inv': "ring_inv ?r'"
    using len n c w by (simp add: ring_inv_def mod_add_left_eq add.assoc)
  have cell: "?b' ! ((?h + i) mod ?c) = (ring_contents r @ src) ! i" if i: "i < ?u + length src" for i
  proof (cases "i < ?u")
    case True
    then have same: "?b' ! ((?h + i) mod ?c) = b ! ((?h + i) mod ?c)"
    proof -
      let ?j = "?c - ?u + i"
      have at: "(?w + ?j) mod ?c = (?h + i) mod ?c"
      proof -
        have "(?w + ?j) mod ?c = (?h + ?u + (?c - ?u + i)) mod ?c"
          by (simp only: w mod_add_left_eq)
        also have "?h + ?u + (?c - ?u + i) = ?h + i + ?c" using c by simp
        finally show ?thesis by simp
      qed
      have "?j < ?c" and "\<not> ?j < length src" using True n c by simp_all
      then show ?thesis
        using ring_put_nth [of ?w b src ?j] b c n at by simp
    qed
    with True b show ?thesis by (simp add: ring_contents_def nth_append)
  next
    case False
    let ?j = "i - ?u"
    have at: "(?w + ?j) mod ?c = (?h + i) mod ?c"
    proof -
      have "(?w + ?j) mod ?c = (?h + ?u + ?j) mod ?c" by (simp only: w mod_add_left_eq)
      also have "?h + ?u + ?j = ?h + i" using False by simp
      finally show ?thesis .
    qed
    have "?j < ?c" and "?j < length src" using i False n c by simp_all
    then have "?b' ! ((?h + i) mod ?c) = src ! ?j"
      using ring_put_nth [of ?w b src ?j] b c n at by simp
    with False inv show ?thesis by (simp add: nth_append length_ring_contents)
  qed
  have contents': "ring_contents ?r' = ring_contents r @ src"
    using inv cell by (intro nth_equalityI) (simp_all add: ring_contents_def [of ?r'] length_ring_contents)
  show ?thesis
    using write_ringbuff_fits [OF inv fits] inv' contents' b n by (simp add: ring_free_def)
qed

lemma ring_peek:
  assumes inv: "ring_inv r"
  shows "peek_ringbuff r n = Some (take n (ring_contents r))"
proof (cases "rb_used r = 0")
  case True
  with inv show ?thesis by (auto simp: peek_ringbuff_def ring_contents_def ring_inv_def)
next
  case False
  from inv obtain b where b: "rb_buff r = Some b" "length b = rb_capacity r"
    and c: "0 < rb_capacity r" "rb_capacity r < 2 ^ 32" "rb_readhead r < rb_capacity r"
      "rb_used r \<le> rb_capacity r"
    by (rule ring_invE)
  let ?c = "rb_capacity r" and ?h = "rb_readhead r"
  define d where "d = min n (rb_used r)"
  have d: "d \<le> rb_used r" "d \<le> ?c" using c by (simp_all add: d_def)
  define f where "f = min d (?c - ?h)"
  have f: "f \<le> d" "?h + f \<le> ?c" "d - f \<le> ?c" using d c by (simp_all add: f_def)
  have eval: "peek_ringbuff r n = Some (take f (drop ?h b) @ take (d - f) b)"
  proof -
    have d_eq: "(if rb_used r < n then rb_used r else n) = d" by (simp add: d_def min_def)
    have f_eq: "(if size_sub ?c ?h > d then d else size_sub ?c ?h) = f"
      using c by (simp add: f_def min_def)
    have s_eq: "size_sub d f = d - f" using f c d by simp
    show ?thesis
      unfolding peek_ringbuff_def Let_def d_eq f_eq s_eq using False b f by (simp add: c_mem)
  qed
  have "take f (drop ?h b) @ take (d - f) b = take n (ring_contents r)"
  proof (rule nth_equalityI)
    show "length (take f (drop ?h b) @ take (d - f) b) = length (take n (ring_contents r))"
    proof -
      have "length (take f (drop ?h b)) = f" and "length (take (d - f) b) = d - f"
        using b f by simp_all
      with inv f show ?thesis by (simp add: length_ring_contents d_def min.commute)
    qed
  next
    fix i assume "i < length (take f (drop ?h b) @ take (d - f) b)"
    then have i: "i < d" using b f by auto
    show "(take f (drop ?h b) @ take (d - f) b) ! i = take n (ring_contents r) ! i"
    proof (cases "i < f")
      case True
      then have "(?h + i) mod ?c = ?h + i" using f by simp
      with True i b f d show ?thesis by (simp add: nth_append ring_contents_def d_def)
    next
      case no: False
      then have feq: "f = ?c - ?h" using i by (simp add: f_def min_def split: if_splits)
      have "?h + i = (i - f) + ?c" and "i - f < ?c" using no feq i d c by linarith+
      then have "(?h + i) mod ?c = i - f" by simp
      moreover have "take (d - f) b ! (i - f) = b ! (i - f)" using no i by simp
      moreover have "length (take f (drop ?h b)) = f" using b f by simp
      ultimately show ?thesis
        using no i b by (simp add: nth_append ring_contents_def d_def)
    qed
  qed
  with eval show ?thesis by simp
qed

lemma ring_consume:
  assumes inv: "ring_inv r"
  shows "\<exists>r'. consume_ringbuff r n = Some (min n (rb_used r), r') \<and> ring_inv r' \<and>
    ring_contents r' = drop n (ring_contents r) \<and> rb_capacity r' = rb_capacity r \<and>
    rb_used r' = rb_used r - n \<and> rb_buff r' = rb_buff r"
proof (cases "rb_used r = 0")
  case True
  with inv have "ring_contents r = []" by (simp add: ring_contents_Nil_iff)
  with True inv show ?thesis
    by (simp add: consume_ringbuff_def)
next
  case False
  from inv obtain b where b: "rb_buff r = Some b" "length b = rb_capacity r"
    and c: "0 < rb_capacity r" "rb_capacity r < 2 ^ 32" "rb_readhead r < rb_capacity r"
      "rb_used r \<le> rb_capacity r"
    and w: "rb_writehead r = (rb_readhead r + rb_used r) mod rb_capacity r"
    by (rule ring_invE)
  let ?c = "rb_capacity r" and ?h = "rb_readhead r"
  define k where "k = min n (rb_used r)"
  have k: "k \<le> rb_used r" by (simp add: k_def)
  let ?r' = "r\<lparr>rb_readhead := (?h + k) mod ?c, rb_used := rb_used r - k\<rparr>"
  have eval: "consume_ringbuff r n = Some (k, ?r')"
  proof -
    have k_eq: "(if n > rb_used r then rb_used r else n) = k" by (simp add: k_def min_def)
    show ?thesis unfolding consume_ringbuff_def Let_def k_eq using False c k by simp
  qed
  have "((?h + k) mod ?c + (rb_used r - k)) mod ?c = (?h + k + (rb_used r - k)) mod ?c"
    by (simp only: mod_add_left_eq)
  with b c k w inv have inv': "ring_inv ?r'" by (auto simp: ring_inv_def)
  have "ring_contents ?r' = drop n (ring_contents r)"
  proof (rule nth_equalityI)
    show "length (ring_contents ?r') = length (drop n (ring_contents r))"
      using inv inv' by (simp add: length_ring_contents k_def)
  next
    fix i assume "i < length (ring_contents ?r')"
    then have i: "i < rb_used r - k" using inv' by (simp add: length_ring_contents)
    then have "k = n" and "n + i < rb_used r" by (auto simp: k_def min_def split: if_splits)
    with b i show "ring_contents ?r' ! i = drop n (ring_contents r) ! i"
      by (simp add: ring_contents_def mod_add_left_eq add.assoc)
  qed
  with eval inv' k show ?thesis by (simp add: k_def)
qed

section \<open>The interface: a bounded FIFO of bytes\<close>

text \<open>
  What the handlers use of a buffer: whole-chunk writes that are refused when they do not
  fit, reads that leave the contents alone, and removal from the front.
\<close>

lemma take_drop_split: "take n xs @ drop (min (length xs) n) xs @ ys = xs @ ys"
  by (metis append.assoc append_take_drop_id drop_all nat_le_linear min.absorb1 min.absorb2 order_refl)

locale byte_fifo =
  fixes inv :: "'q \<Rightarrow> bool"
    and contents :: "'q \<Rightarrow> byte list"
    and room :: "'q \<Rightarrow> nat"
    and put :: "'q \<Rightarrow> byte list \<Rightarrow> nat \<Rightarrow> (nat \<times> 'q) option"
    and peek :: "'q \<Rightarrow> nat \<Rightarrow> byte list option"
    and consume :: "'q \<Rightarrow> nat \<Rightarrow> (nat \<times> 'q) option"
  assumes put_fits: "inv q \<Longrightarrow> length xs \<le> room q \<Longrightarrow>
      \<exists>q'. put q xs (length xs) = Some (length xs, q') \<and> inv q' \<and>
        contents q' = contents q @ xs \<and> room q' = room q - length xs"
    and put_full: "inv q \<Longrightarrow> room q < n \<Longrightarrow> put q xs n = Some (0, q)"
    and peek_contents: "inv q \<Longrightarrow> peek q n = Some (take n (contents q))"
    and consume_drops: "inv q \<Longrightarrow>
      \<exists>q'. consume q n = Some (min n (length (contents q)), q') \<and> inv q' \<and>
        contents q' = drop n (contents q) \<and> room q' = room q + min n (length (contents q))"
begin

text \<open>A session on one buffer: chunks offered to it, and counts of bytes sent from it.\<close>

fun session :: "(byte list + nat) list \<Rightarrow> 'q \<Rightarrow> (byte list \<times> byte list \<times> 'q) option" where
  "session [] q = Some ([], [], q)"
| "session (Inl xs # ops) q =
     do { (k, q) \<leftarrow> put q xs (length xs);
          (acc, out, q) \<leftarrow> session ops q;
          Some (take k xs @ acc, out, q) }"
| "session (Inr n # ops) q =
     do { sent \<leftarrow> peek q n;
          (k, q) \<leftarrow> consume q (length sent);
          (acc, out, q) \<leftarrow> session ops q;
          Some (acc, sent @ out, q) }"

lemma put_cases:
  assumes "inv q"
  shows "\<exists>k q'. put q xs (length xs) = Some (k, q') \<and> inv q' \<and>
    contents q' = contents q @ take k xs \<and> (k = 0 \<or> k = length xs) \<and> room q' + k = room q"
proof (cases "length xs \<le> room q")
  case True
  with put_fits [OF assms] show ?thesis by fastforce
next
  case False
  then have "put q xs (length xs) = Some (0, q)" by (intro put_full assms) simp
  with assms show ?thesis by auto
qed

lemma room_total:
  assumes "inv q" and "put q xs (length xs) = Some (k, q')"
  shows "room q' + length (contents q') = room q + length (contents q)"
  using put_cases [OF assms(1), of xs] assms(2) by auto

lemma session_fifo:
  "inv q \<Longrightarrow> \<exists>acc out q'. session ops q = Some (acc, out, q') \<and> inv q' \<and>
     contents q @ acc = out @ contents q'"
proof (induction ops q rule: session.induct)
  case (1 q)
  then show ?case by simp
next
  case (2 xs ops q)
  from put_cases [OF "2.prems", of xs] obtain k q1 where
    w: "put q xs (length xs) = Some (k, q1)" "inv q1" "contents q1 = contents q @ take k xs"
    by blast
  from "2.IH" w obtain acc out q' where "session ops q1 = Some (acc, out, q')" "inv q'"
    "contents q1 @ acc = out @ contents q'" by blast
  with w show ?case by simp
next
  case (3 n ops q)
  let ?sent = "take n (contents q)"
  from consume_drops [OF "3.prems", of "length ?sent"] obtain k q1 where
    c: "consume q (length ?sent) = Some (k, q1)" "inv q1"
      "contents q1 = drop (length ?sent) (contents q)"
    by blast
  with "3.IH" "3.prems" obtain acc out q' where s: "session ops q1 = Some (acc, out, q')" "inv q'"
    "contents q1 @ acc = out @ contents q'" by (fastforce simp: peek_contents)
  have "contents q @ acc = ?sent @ contents q1 @ acc"
    using c(3) by (simp add: take_drop_split)
  with c(1) s "3.prems" show ?case by (simp add: peek_contents)
qed

end

interpretation rb: byte_fifo ring_inv ring_contents ring_free write_ringbuff peek_ringbuff consume_ringbuff
proof
  fix q :: Ringbuff and xs :: "byte list" and n :: nat
  assume inv: "ring_inv q"
  show "\<exists>q'. write_ringbuff q xs (length xs) = Some (length xs, q') \<and> ring_inv q' \<and>
      ring_contents q' = ring_contents q @ xs \<and> ring_free q' = ring_free q - length xs"
    if "length xs \<le> ring_free q"
    using ring_write [OF inv that] by blast
  show "write_ringbuff q xs n = Some (0, q)" if "ring_free q < n"
    using inv that by (rule write_ringbuff_full)
  show "peek_ringbuff q n = Some (take n (ring_contents q))"
    using inv by (rule ring_peek)
  show "\<exists>q'. consume_ringbuff q n = Some (min n (length (ring_contents q)), q') \<and> ring_inv q' \<and>
      ring_contents q' = drop n (ring_contents q) \<and>
      ring_free q' = ring_free q + min n (length (ring_contents q))"
    using ring_consume [OF inv, of n] inv
    by (auto simp: length_ring_contents ring_free_def ring_inv_def)
qed

section \<open>Properties\<close>

text \<open>The session of the interface on the code's operations.\<close>

definition ring_session :: "(byte list + nat) list \<Rightarrow> Ringbuff \<Rightarrow> (byte list \<times> byte list \<times> Ringbuff) option" where
  "ring_session = rb.session"

lemmas ring_session_simps = rb.session.simps [folded ring_session_def]

text \<open>
  C11: a buffer is a FIFO. In every session of writes and of sends (a peek, then a consume of the
  bytes peeked) no operation leaves the buffer's memory, and the bytes that were in the buffer
  followed by the bytes accepted are the bytes sent followed by the bytes left.
\<close>

theorem ring_session_fifo:
  assumes "ring_inv r"
  shows "\<exists>acc out r'. ring_session ops r = Some (acc, out, r') \<and> ring_inv r' \<and>
    ring_contents r @ acc = out @ ring_contents r'"
  unfolding ring_session_def using assms by (rule rb.session_fifo)

lemma ring_session_fifo_witness:
  "\<exists>acc out r'. ring_session [Inl [1, 2, 3], Inr 2, Inl [4, 5], Inr 4] (new_ring 4 [9, 9, 9, 9]) = Some (acc, out, r') \<and>
    ring_inv r' \<and> ring_contents (new_ring 4 [9, 9, 9, 9]) @ acc = out @ ring_contents r'"
  by (rule ring_session_fifo) simp

text \<open>
  A write of \<open>src\<close> appends all of it when it fits in the free space, and changes nothing
  and returns \<open>0\<close> when it does not, wherever the write head is.
\<close>

lemma write_ringbuff_spec:
  assumes "ring_inv r"
  shows "\<exists>r'. write_ringbuff r src (length src) =
      Some (if rb_used r + length src \<le> rb_capacity r then length src else 0, r') \<and> ring_inv r' \<and>
    ring_contents r' = (if rb_used r + length src \<le> rb_capacity r then ring_contents r @ src else ring_contents r)"
proof (cases "rb_used r + length src \<le> rb_capacity r")
  case True
  then have "length src \<le> ring_free r" by (simp add: ring_free_def)
  from ring_write [OF assms this] True show ?thesis by auto
next
  case False
  with assms have "ring_free r < length src" by (auto simp: ring_free_def ring_inv_def)
  from write_ringbuff_full [OF assms this] assms False show ?thesis by auto
qed

text \<open>A buffer of four cells whose contents wrap around its end.\<close>

definition wrapped_ring :: Ringbuff where
  "wrapped_ring = \<lparr>rb_buff = Some [7, 0, 0, 6], rb_readhead = 3, rb_writehead = 1, rb_capacity = 4, rb_used = 2\<rparr>"

lemma wrapped_ring_inv: "ring_inv wrapped_ring" "ring_contents wrapped_ring = [6, 7]"
  by (simp_all add: wrapped_ring_def ring_inv_def ring_contents_def upt_rec)

lemma write_ringbuff_spec_witness:
  "\<exists>r'. write_ringbuff wrapped_ring [8, 9] 2 = Some (2, r') \<and> ring_inv r' \<and> ring_contents r' = [6, 7, 8, 9]"
  using write_ringbuff_spec [OF wrapped_ring_inv(1), of "[8, 9]"] wrapped_ring_inv(2)
  by (simp add: wrapped_ring_def numeral_2_eq_2)

text \<open>
  A peek copies the first bytes of the contents, as many as asked for or there are, and
  leaves the buffer alone; a consume removes as many and returns their number.
\<close>

lemma peek_consume_spec:
  assumes "ring_inv r"
  shows "peek_ringbuff r n = Some (take n (ring_contents r)) \<and>
    (\<exists>r'. consume_ringbuff r n = Some (min n (rb_used r), r') \<and> ring_inv r' \<and>
      ring_contents r' = drop n (ring_contents r) \<and> ring_free r' = ring_free r + min n (rb_used r))"
proof -
  have "rb_used r \<le> rb_capacity r" using assms by (simp add: ring_inv_def)
  with ring_peek [OF assms] ring_consume [OF assms, of n] show ?thesis
    by (auto simp: ring_free_def)
qed

lemma peek_consume_spec_witness:
  "peek_ringbuff wrapped_ring 1 = Some [6] \<and>
    (\<exists>r'. consume_ringbuff wrapped_ring 1 = Some (1, r') \<and> ring_inv r' \<and> ring_contents r' = [7] \<and> ring_free r' = 3)"
  using peek_consume_spec [OF wrapped_ring_inv(1), of 1] wrapped_ring_inv(2)
  by (simp add: wrapped_ring_def ring_free_def)

end
