(* ===== verification/Types.thy ===== *)
theory Types
  imports Prelude
begin

text \<open>
  The data the components exchange, from the header files: socket addresses, the
  \<^verbatim>\<open>Info\<close> of a SOCKS request (\<^verbatim>\<open>include/epoll_data.h\<close>), the configuration
  (\<^verbatim>\<open>include/config.h\<close>) and the protocol constants (\<^verbatim>\<open>include/socks.h\<close>).
  Addresses and ports are kept as the bytes they are in memory, in network byte order; a
  null list pointer is the empty list, any other null pointer is \<open>None\<close>.
\<close>

section \<open>Protocol constants\<close>

definition SOCKS5_VERSION :: byte where "SOCKS5_VERSION = 0x05"
definition SOCKS5_RESV :: byte where "SOCKS5_RESV = 0x00"

definition ATYP_IPV4 :: byte where "ATYP_IPV4 = 0x01"
definition ATYP_DOMN :: byte where "ATYP_DOMN = 0x03"
definition ATYP_IPV6 :: byte where "ATYP_IPV6 = 0x04"

definition CMD_CONN :: byte where "CMD_CONN = 0x01"
definition CMD_BIND :: byte where "CMD_BIND = 0x02"
definition CMD_UDPA :: byte where "CMD_UDPA = 0x03"

definition REP_SUCCESS :: byte where "REP_SUCCESS = 0x00"
definition REP_GENFAIL :: byte where "REP_GENFAIL = 0x01"
definition REP_RULESET :: byte where "REP_RULESET = 0x02"
definition REP_NUNRECH :: byte where "REP_NUNRECH = 0x03"
definition REP_HUNRECH :: byte where "REP_HUNRECH = 0x04"
definition REP_REFUSED :: byte where "REP_REFUSED = 0x05"
definition REP_TTLEXPR :: byte where "REP_TTLEXPR = 0x06"
definition REP_BADCOMM :: byte where "REP_BADCOMM = 0x07"
definition REP_BADATYP :: byte where "REP_BADATYP = 0x08"

definition METH_NOAUTH :: byte where "METH_NOAUTH = 0x00"
definition METH_GSSAPI :: byte where "METH_GSSAPI = 0x01"
definition METH_USERPW :: byte where "METH_USERPW = 0x02"
definition METH_NOMETH :: byte where "METH_NOMETH = 0xFF"

lemmas socks_consts =
  SOCKS5_VERSION_def SOCKS5_RESV_def ATYP_IPV4_def ATYP_DOMN_def ATYP_IPV6_def
  CMD_CONN_def CMD_BIND_def CMD_UDPA_def
lemmas rep_consts =
  REP_SUCCESS_def REP_GENFAIL_def REP_RULESET_def REP_NUNRECH_def REP_HUNRECH_def
  REP_REFUSED_def REP_TTLEXPR_def REP_BADCOMM_def REP_BADATYP_def
lemmas meth_consts = METH_NOAUTH_def METH_GSSAPI_def METH_USERPW_def METH_NOMETH_def

section \<open>Socket addresses\<close>

definition AF_INET :: int where "AF_INET = 2"
definition AF_INET6 :: int where "AF_INET6 = 10"

datatype sockaddr =
  SIN (sin_addr: "byte list") (sin_port: "byte list")
| SIN6 (sin6_addr: "byte list") (sin6_port: "byte list")
| SA_OTHER int

fun sa_family :: "sockaddr \<Rightarrow> int" where
  "sa_family (SIN a p) = AF_INET"
| "sa_family (SIN6 a p) = AF_INET6"
| "sa_family (SA_OTHER f) = f"

fun sa_wf :: "sockaddr \<Rightarrow> bool" where
  "sa_wf (SIN a p) = (length a = 4 \<and> length p = 2)"
| "sa_wf (SIN6 a p) = (length a = 16 \<and> length p = 2)"
| "sa_wf (SA_OTHER f) = (f \<noteq> AF_INET \<and> f \<noteq> AF_INET6)"

lemma sa_family_cases:
  assumes "sa_wf s"
  obtains (inet) a p where "s = SIN a p" "length a = 4" "length p = 2"
  | (inet6) a p where "s = SIN6 a p" "length a = 16" "length p = 2"
  | (other) f where "s = SA_OTHER f" "f \<noteq> AF_INET" "f \<noteq> AF_INET6"
  using assms by (cases s) auto

text \<open>
  \<open>getaddrinfo\<close> returns a linked list of these; the family of an entry is that of its
  address.
\<close>

record addrinfo =
  ai_addr :: sockaddr
  ai_socktype :: int
  ai_protocol :: int

definition ai_family :: "addrinfo \<Rightarrow> int" where
  "ai_family a = sa_family (ai_addr a)"

record Info =
  i_method :: byte
  i_rep :: byte
  i_cmd :: byte
  i_atyp :: byte
  i_resolver_ret :: int
  i_ai_index :: nat
  i_ai :: "addrinfo list"
  i_sa :: "sockaddr option"

section \<open>Configuration\<close>

text \<open>
  \<^verbatim>\<open>Netmask\<close> is a union of the two views. Every reader looks at the view of the family of
  the address next to it, which is the view that was written, so the record of both views
  computes the same.
\<close>

record Netmask =
  nm_inet :: "32 word"
  nm_inet6 :: "byte list"

definition netmask_zero :: Netmask where
  "netmask_zero = \<lparr>nm_inet = 0, nm_inet6 = replicate 16 0\<rparr>"

record Blockaddr_ll =
  b_netmask :: Netmask
  b_sa :: sockaddr

record Sockaddr_ll =
  sl_addrlen :: nat
  sl_sa :: sockaddr

record Configs =
  listen_head :: "Sockaddr_ll list"
  a_log :: "char list"
  e_log :: "char list"
  max_conns :: int
  allow_domains :: bool
  allow_connect :: bool
  allow_bind :: bool
  allow_udpassoc :: bool
  cf_methods :: "byte list"
  bind_advertise :: "Sockaddr_ll list"
  bind_listen :: "Sockaddr_ll list"
  udpa_advertise :: "Sockaddr_ll list"
  udpa_listen :: "Sockaddr_ll list"
  block_head :: "Blockaddr_ll list"

text \<open>The first entry of a family in a list of addresses, the loop of \<^verbatim>\<open>init_bind\<close>.\<close>

fun find_family :: "int \<Rightarrow> Sockaddr_ll list \<Rightarrow> Sockaddr_ll option" where
  "find_family af [] = None"
| "find_family af (l # ls) = (if sa_family (sl_sa l) = af then Some l else find_family af ls)"

lemma find_family_Some: "find_family af ls = Some l \<Longrightarrow> l \<in> set ls \<and> sa_family (sl_sa l) = af"
  by (induction ls) (auto split: if_splits)

lemma find_family_None: "find_family af ls = None \<longleftrightarrow> (\<forall>l \<in> set ls. sa_family (sl_sa l) \<noteq> af)"
  by (induction ls) auto

section \<open>Byte order\<close>

text \<open>
  An address in memory is in network order, so \<^verbatim>\<open>ntohl\<close> reads the first byte as the most
  significant one whatever the byte order of the host, and \<^verbatim>\<open>htonl\<close> writes it back.
\<close>

fun ntohl :: "byte list \<Rightarrow> 32 word" where
  "ntohl [a, b, c, d] =
     push_bit 24 (ucast a) OR push_bit 16 (ucast b) OR push_bit 8 (ucast c) OR ucast d"
| "ntohl _ = 0"

definition htonl :: "32 word \<Rightarrow> byte list" where
  "htonl w = [ucast (drop_bit 24 w), ucast (drop_bit 16 w), ucast (drop_bit 8 w), ucast w]"

lemma length_htonl [simp]: "length (htonl w) = 4"
  by (simp add: htonl_def)

lemma list4_cases:
  assumes "length bs = 4"
  obtains a b c d where "bs = [a, b, c, d]"
  using assms by (auto simp: numeral_eq_Suc length_Suc_conv)

text \<open>Bit \<open>k\<close> of a byte string, counted from its most significant bit.\<close>

definition msb_bit :: "byte list \<Rightarrow> nat \<Rightarrow> bool" where
  "msb_bit bs k = bit (bs ! (k div 8)) (7 - k mod 8)"

lemma less_4_cases: "(i::nat) < 4 \<Longrightarrow> i = 0 \<or> i = 1 \<or> i = 2 \<or> i = 3"
  by arith

lemma bit_ntohl:
  assumes "length bs = 4" and "j < 32"
  shows "bit (ntohl bs) j = bit (bs ! (3 - j div 8)) (j mod 8)"
proof -
  obtain a b c d where bs: "bs = [a, b, c, d]" using assms(1) by (rule list4_cases)
  have high: "\<not> bit x n" if "n \<ge> 8" for x :: byte and n
    using that bit_imp_le_length [of x n] by auto
  consider "j < 8" | "8 \<le> j" "j < 16" | "16 \<le> j" "j < 24" | "24 \<le> j" "j < 32"
    using assms(2) by linarith
  then show ?thesis
  proof cases
    case 1
    then show ?thesis by (simp add: bs bit_simps)
  next
    case 2
    then have "j div 8 = 1" "j mod 8 = j - 8" by (simp_all add: le_mod_geq div_nat_eqI)
    with 2 show ?thesis by (auto simp: bs bit_simps high)
  next
    case 3
    then have "j div 8 = 2" "j mod 8 = j - 16" by (simp_all add: le_mod_geq div_nat_eqI)
    with 3 show ?thesis by (auto simp: bs bit_simps high)
  next
    case 4
    then have "j div 8 = 3" "j mod 8 = j - 24" by (simp_all add: le_mod_geq div_nat_eqI)
    with 4 show ?thesis by (auto simp: bs bit_simps high)
  qed
qed

lemma bit_htonl_nth:
  assumes "i < 4" and "n < 8"
  shows "bit (htonl w ! i) n = bit w (8 * (3 - i) + n)"
  using less_4_cases [OF assms(1)] assms(2) by (auto simp: htonl_def bit_simps)

lemma htonl_ntohl [simp]:
  assumes "length bs = 4"
  shows "htonl (ntohl bs) = bs"
proof (rule nth_equalityI)
  fix i assume "i < length (htonl (ntohl bs))"
  then have i: "i < 4" by simp
  show "htonl (ntohl bs) ! i = bs ! i"
  proof (rule bit_word_eqI)
    fix n assume "n < LENGTH(8)"
    then have n: "n < 8" by simp
    have "(8 * (3 - i) + n) div 8 = 3 - i" and "(8 * (3 - i) + n) mod 8 = n" using n by simp_all
    moreover have "3 - (3 - i) = i" and "8 * (3 - i) + n < 32" using i n by arith+
    ultimately show "bit (htonl (ntohl bs) ! i) n = bit (bs ! i) n"
      using i n assms by (simp add: bit_htonl_nth bit_ntohl)
  qed
qed (simp add: assms)

lemma ntohl_htonl [simp]: "ntohl (htonl w) = w"
proof (rule bit_word_eqI)
  fix j assume "j < LENGTH(32)"
  then have j: "j < 32" by simp
  then have "3 - j div 8 < 4" and "8 * (3 - (3 - j div 8)) + j mod 8 = j"
    by (auto simp: div_less_iff_less_mult)
  with j show "bit (ntohl (htonl w)) j = bit w j"
    by (simp add: bit_ntohl bit_htonl_nth)
qed

lemma htonl_inj: "htonl v = htonl w \<Longrightarrow> v = w"
  by (metis ntohl_htonl)

end
