(* ===== verification/Log_Codes.thy ===== *)
theory Log_Codes
  imports Prelude
begin

text \<open>
  The message codes of \<^verbatim>\<open>include/logger.h\<close>: \<open>L_\<close> codes for the error log, \<open>A_\<close> codes for the
  access log.
\<close>

definition L_SPSTARTUP :: byte where "L_SPSTARTUP = 0x00"
definition L_LOGGERSETUP :: byte where "L_LOGGERSETUP = 0x01"
definition L_EPOLLCREATE :: byte where "L_EPOLLCREATE = 0x02"
definition L_EPOLLERROR :: byte where "L_EPOLLERROR = 0x03"
definition L_LISTENINIT :: byte where "L_LISTENINIT = 0x04"
definition L_LISTENERROR :: byte where "L_LISTENERROR = 0x05"
definition L_RESOLVERSTART :: byte where "L_RESOLVERSTART = 0x06"
definition L_RESOLVERERROR :: byte where "L_RESOLVERERROR = 0x07"
definition L_NORESOLVER :: byte where "L_NORESOLVER = 0x08"
definition L_MALLOCERROR :: byte where "L_MALLOCERROR = 0x09"
definition L_EPOLLERRORADD :: byte where "L_EPOLLERRORADD = 0x0A"
definition L_EPOLLERRORMOD :: byte where "L_EPOLLERRORMOD = 0x0B"
definition L_EPOLLERRORDEL :: byte where "L_EPOLLERRORDEL = 0x0C"
definition L_BINDLISTENER :: byte where "L_BINDLISTENER = 0x0D"
definition L_EPOLLWAITERROR :: byte where "L_EPOLLWAITERROR = 0x0E"
definition L_EPOLLDATANULL :: byte where "L_EPOLLDATANULL = 0x0F"
definition L_NEWCLIENTFAIL :: byte where "L_NEWCLIENTFAIL = 0x10"
definition L_NULLCHECKFAIL :: byte where "L_NULLCHECKFAIL = 0x11"
definition L_GETSOCKOPTFAIL :: byte where "L_GETSOCKOPTFAIL = 0x12"
definition L_GETSOCKNAMEFAIL :: byte where "L_GETSOCKNAMEFAIL = 0x13"

definition A_ACCEPTNEWCLIENT :: byte where "A_ACCEPTNEWCLIENT = 0x00"
definition A_CLOSEHANDSHAKE :: byte where "A_CLOSEHANDSHAKE = 0x01"
definition A_VERSIONFAIL :: byte where "A_VERSIONFAIL = 0x02"
definition A_COMMCONN :: byte where "A_COMMCONN = 0x03"
definition A_COMMBIND :: byte where "A_COMMBIND = 0x04"
definition A_COMMUDPA :: byte where "A_COMMUDPA = 0x05"
definition A_FIREWALLDROP :: byte where "A_FIREWALLDROP = 0x06"
definition A_METHNOAUTH :: byte where "A_METHNOAUTH = 0x07"
definition A_METHUSERPASS :: byte where "A_METHUSERPASS = 0x08"
definition A_METHGSSAPI :: byte where "A_METHGSSAPI = 0x09"
definition A_METHNOMETH :: byte where "A_METHNOMETH = 0x0A"
definition A_CONNECTED :: byte where "A_CONNECTED = 0x0B"
definition A_BINDCONNECTED :: byte where "A_BINDCONNECTED = 0x0C"
definition A_ASSOCIATED :: byte where "A_ASSOCIATED = 0x0D"

lemmas error_codes =
  L_SPSTARTUP_def
  L_LOGGERSETUP_def
  L_EPOLLCREATE_def
  L_EPOLLERROR_def
  L_LISTENINIT_def
  L_LISTENERROR_def
  L_RESOLVERSTART_def
  L_RESOLVERERROR_def
  L_NORESOLVER_def
  L_MALLOCERROR_def
  L_EPOLLERRORADD_def
  L_EPOLLERRORMOD_def
  L_EPOLLERRORDEL_def
  L_BINDLISTENER_def
  L_EPOLLWAITERROR_def
  L_EPOLLDATANULL_def
  L_NEWCLIENTFAIL_def
  L_NULLCHECKFAIL_def
  L_GETSOCKOPTFAIL_def
  L_GETSOCKNAMEFAIL_def

lemmas access_codes =
  A_ACCEPTNEWCLIENT_def
  A_CLOSEHANDSHAKE_def
  A_VERSIONFAIL_def
  A_COMMCONN_def
  A_COMMBIND_def
  A_COMMUDPA_def
  A_FIREWALLDROP_def
  A_METHNOAUTH_def
  A_METHUSERPASS_def
  A_METHGSSAPI_def
  A_METHNOMETH_def
  A_CONNECTED_def
  A_BINDCONNECTED_def
  A_ASSOCIATED_def

end
