(* ===== verification/Epoll_Data.thy ===== *)
theory Epoll_Data
  imports Ringbuff Types Log_Codes
begin

text \<open>
  The state of a proxied connection (\<^verbatim>\<open>include/epoll_data.h\<close>), the system calls the program
  makes on it, and the epoll and release operations of \<^verbatim>\<open>src/epoll_data.c\<close>.

  A \<open>conn\<close> is everything reachable from one \<^verbatim>\<open>Shared\<close> struct: the struct itself, its \<^verbatim>\<open>Info\<close>,
  its two buffers and the \<^verbatim>\<open>Data\<close> structs of its client and its server side, each \<open>None\<close> once
  freed. A use of a freed object is undefined behaviour. The last component is the trace of
  the system calls made so far, with their results.

  The operating system is the argument \<open>e\<close> of the operations: what each call returns, as a
  function of the number of calls made before it, so that two equal calls may have different
  results. The limits POSIX puts on a result (\<^verbatim>\<open>recv\<close> returns at most the bytes asked for,
  \<^verbatim>\<open>send\<close> takes at most the bytes offered) are part of the wrappers below.
\<close>

section \<open>Connections\<close>

datatype conn_state =
  STATE_NO_STATE | STATE_WAITING_METHODS | STATE_SENDING_METHOD | STATE_AUTHENTICATING
| STATE_WAITING_COMMAND | STATE_ASYNC_DNS | STATE_SENDING_REPLY | STATE_SENDING_REPLY_2
| STATE_CONNECTING | STATE_BIND_LISTENING | STATE_FULL | STATE_FULL_UDPA
| STATE_HALF_CLOSE | STATE_CLOSED

definition FLAG_READ_CLOSED :: byte where "FLAG_READ_CLOSED = 0x01"
definition FLAG_WRITE_CLOSED :: byte where "FLAG_WRITE_CLOSED = 0x02"
definition FLAG_FLUSHING :: byte where "FLAG_FLUSHING = 0x04"

definition EPOLLIN :: "32 word" where "EPOLLIN = 0x001"
definition EPOLLOUT :: "32 word" where "EPOLLOUT = 0x004"

datatype data_type = TYPE_LISTENER | TYPE_PEER | TYPE_RESOLVER

text \<open>\<open>None\<close> is the zeroed address storage of a new connection.\<close>

record Alog =
  al_client :: "sockaddr option"
  al_server :: "sockaddr option"

text \<open>
  The pointers \<^verbatim>\<open>client_data\<close>, \<^verbatim>\<open>server_data\<close> and \<^verbatim>\<open>ptr\<close> are only compared with null and, where
  set, point to the object of their slot: \<open>True\<close> is a non-null pointer.
\<close>

record Shared =
  s_state :: conn_state
  s_client_fd :: fd
  s_server_fd :: fd
  s_client_out :: Ringbuff
  s_server_out :: Ringbuff
  s_client_data :: bool
  s_server_data :: bool
  s_client_flags :: byte
  s_server_flags :: byte
  s_access :: Alog
  s_info :: "Info option"
  s_ptr :: bool

record Data =
  d_type :: data_type
  d_self_fd :: fd
  d_shared :: bool

datatype side = Client | Server

section \<open>System calls\<close>

datatype epoll_op = EPOLL_CTL_ADD | EPOLL_CTL_MOD | EPOLL_CTL_DEL

text \<open>The \<^verbatim>\<open>data.ptr\<close> of a registration: a side of this connection, or another \<^verbatim>\<open>Data\<close>.\<close>

datatype epoll_ptr = Peer side | Listener_data | Resolver_data | Null_ptr

datatype sys =
  Sys_recv fd nat "byte list option"
| Sys_send fd "byte list" "nat option"
| Sys_close fd
| Sys_shutdown fd bool
| Sys_epoll_ctl epoll_op fd "32 word" epoll_ptr bool
| Sys_log_access byte Alog
| Sys_log_error byte
| Sys_socket int int "fd option"
| Sys_nonblock fd
| Sys_connect fd sockaddr int
| Sys_bind fd sockaddr bool
| Sys_listen fd bool
| Sys_accept fd "(fd \<times> sockaddr) option"
| Sys_getsockname fd "sockaddr option"
| Sys_getsockopt fd "int option"
| Sys_setsockopt fd bool
| Sys_malloc bool
| Sys_pipe_write "byte list"

record conn =
  c_shared :: "Shared option"
  c_client :: "Data option"
  c_server :: "Data option"
  c_trace :: "sys list"

text \<open>
  \<open>None\<close> is the result \<open>-1\<close>; \<open>os_connect\<close> gives the \<open>errno\<close> of a failed \<^verbatim>\<open>connect\<close>, \<open>0\<close> on
  success; the flag of \<open>os_epoll_ctl\<close>, \<open>os_bind\<close>, \<open>os_listen\<close>, \<open>os_setsockopt\<close> and \<open>os_malloc\<close> is
  success; \<open>os_heap\<close> is what a fresh allocation happens to hold. Two more fields are what
  the program reads of its own memory layout: the bytes of the pointer to the \<^verbatim>\<open>Shared\<close> struct,
  and the bytes of a node of an address list.
\<close>

record os =
  os_recv :: "nat \<Rightarrow> fd \<Rightarrow> byte list option"
  os_send :: "nat \<Rightarrow> fd \<Rightarrow> nat option"
  os_epoll_ctl :: "nat \<Rightarrow> epoll_op \<Rightarrow> fd \<Rightarrow> bool"
  os_socket :: "nat \<Rightarrow> fd option"
  os_connect :: "nat \<Rightarrow> fd \<Rightarrow> int"
  os_bind :: "nat \<Rightarrow> fd \<Rightarrow> bool"
  os_listen :: "nat \<Rightarrow> fd \<Rightarrow> bool"
  os_accept :: "nat \<Rightarrow> fd \<Rightarrow> (fd \<times> sockaddr) option"
  os_getsockname :: "nat \<Rightarrow> fd \<Rightarrow> sockaddr option"
  os_getsockopt :: "nat \<Rightarrow> fd \<Rightarrow> int option"
  os_setsockopt :: "nat \<Rightarrow> fd \<Rightarrow> bool"
  os_malloc :: "nat \<Rightarrow> bool"
  os_heap :: "nat \<Rightarrow> byte list"
  os_shared_ptr :: "byte list"
  os_node_mem :: "Sockaddr_ll \<Rightarrow> byte list"

definition now :: "conn \<Rightarrow> nat" where
  "now c = length (c_trace c)"

definition emit :: "sys \<Rightarrow> conn \<Rightarrow> conn" where
  "emit a c = c\<lparr>c_trace := c_trace c @ [a]\<rparr>"

definition sys_recv :: "os \<Rightarrow> fd \<Rightarrow> nat \<Rightarrow> conn \<Rightarrow> byte list option \<times> conn" where
  "sys_recv e fd n c =
    (let r = map_option (take n) (os_recv e (now c) fd) in (r, emit (Sys_recv fd n r) c))"

definition sys_send :: "os \<Rightarrow> fd \<Rightarrow> byte list \<Rightarrow> conn \<Rightarrow> nat option \<times> conn" where
  "sys_send e fd bs c =
    (let r = map_option (min (length bs)) (os_send e (now c) fd) in (r, emit (Sys_send fd bs r) c))"

definition close_fd :: "fd \<Rightarrow> conn \<Rightarrow> conn" where
  "close_fd fd c = emit (Sys_close fd) c"

definition log_error :: "byte \<Rightarrow> conn \<Rightarrow> conn" where
  "log_error code c = emit (Sys_log_error code) c"

definition sys_malloc :: "os \<Rightarrow> conn \<Rightarrow> bool \<times> conn" where
  "sys_malloc e c = (let r = os_malloc e (now c) in (r, emit (Sys_malloc r) c))"

text \<open>The contents of a fresh allocation of \<open>n\<close> bytes, not initialised.\<close>

definition heap_bytes :: "os \<Rightarrow> nat \<Rightarrow> conn \<Rightarrow> byte list" where
  "heap_bytes e n c = take n (os_heap e (now c) @ replicate n 0)"

lemma length_heap_bytes [simp]: "length (heap_bytes e n c) = n"
  by (simp add: heap_bytes_def)

definition sys_socket :: "os \<Rightarrow> int \<Rightarrow> int \<Rightarrow> conn \<Rightarrow> fd option \<times> conn" where
  "sys_socket e af ty c = (let r = os_socket e (now c) in (r, emit (Sys_socket af ty r) c))"

definition fd_nonblocking :: "fd \<Rightarrow> conn \<Rightarrow> conn" where
  "fd_nonblocking fd c = emit (Sys_nonblock fd) c"

definition sys_connect :: "os \<Rightarrow> fd \<Rightarrow> sockaddr \<Rightarrow> conn \<Rightarrow> int \<times> conn" where
  "sys_connect e fd sa c = (let r = os_connect e (now c) fd in (r, emit (Sys_connect fd sa r) c))"

definition sys_bind :: "os \<Rightarrow> fd \<Rightarrow> sockaddr \<Rightarrow> conn \<Rightarrow> bool \<times> conn" where
  "sys_bind e fd sa c = (let r = os_bind e (now c) fd in (r, emit (Sys_bind fd sa r) c))"

definition sys_listen :: "os \<Rightarrow> fd \<Rightarrow> conn \<Rightarrow> bool \<times> conn" where
  "sys_listen e fd c = (let r = os_listen e (now c) fd in (r, emit (Sys_listen fd r) c))"

definition sys_setsockopt :: "os \<Rightarrow> fd \<Rightarrow> conn \<Rightarrow> bool \<times> conn" where
  "sys_setsockopt e fd c =
    (let r = os_setsockopt e (now c) fd in (r, emit (Sys_setsockopt fd r) c))"

definition sys_accept :: "os \<Rightarrow> fd \<Rightarrow> conn \<Rightarrow> (fd \<times> sockaddr) option \<times> conn" where
  "sys_accept e fd c = (let r = os_accept e (now c) fd in (r, emit (Sys_accept fd r) c))"

definition sys_getsockname :: "os \<Rightarrow> fd \<Rightarrow> conn \<Rightarrow> sockaddr option \<times> conn" where
  "sys_getsockname e fd c =
    (let r = os_getsockname e (now c) fd in (r, emit (Sys_getsockname fd r) c))"

definition sys_getsockopt :: "os \<Rightarrow> fd \<Rightarrow> conn \<Rightarrow> int option \<times> conn" where
  "sys_getsockopt e fd c =
    (let r = os_getsockopt e (now c) fd in (r, emit (Sys_getsockopt fd r) c))"

definition epoll_ctl :: "os \<Rightarrow> epoll_op \<Rightarrow> fd \<Rightarrow> 32 word \<Rightarrow> epoll_ptr \<Rightarrow> conn \<Rightarrow> bool \<times> conn" where
  "epoll_ctl e op fd evs ptr c =
    (let r = os_epoll_ctl e (now c) op fd in (r, emit (Sys_epoll_ctl op fd evs ptr r) c))"

section \<open>Access to the objects of a connection\<close>

definition get_data :: "side \<Rightarrow> conn \<Rightarrow> Data option" where
  "get_data d c = (case d of Client \<Rightarrow> c_client c | Server \<Rightarrow> c_server c)"

definition put_data :: "side \<Rightarrow> Data option \<Rightarrow> conn \<Rightarrow> conn" where
  "put_data d x c = (case d of Client \<Rightarrow> c\<lparr>c_client := x\<rparr> | Server \<Rightarrow> c\<lparr>c_server := x\<rparr>)"

definition upd_shared :: "(Shared \<Rightarrow> Shared) \<Rightarrow> conn \<Rightarrow> conn option" where
  "upd_shared f c = do { sh \<leftarrow> c_shared c; Some (c\<lparr>c_shared := Some (f sh)\<rparr>) }"

definition set_state :: "conn_state \<Rightarrow> conn \<Rightarrow> conn option" where
  "set_state st = upd_shared (s_state_update (\<lambda>_. st))"

definition get_info :: "conn \<Rightarrow> Info option" where
  "get_info c = do { sh \<leftarrow> c_shared c; s_info sh }"

definition upd_info :: "(Info \<Rightarrow> Info) \<Rightarrow> conn \<Rightarrow> conn option" where
  "upd_info f c = do {
     sh \<leftarrow> c_shared c;
     info \<leftarrow> s_info sh;
     Some (c\<lparr>c_shared := Some (sh\<lparr>s_info := Some (f info)\<rparr>)\<rparr>) }"

definition set_rep :: "byte \<Rightarrow> conn \<Rightarrow> conn option" where
  "set_rep r = upd_info (i_rep_update (\<lambda>_. r))"

definition write_client_out :: "byte list \<Rightarrow> conn \<Rightarrow> (nat \<times> conn) option" where
  "write_client_out xs c = do {
     sh \<leftarrow> c_shared c;
     (n, r) \<leftarrow> write_ringbuff (s_client_out sh) xs (length xs);
     Some (n, c\<lparr>c_shared := Some (sh\<lparr>s_client_out := r\<rparr>)\<rparr>) }"

definition write_server_out :: "byte list \<Rightarrow> conn \<Rightarrow> (nat \<times> conn) option" where
  "write_server_out xs c = do {
     sh \<leftarrow> c_shared c;
     (n, r) \<leftarrow> write_ringbuff (s_server_out sh) xs (length xs);
     Some (n, c\<lparr>c_shared := Some (sh\<lparr>s_server_out := r\<rparr>)\<rparr>) }"

definition peek_client_out :: "nat \<Rightarrow> conn \<Rightarrow> byte list option" where
  "peek_client_out n c = do { sh \<leftarrow> c_shared c; peek_ringbuff (s_client_out sh) n }"

definition peek_server_out :: "nat \<Rightarrow> conn \<Rightarrow> byte list option" where
  "peek_server_out n c = do { sh \<leftarrow> c_shared c; peek_ringbuff (s_server_out sh) n }"

definition consume_client_out :: "nat \<Rightarrow> conn \<Rightarrow> conn option" where
  "consume_client_out n c = do {
     sh \<leftarrow> c_shared c;
     (k, r) \<leftarrow> consume_ringbuff (s_client_out sh) n;
     Some (c\<lparr>c_shared := Some (sh\<lparr>s_client_out := r\<rparr>)\<rparr>) }"

definition consume_server_out :: "nat \<Rightarrow> conn \<Rightarrow> conn option" where
  "consume_server_out n c = do {
     sh \<leftarrow> c_shared c;
     (k, r) \<leftarrow> consume_ringbuff (s_server_out sh) n;
     Some (c\<lparr>c_shared := Some (sh\<lparr>s_server_out := r\<rparr>)\<rparr>) }"

definition log_access :: "byte \<Rightarrow> conn \<Rightarrow> conn option" where
  "log_access code c = do { sh \<leftarrow> c_shared c; Some (emit (Sys_log_access code (s_access sh)) c) }"

section \<open>Epoll registration\<close>

definition ep_add_listener :: "os \<Rightarrow> fd \<Rightarrow> conn \<Rightarrow> int \<times> conn" where
  "ep_add_listener e fd c =
    (let (ok, c) = sys_malloc e c
     in if \<not> ok then (-1, log_error L_MALLOCERROR c)
        else let (ok, c) = epoll_ctl e EPOLL_CTL_ADD fd EPOLLIN Listener_data c
             in if \<not> ok then (-1, log_error L_EPOLLERRORADD c) else (0, c))"

definition ep_add_resolver :: "os \<Rightarrow> fd \<Rightarrow> conn \<Rightarrow> int \<times> conn" where
  "ep_add_resolver e rout_pipe c =
    (let (ok, c) = sys_malloc e c
     in if \<not> ok then (-1, log_error L_MALLOCERROR c)
        else let (ok, c) = epoll_ctl e EPOLL_CTL_ADD rout_pipe EPOLLIN Resolver_data c
             in if \<not> ok then (-1, c) else (0, c))"

definition ep_add_new_client :: "os \<Rightarrow> fd \<Rightarrow> side \<Rightarrow> conn \<Rightarrow> int \<times> conn" where
  "ep_add_new_client e fd d c =
    (let (ok, c) = epoll_ctl e EPOLL_CTL_ADD fd EPOLLIN (Peer d) c
     in if \<not> ok then (-1, log_error L_EPOLLERRORADD c) else (0, c))"

definition ep_connecting :: "os \<Rightarrow> fd \<Rightarrow> side \<Rightarrow> conn \<Rightarrow> int \<times> conn" where
  "ep_connecting e fd d c =
    (let (ok, c) = epoll_ctl e EPOLL_CTL_ADD fd EPOLLOUT (Peer d) c
     in if \<not> ok then (-1, log_error L_EPOLLERRORADD c) else (0, c))"

definition ep_waiting_send :: "os \<Rightarrow> fd \<Rightarrow> side \<Rightarrow> conn \<Rightarrow> int \<times> conn" where
  "ep_waiting_send e fd d c =
    (let (ok, c) = epoll_ctl e EPOLL_CTL_MOD fd (EPOLLIN OR EPOLLOUT) (Peer d) c
     in if \<not> ok then (-1, log_error L_EPOLLERRORMOD c) else (0, c))"

definition ep_done_sending :: "os \<Rightarrow> fd \<Rightarrow> side \<Rightarrow> conn \<Rightarrow> int \<times> conn" where
  "ep_done_sending e fd d c =
    (let (ok, c) = epoll_ctl e EPOLL_CTL_MOD fd EPOLLIN (Peer d) c
     in if \<not> ok then (-1, log_error L_EPOLLERRORMOD c) else (0, c))"

definition ep_delete_fd :: "os \<Rightarrow> fd \<Rightarrow> conn \<Rightarrow> conn" where
  "ep_delete_fd e fd c = snd (epoll_ctl e EPOLL_CTL_DEL fd 0 Null_ptr c)"

section \<open>Release\<close>

definition free_buffers :: "Shared \<Rightarrow> Shared" where
  "free_buffers sh =
    sh\<lparr>s_info := None, s_ptr := False,
       s_client_out := (s_client_out sh)\<lparr>rb_buff := None\<rparr>,
       s_server_out := (s_server_out sh)\<lparr>rb_buff := None\<rparr>\<rparr>"

definition free_data :: "side \<Rightarrow> conn \<Rightarrow> conn option" where
  "free_data d c = do {
     dat \<leftarrow> get_data d c;
     sh \<leftarrow> c_shared c;
     let sh = free_buffers sh;
     let sh = (if d_self_fd dat = s_client_fd sh then sh\<lparr>s_client_data := False\<rparr> else sh);
     let sh = (if d_self_fd dat = s_server_fd sh then sh\<lparr>s_server_data := False\<rparr> else sh);
     let c = (if \<not> s_client_data sh \<and> \<not> s_server_data sh then c\<lparr>c_shared := None\<rparr>
              else c\<lparr>c_shared := Some sh\<rparr>);
     Some (put_data d None c) }"

section \<open>What the wrappers leave alone\<close>

lemma emit_simps [simp]:
  "c_shared (emit a c) = c_shared c" "c_client (emit a c) = c_client c"
  "c_server (emit a c) = c_server c" "c_trace (emit a c) = c_trace c @ [a]"
  by (simp_all add: emit_def)

lemma get_data_simps [simp]:
  "get_data Client c = c_client c" "get_data Server c = c_server c"
  "get_data d (emit a c) = get_data d c"
  "get_data d (c\<lparr>c_shared := s\<rparr>) = get_data d c"
  by (simp_all add: get_data_def split: side.split)

lemma put_data_simps [simp]:
  "c_shared (put_data d x c) = c_shared c" "c_trace (put_data d x c) = c_trace c"
  "get_data d (put_data d x c) = x"
  "d \<noteq> d' \<Longrightarrow> get_data d (put_data d' x c) = get_data d c"
  "put_data Client x c = c\<lparr>c_client := x\<rparr>" "put_data Server x c = c\<lparr>c_server := x\<rparr>"
  by (cases d; cases d'; simp add: put_data_def get_data_def)+

lemma emit_upd_shared: "emit a (c\<lparr>c_shared := s\<rparr>) = (emit a c)\<lparr>c_shared := s\<rparr>"
  by (simp add: emit_def)

text \<open>The wrappers as equations over \<open>emit\<close>, to evaluate a handler.\<close>

lemmas sys_defs =
  sys_recv_def sys_send_def close_fd_def log_error_def sys_malloc_def sys_socket_def
  fd_nonblocking_def sys_connect_def sys_bind_def sys_listen_def sys_setsockopt_def sys_accept_def
  sys_getsockname_def sys_getsockopt_def epoll_ctl_def

lemmas ep_defs =
  ep_add_listener_def ep_add_resolver_def ep_add_new_client_def ep_connecting_def
  ep_waiting_send_def ep_done_sending_def ep_delete_fd_def

lemmas obj_defs =
  upd_shared_def set_state_def get_info_def upd_info_def set_rep_def log_access_def

end
