(* ===== verification/Session.thy ===== *)
theory Session
  imports Epoll_Data
begin

text \<open>
  The abstract view of a live connection and the effect of every primitive on it. A
  connection is \<open>well_formed\<close> when its objects are allocated and point to each other as the code
  expects; its \<open>view\<close> then forgets the heap and the ring buffers: what is left is the state,
  the two byte queues, the request, the descriptors and the trace. The rules of the
  collection \<open>wp_steps\<close> execute the primitives on views, so that a proof about a handler is
  a walk over its branches.
\<close>

section \<open>Live connections and their view\<close>

record view =
  v_state :: conn_state
  v_out :: "byte list"
  v_in :: "byte list"
  v_info :: Info
  v_client :: fd
  v_server :: "fd option"
  v_flags :: "byte \<times> byte"
  v_access :: Alog
  v_trace :: "sys list"

abbreviation v_rep :: "view \<Rightarrow> byte" where
  "v_rep v \<equiv> i_rep (v_info v)"

definition ring_ok :: "Ringbuff \<Rightarrow> bool" where
  "ring_ok r \<longleftrightarrow> ring_inv r \<and> rb_capacity r = OUTBUFFSIZE"

definition peer :: "fd \<Rightarrow> Data" where
  "peer fd = \<lparr>d_type = TYPE_PEER, d_self_fd = fd, d_shared = True\<rparr>"

lemma peer_simps [simp]: "d_self_fd (peer fd) = fd" "d_shared (peer fd)" "d_type (peer fd) = TYPE_PEER"
  by (simp_all add: peer_def)

definition well_formed :: "conn \<Rightarrow> bool" where
  "well_formed c \<longleftrightarrow> (\<exists>sh info.
     c_shared c = Some sh \<and> s_info sh = Some info \<and>
     ring_ok (s_client_out sh) \<and> ring_ok (s_server_out sh) \<and>
     c_client c = Some (peer (s_client_fd sh)) \<and> s_client_data sh \<and> 0 \<le> s_client_fd sh \<and>
     s_server_fd sh \<noteq> s_client_fd sh \<and>
     s_server_data sh = (c_server c \<noteq> None) \<and> (c_server c = None \<longrightarrow> s_server_fd sh = -1) \<and>
     (\<forall>dat. c_server c = Some dat \<longrightarrow> dat = peer (s_server_fd sh)))"

definition the_shared :: "conn \<Rightarrow> Shared" where
  "the_shared c = the (c_shared c)"

definition view :: "conn \<Rightarrow> view" where
  "view c = (let sh = the_shared c in
     \<lparr>v_state = s_state sh, v_out = ring_contents (s_client_out sh),
      v_in = ring_contents (s_server_out sh), v_info = the (s_info sh),
      v_client = s_client_fd sh, v_server = map_option d_self_fd (c_server c),
      v_flags = (s_client_flags sh, s_server_flags sh),
      v_access = s_access sh, v_trace = c_trace c\<rparr>)"

lemma wfE:
  assumes "well_formed c"
  obtains sh info where "c_shared c = Some sh" "s_info sh = Some info"
    "ring_ok (s_client_out sh)" "ring_ok (s_server_out sh)"
    "c_client c = Some (peer (s_client_fd sh))" "s_client_data sh" "0 \<le> s_client_fd sh"
    "s_server_fd sh \<noteq> s_client_fd sh" "s_server_data sh = (c_server c \<noteq> None)"
    "\<And>dat. c_server c = Some dat \<Longrightarrow> dat = peer (s_server_fd sh)"
  using assms unfolding well_formed_def by blast

lemma ring_ok_used: "ring_ok r \<Longrightarrow> rb_used r = length (ring_contents r) \<and> rb_used r \<le> OUTBUFFSIZE"
  by (auto simp: ring_ok_def length_ring_contents ring_inv_def)

lemma ring_ok_free: "ring_ok r \<Longrightarrow> ring_free r = OUTBUFFSIZE - length (ring_contents r)"
  by (auto simp: ring_ok_def length_ring_contents ring_free_def)

text \<open>Reading a live connection.\<close>

lemma wf_reads:
  assumes "well_formed c"
  shows wf_shared: "c_shared c = Some (the_shared c)"
    and wf_state: "s_state (the_shared c) = v_state (view c)"
    and wf_client_fd: "s_client_fd (the_shared c) = v_client (view c)"
    and wf_access: "s_access (the_shared c) = v_access (view c)"
    and wf_info: "get_info c = Some (v_info (view c))"
    and wf_client: "c_client c = Some (peer (v_client (view c)))"
    and wf_server: "c_server c = map_option peer (v_server (view c))"
    and wf_in_used: "rb_used (s_server_out (the_shared c)) = length (v_in (view c))"
    and wf_out_used: "rb_used (s_client_out (the_shared c)) = length (v_out (view c))"
    and wf_in_cap: "rb_capacity (s_server_out (the_shared c)) = OUTBUFFSIZE"
    and wf_in_le: "length (v_in (view c)) \<le> OUTBUFFSIZE"
    and wf_out_le: "length (v_out (view c)) \<le> OUTBUFFSIZE"
    and wf_client_nonneg: "0 \<le> v_client (view c)"
proof -
  from assms obtain sh info where s: "c_shared c = Some sh" "s_info sh = Some info"
    and r: "ring_ok (s_client_out sh)" "ring_ok (s_server_out sh)"
    and cl: "c_client c = Some (peer (s_client_fd sh))" "0 \<le> s_client_fd sh"
    and sv: "\<And>dat. c_server c = Some dat \<Longrightarrow> dat = peer (s_server_fd sh)"
    by (rule wfE) blast
  have the_sh: "the_shared c = sh" using s by (simp add: the_shared_def)
  note v = view_def [of c, unfolded the_sh Let_def]
  show "c_shared c = Some (the_shared c)" using s by (simp add: the_shared_def)
  show "s_state (the_shared c) = v_state (view c)" by (simp add: v the_sh)
  show "s_client_fd (the_shared c) = v_client (view c)" by (simp add: v the_sh)
  show "s_access (the_shared c) = v_access (view c)" by (simp add: v the_sh)
  show "get_info c = Some (v_info (view c))" using s by (simp add: v get_info_def)
  show "c_client c = Some (peer (v_client (view c)))" using cl by (simp add: v)
  show "c_server c = map_option peer (v_server (view c))"
    using sv by (cases "c_server c") (auto simp: v)
  show "rb_used (s_server_out (the_shared c)) = length (v_in (view c))"
    using ring_ok_used [OF r(2)] by (simp add: v the_sh)
  show "rb_used (s_client_out (the_shared c)) = length (v_out (view c))"
    using ring_ok_used [OF r(1)] by (simp add: v the_sh)
  show "rb_capacity (s_server_out (the_shared c)) = OUTBUFFSIZE"
    using r(2) by (simp add: the_sh ring_ok_def)
  show "length (v_in (view c)) \<le> OUTBUFFSIZE" using ring_ok_used [OF r(2)] by (simp add: v)
  show "length (v_out (view c)) \<le> OUTBUFFSIZE" using ring_ok_used [OF r(1)] by (simp add: v)
  show "0 \<le> v_client (view c)" using cl by (simp add: v)
qed

lemma wf_server_fd: "well_formed c \<Longrightarrow> v_server (view c) = Some fd \<Longrightarrow> s_server_fd (the_shared c) = fd"
  by (auto elim!: wfE simp: view_def the_shared_def Let_def)

lemma wf_no_server:
  "well_formed c \<Longrightarrow> v_server (view c) = None \<Longrightarrow> s_server_fd (the_shared c) = -1"
  by (auto simp: well_formed_def view_def the_shared_def Let_def)

lemma wf_server_ne: "well_formed c \<Longrightarrow> v_server (view c) \<noteq> Some (v_client (view c))"
  by (auto elim!: wfE simp: view_def the_shared_def Let_def)

lemma view_trace: "v_trace (view c) = c_trace c"
  by (simp add: view_def Let_def)

lemma now_view: "now c = length (v_trace (view c))"
  by (simp add: now_def view_trace)

lemma wf_emit [simp]: "well_formed (emit a c) = well_formed c"
  by (simp add: well_formed_def)

lemma view_emit [simp]: "view (emit a c) = (view c)\<lparr>v_trace := v_trace (view c) @ [a]\<rparr>"
  by (simp add: view_def the_shared_def Let_def)

lemma the_shared_emit [simp]: "the_shared (emit a c) = the_shared c"
  by (simp add: the_shared_def)

section \<open>The primitives on views\<close>

named_theorems wp_steps \<open>execution of a primitive on the view of a live connection\<close>

lemma wf_info_update:
  assumes "well_formed c" and "c_shared c = Some sh" and "s_info sh = Some info"
  shows "well_formed (c\<lparr>c_shared := Some (sh\<lparr>s_info := Some i\<rparr>)\<rparr>)"
    and "view (c\<lparr>c_shared := Some (sh\<lparr>s_info := Some i\<rparr>)\<rparr>) = (view c)\<lparr>v_info := i\<rparr>"
  using assms by (auto simp: well_formed_def view_def the_shared_def Let_def)

lemma wp_upd_info [wp_steps]:
  assumes "well_formed c"
    and "\<And>c'. well_formed c' \<Longrightarrow> view c' = (view c)\<lparr>v_info := f (v_info (view c))\<rparr> \<Longrightarrow> Q c'"
  shows "wp (upd_info f c) Q"
proof -
  from assms(1) obtain sh info where s: "c_shared c = Some sh" "s_info sh = Some info"
    by (rule wfE)
  then have "v_info (view c) = info" by (simp add: view_def the_shared_def Let_def)
  with s assms wf_info_update [OF assms(1) s, of "f info"] show ?thesis
    by (simp add: upd_info_def)
qed

lemma wp_set_rep [wp_steps]:
  assumes "well_formed c"
    and "\<And>c'. well_formed c' \<Longrightarrow> view c' = (view c)\<lparr>v_info := (v_info (view c))\<lparr>i_rep := r\<rparr>\<rparr> \<Longrightarrow> Q c'"
  shows "wp (set_rep r c) Q"
  unfolding set_rep_def using assms by (auto intro!: wp_upd_info)

lemma wp_set_state [wp_steps]:
  assumes "well_formed c"
    and "\<And>c'. well_formed c' \<Longrightarrow> view c' = (view c)\<lparr>v_state := st\<rparr> \<Longrightarrow> Q c'"
  shows "wp (set_state st c) Q"
proof -
  from assms(1) obtain sh where s: "c_shared c = Some sh" by (rule wfE)
  let ?c = "c\<lparr>c_shared := Some (sh\<lparr>s_state := st\<rparr>)\<rparr>"
  have "well_formed ?c" and "view ?c = (view c)\<lparr>v_state := st\<rparr>"
    using assms(1) s by (auto simp: well_formed_def view_def the_shared_def Let_def)
  with s assms(2) show ?thesis by (simp add: set_state_def upd_shared_def)
qed

lemma wp_log_access [wp_steps]:
  assumes "well_formed c"
    and "\<And>c'. well_formed c' \<Longrightarrow>
      view c' = (view c)\<lparr>v_trace := v_trace (view c) @ [Sys_log_access code (v_access (view c))]\<rparr> \<Longrightarrow> Q c'"
  shows "wp (log_access code c) Q"
  using assms by (simp add: log_access_def wf_shared wf_access)

lemma wp_get_data_client [wp_steps]:
  "well_formed c \<Longrightarrow> Q (peer (v_client (view c))) \<Longrightarrow> wp (get_data Client c) Q"
  by (simp add: wf_client)

text \<open>The client's queue.\<close>

lemma wf_out_update:
  assumes "well_formed c" and "ring_ok r" and "c_shared c = Some sh"
  shows "well_formed (c\<lparr>c_shared := Some (sh\<lparr>s_client_out := r\<rparr>)\<rparr>)"
    and "view (c\<lparr>c_shared := Some (sh\<lparr>s_client_out := r\<rparr>)\<rparr>) = (view c)\<lparr>v_out := ring_contents r\<rparr>"
  using assms by (auto simp: well_formed_def view_def the_shared_def Let_def)

lemma wf_in_update:
  assumes "well_formed c" and "ring_ok r" and "c_shared c = Some sh"
  shows "well_formed (c\<lparr>c_shared := Some (sh\<lparr>s_server_out := r\<rparr>)\<rparr>)"
    and "view (c\<lparr>c_shared := Some (sh\<lparr>s_server_out := r\<rparr>)\<rparr>) = (view c)\<lparr>v_in := ring_contents r\<rparr>"
  using assms by (auto simp: well_formed_def view_def the_shared_def Let_def)

lemma ring_ok_write:
  assumes "ring_ok r" and "length (ring_contents r) + length xs \<le> OUTBUFFSIZE"
  shows "\<exists>r'. write_ringbuff r xs (length xs) = Some (length xs, r') \<and> ring_ok r' \<and>
    ring_contents r' = ring_contents r @ xs"
proof -
  from assms have "ring_inv r" and "length xs \<le> ring_free r"
    by (simp_all add: ring_ok_def ring_ok_free)
  then show ?thesis using assms(1) ring_write [of r xs] by (auto simp: ring_ok_def)
qed

lemma ring_ok_write_full:
  assumes "ring_ok r" and "length (ring_contents r) + length xs > OUTBUFFSIZE"
  shows "write_ringbuff r xs (length xs) = Some (0, r)"
  using assms ring_ok_used [OF assms(1)]
  by (intro rb.put_full) (auto simp: ring_ok_def ring_free_def)

lemma ring_ok_consume:
  assumes "ring_ok r"
  shows "\<exists>k r'. consume_ringbuff r n = Some (k, r') \<and> ring_ok r' \<and> ring_contents r' = drop n (ring_contents r)"
  using assms ring_consume [of r n] by (auto simp: ring_ok_def)

lemma wp_write_client_out [wp_steps]:
  assumes "well_formed c"
    and "length (v_out (view c)) + length xs \<le> OUTBUFFSIZE \<Longrightarrow>
      (\<And>c'. well_formed c' \<Longrightarrow> view c' = (view c)\<lparr>v_out := v_out (view c) @ xs\<rparr> \<Longrightarrow> Q (length xs, c'))"
    and "length (v_out (view c)) + length xs > OUTBUFFSIZE \<Longrightarrow>
      (\<And>c'. well_formed c' \<Longrightarrow> view c' = view c \<Longrightarrow> Q (0, c'))"
  shows "wp (write_client_out xs c) Q"
proof -
  from assms(1) obtain sh where s: "c_shared c = Some sh" and r: "ring_ok (s_client_out sh)"
    by (rule wfE)
  have v: "v_out (view c) = ring_contents (s_client_out sh)"
    using s by (simp add: view_def the_shared_def Let_def)
  show ?thesis
  proof (cases "length (v_out (view c)) + length xs \<le> OUTBUFFSIZE")
    case True
    with ring_ok_write [OF r] v obtain r' where
      "write_ringbuff (s_client_out sh) xs (length xs) = Some (length xs, r')" "ring_ok r'"
      "ring_contents r' = v_out (view c) @ xs" by auto
    with s True assms(2) wf_out_update [OF assms(1) _ s] show ?thesis
      by (simp add: write_client_out_def)
  next
    case False
    with ring_ok_write_full [OF r] v have
      "write_ringbuff (s_client_out sh) xs (length xs) = Some (0, s_client_out sh)" by simp
    with s False assms(1,3) wf_out_update [OF assms(1) r s] v show ?thesis
      by (simp add: write_client_out_def)
  qed
qed

lemma wp_write_server_out [wp_steps]:
  assumes "well_formed c"
    and "length (v_in (view c)) + length xs \<le> OUTBUFFSIZE \<Longrightarrow>
      (\<And>c'. well_formed c' \<Longrightarrow> view c' = (view c)\<lparr>v_in := v_in (view c) @ xs\<rparr> \<Longrightarrow> Q (length xs, c'))"
    and "length (v_in (view c)) + length xs > OUTBUFFSIZE \<Longrightarrow>
      (\<And>c'. well_formed c' \<Longrightarrow> view c' = view c \<Longrightarrow> Q (0, c'))"
  shows "wp (write_server_out xs c) Q"
proof -
  from assms(1) obtain sh where s: "c_shared c = Some sh" and r: "ring_ok (s_server_out sh)"
    by (rule wfE)
  have v: "v_in (view c) = ring_contents (s_server_out sh)"
    using s by (simp add: view_def the_shared_def Let_def)
  show ?thesis
  proof (cases "length (v_in (view c)) + length xs \<le> OUTBUFFSIZE")
    case True
    with ring_ok_write [OF r] v obtain r' where
      "write_ringbuff (s_server_out sh) xs (length xs) = Some (length xs, r')" "ring_ok r'"
      "ring_contents r' = v_in (view c) @ xs" by auto
    with s True assms(2) wf_in_update [OF assms(1) _ s] show ?thesis
      by (simp add: write_server_out_def)
  next
    case False
    with ring_ok_write_full [OF r] v have
      "write_ringbuff (s_server_out sh) xs (length xs) = Some (0, s_server_out sh)" by simp
    with s False assms(1,3) wf_in_update [OF assms(1) r s] v show ?thesis
      by (simp add: write_server_out_def)
  qed
qed

lemma peek_client_out_view: "well_formed c \<Longrightarrow> peek_client_out n c = Some (take n (v_out (view c)))"
  by (auto elim!: wfE simp: peek_client_out_def view_def the_shared_def Let_def ring_ok_def ring_peek)

lemma peek_server_out_view: "well_formed c \<Longrightarrow> peek_server_out n c = Some (take n (v_in (view c)))"
  by (auto elim!: wfE simp: peek_server_out_def view_def the_shared_def Let_def ring_ok_def ring_peek)

lemma wp_consume_client_out [wp_steps]:
  assumes "well_formed c"
    and "\<And>c'. well_formed c' \<Longrightarrow> view c' = (view c)\<lparr>v_out := drop n (v_out (view c))\<rparr> \<Longrightarrow> Q c'"
  shows "wp (consume_client_out n c) Q"
proof -
  from assms(1) obtain sh where s: "c_shared c = Some sh" and r: "ring_ok (s_client_out sh)"
    by (rule wfE)
  from ring_ok_consume [OF r, of n] obtain k r' where
    "consume_ringbuff (s_client_out sh) n = Some (k, r')" "ring_ok r'"
    "ring_contents r' = drop n (ring_contents (s_client_out sh))" by blast
  with s assms(2) wf_out_update [OF assms(1) _ s] show ?thesis
    by (simp add: consume_client_out_def view_def the_shared_def Let_def)
qed

lemma wp_consume_server_out [wp_steps]:
  assumes "well_formed c"
    and "\<And>c'. well_formed c' \<Longrightarrow> view c' = (view c)\<lparr>v_in := drop n (v_in (view c))\<rparr> \<Longrightarrow> Q c'"
  shows "wp (consume_server_out n c) Q"
proof -
  from assms(1) obtain sh where s: "c_shared c = Some sh" and r: "ring_ok (s_server_out sh)"
    by (rule wfE)
  from ring_ok_consume [OF r, of n] obtain k r' where
    "consume_ringbuff (s_server_out sh) n = Some (k, r')" "ring_ok r'"
    "ring_contents r' = drop n (ring_contents (s_server_out sh))" by blast
  with s assms(2) wf_in_update [OF assms(1) _ s] show ?thesis
    by (simp add: consume_server_out_def view_def the_shared_def Let_def)
qed

section \<open>Sides\<close>

text \<open>The descriptor of a side, when it exists.\<close>

definition side_fd :: "side \<Rightarrow> view \<Rightarrow> fd option" where
  "side_fd d v = (case d of Client \<Rightarrow> Some (v_client v) | Server \<Rightarrow> v_server v)"

fun other :: "side \<Rightarrow> side" where
  "other Client = Server"
| "other Server = Client"

lemma other_other [simp]: "other (other d) = d"
  by (cases d) simp_all

lemma other_neq [simp]: "other d \<noteq> d" "d \<noteq> other d"
  by (cases d; simp)+

lemma side_fd_simps [simp]:
  "side_fd Client v = Some (v_client v)" "side_fd Server v = v_server v"
  "side_fd d (v\<lparr>v_state := st\<rparr>) = side_fd d v" "side_fd d (v\<lparr>v_out := xs\<rparr>) = side_fd d v"
  "side_fd d (v\<lparr>v_in := ys\<rparr>) = side_fd d v" "side_fd d (v\<lparr>v_info := i\<rparr>) = side_fd d v"
  "side_fd d (v\<lparr>v_trace := t\<rparr>) = side_fd d v" "side_fd d (v\<lparr>v_flags := fl\<rparr>) = side_fd d v"
  "side_fd d (v\<lparr>v_access := a\<rparr>) = side_fd d v"
  by (cases d; simp add: side_fd_def)+

lemma wf_data: "well_formed c \<Longrightarrow> get_data d c = map_option peer (side_fd d (view c))"
  by (cases d) (simp_all add: wf_client wf_server)

lemma wp_get_data [wp_steps]:
  "well_formed c \<Longrightarrow> side_fd d (view c) = Some fd \<Longrightarrow> Q (peer fd) \<Longrightarrow> wp (get_data d c) Q"
  by (simp add: wf_data)

lemma side_fd_distinct:
  "well_formed c \<Longrightarrow> side_fd Client (view c) = Some fd \<Longrightarrow> side_fd Server (view c) \<noteq> Some fd"
  using wf_server_ne by auto

lemma wp_set_flags [wp_steps]:
  assumes "well_formed c"
    and "\<And>c'. well_formed c' \<Longrightarrow>
      view c' = (view c)\<lparr>v_flags := (f (fst (v_flags (view c))), snd (v_flags (view c)))\<rparr> \<Longrightarrow> Q c'"
  shows "wp (upd_shared (s_client_flags_update f) c) Q"
proof -
  from assms(1) obtain sh where s: "c_shared c = Some sh" by (rule wfE)
  let ?c = "c\<lparr>c_shared := Some (s_client_flags_update f sh)\<rparr>"
  have "well_formed ?c" and "view ?c = (view c)\<lparr>v_flags := (f (fst (v_flags (view c))), snd (v_flags (view c)))\<rparr>"
    using assms(1) s by (auto simp: well_formed_def view_def the_shared_def Let_def)
  with s assms(2) show ?thesis by (simp add: upd_shared_def)
qed

lemma wp_set_flags_server [wp_steps]:
  assumes "well_formed c"
    and "\<And>c'. well_formed c' \<Longrightarrow>
      view c' = (view c)\<lparr>v_flags := (fst (v_flags (view c)), f (snd (v_flags (view c))))\<rparr> \<Longrightarrow> Q c'"
  shows "wp (upd_shared (s_server_flags_update f) c) Q"
proof -
  from assms(1) obtain sh where s: "c_shared c = Some sh" by (rule wfE)
  let ?c = "c\<lparr>c_shared := Some (s_server_flags_update f sh)\<rparr>"
  have "well_formed ?c" and "view ?c = (view c)\<lparr>v_flags := (fst (v_flags (view c)), f (snd (v_flags (view c))))\<rparr>"
    using assms(1) s by (auto simp: well_formed_def view_def the_shared_def Let_def)
  with s assms(2) show ?thesis by (simp add: upd_shared_def)
qed

section \<open>Release\<close>

text \<open>What is left when one side has been released while the other still has its \<^verbatim>\<open>Data\<close>.\<close>

definition remains :: "side \<Rightarrow> fd \<Rightarrow> conn \<Rightarrow> bool" where
  "remains d fd c \<longleftrightarrow>
     get_data d c = Some (peer fd) \<and> get_data (other d) c = None \<and>
     (\<exists>sh. c_shared c = Some sh \<and> s_state sh = STATE_CLOSED \<and> s_info sh = None \<and>
       s_client_fd sh \<noteq> s_server_fd sh \<and> s_client_data sh = (d = Client) \<and> s_server_data sh = (d = Server) \<and>
       fd = (case d of Client \<Rightarrow> s_client_fd sh | Server \<Rightarrow> s_server_fd sh))"

text \<open>Nothing is left.\<close>

definition gone :: "conn \<Rightarrow> bool" where
  "gone c \<longleftrightarrow> c_shared c = None \<and> c_client c = None \<and> c_server c = None"

text \<open>The outcome of releasing side \<open>d\<close> of a connection with view \<open>v\<close>.\<close>

definition released :: "side \<Rightarrow> view \<Rightarrow> conn \<Rightarrow> bool" where
  "released d v c \<longleftrightarrow>
     (case side_fd (other d) v of None \<Rightarrow> gone c | Some fd \<Rightarrow> remains (other d) fd c)"

lemma remains_emit [simp]: "remains d fd (emit a c) = remains d fd c"
  by (simp add: remains_def)

lemma gone_emit [simp]: "gone (emit a c) = gone c"
  by (simp add: gone_def)

lemma released_emit [simp]: "released d v (emit a c) = released d v c"
  by (simp add: released_def split: option.split)

lemma released_simps [simp]:
  "released d (v\<lparr>v_state := st\<rparr>) c = released d v c" "released d (v\<lparr>v_trace := t\<rparr>) c = released d v c"
  "released d (v\<lparr>v_info := i\<rparr>) c = released d v c" "released d (v\<lparr>v_out := xs\<rparr>) c = released d v c"
  "released d (v\<lparr>v_in := xs\<rparr>) c = released d v c"
  by (simp_all add: released_def)

lemma wp_free_data:
  assumes wf: "well_formed c" and d: "side_fd d (view c) = Some fd" and cl: "v_state (view c) = STATE_CLOSED"
    and Q: "\<And>c'. released d (view c) c' \<Longrightarrow> c_trace c' = c_trace c \<Longrightarrow> Q c'"
  shows "wp (free_data d c) Q"
proof -
  from wf obtain sh info where s: "c_shared c = Some sh" "s_info sh = Some info"
    and c: "c_client c = Some (peer (s_client_fd sh))" "s_client_data sh"
    and ne: "s_server_fd sh \<noteq> s_client_fd sh"
    and sd: "s_server_data sh = (c_server c \<noteq> None)"
    and sv: "\<forall>dat. c_server c = Some dat \<longrightarrow> dat = peer (s_server_fd sh)"
    unfolding well_formed_def by blast
  have v: "v_state (view c) = s_state sh" "v_client (view c) = s_client_fd sh"
    "v_server (view c) = map_option d_self_fd (c_server c)"
    using s by (simp_all add: view_def the_shared_def Let_def)
  show ?thesis
  proof (cases d)
    case Client
    show ?thesis
    proof (cases "c_server c")
      case None
      with Client s c ne sd show ?thesis
        by (auto simp: free_data_def free_buffers_def intro!: Q) (auto simp: released_def v gone_def)
    next
      case (Some dat)
      with sv have "dat = peer (s_server_fd sh)" by blast
      with Some Client s c ne sd cl v show ?thesis
        by (auto simp: free_data_def free_buffers_def intro!: Q)
           (auto simp: released_def v remains_def)
    qed
  next
    case Server
    with d v obtain dat where dat: "c_server c = Some dat" by auto
    with sv have "dat = peer (s_server_fd sh)" by blast
    with dat Server s c ne sd cl v show ?thesis
      by (auto simp: free_data_def free_buffers_def intro!: Q)
         (auto simp: released_def v remains_def)
  qed
qed

lemma wp_free_last:
  assumes r: "remains d fd c" and Q: "\<And>c'. gone c' \<Longrightarrow> c_trace c' = c_trace c \<Longrightarrow> Q c'"
  shows "wp (free_data d c) Q"
  using r
  by (cases d) (auto simp: remains_def free_data_def free_buffers_def gone_def intro!: Q)

section \<open>The server side\<close>

lemma wp_link_server_socket:
  assumes wf: "well_formed c" and ne: "sfd \<noteq> v_client (view c)"
    and Q: "\<And>c'. well_formed c' \<Longrightarrow> view c' = (view c)\<lparr>v_server := Some sfd\<rparr> \<Longrightarrow> Q c'"
  shows "wp (upd_shared (\<lambda>sh. sh\<lparr>s_server_data := True, s_server_fd := sfd\<rparr>)
      (c\<lparr>c_server := Some \<lparr>d_type = TYPE_PEER, d_self_fd = sfd, d_shared = True\<rparr>\<rparr>)) Q"
proof -
  from wf obtain sh info where s: "c_shared c = Some sh" "s_info sh = Some info"
    and r: "ring_ok (s_client_out sh)" "ring_ok (s_server_out sh)"
    and cl: "c_client c = Some (peer (s_client_fd sh))" "s_client_data sh" "0 \<le> s_client_fd sh"
    unfolding well_formed_def by blast
  let ?c = "c\<lparr>c_server := Some (peer sfd),
      c_shared := Some (sh\<lparr>s_server_data := True, s_server_fd := sfd\<rparr>)\<rparr>"
  have "s_client_fd sh = v_client (view c)" using s by (simp add: view_def the_shared_def Let_def)
  with s r cl ne have "well_formed ?c" by (simp add: well_formed_def)
  moreover have "view ?c = (view c)\<lparr>v_server := Some sfd\<rparr>"
    using s by (simp add: view_def the_shared_def Let_def)
  ultimately show ?thesis using s Q by (simp add: upd_shared_def peer_def)
qed

lemma wp_set_server_fd:
  assumes wf: "well_formed c" and ne: "fd \<noteq> v_client (view c)" and sv: "v_server (view c) \<noteq> None"
    and Q: "\<And>c'. well_formed c' \<Longrightarrow> view c' = (view c)\<lparr>v_server := Some fd\<rparr> \<Longrightarrow> Q c'"
  shows "wp (upd_shared (s_server_fd_update (\<lambda>_. fd)) (c\<lparr>c_server := Some (peer fd)\<rparr>)) Q"
proof -
  from wf obtain sh info where s: "c_shared c = Some sh" "s_info sh = Some info"
    and r: "ring_ok (s_client_out sh)" "ring_ok (s_server_out sh)"
    and cl: "c_client c = Some (peer (s_client_fd sh))" "s_client_data sh" "0 \<le> s_client_fd sh"
      "s_server_data sh = (c_server c \<noteq> None)"
    unfolding well_formed_def by blast
  let ?c = "c\<lparr>c_server := Some (peer fd), c_shared := Some (sh\<lparr>s_server_fd := fd\<rparr>)\<rparr>"
  have "s_client_fd sh = v_client (view c)" and "c_server c \<noteq> None"
    using s sv by (auto simp: view_def the_shared_def Let_def)
  with s r cl ne have "well_formed ?c" by (simp add: well_formed_def)
  moreover have "view ?c = (view c)\<lparr>v_server := Some fd\<rparr>"
    using s by (simp add: view_def the_shared_def Let_def)
  ultimately show ?thesis using s Q by (simp add: upd_shared_def)
qed

lemma wp_set_server_addr:
  assumes wf: "well_formed c"
    and Q: "\<And>c'. well_formed c' \<Longrightarrow>
      view c' = (view c)\<lparr>v_access := (v_access (view c))\<lparr>al_server := Some ss\<rparr>\<rparr> \<Longrightarrow> Q c'"
  shows "wp (upd_shared (\<lambda>sh. sh\<lparr>s_access := (s_access sh)\<lparr>al_server := Some ss\<rparr>\<rparr>) c) Q"
proof -
  from wf obtain sh where s: "c_shared c = Some sh" by (rule wfE)
  let ?c = "c\<lparr>c_shared := Some (sh\<lparr>s_access := (s_access sh)\<lparr>al_server := Some ss\<rparr>\<rparr>)\<rparr>"
  have "well_formed ?c" and "view ?c = (view c)\<lparr>v_access := (v_access (view c))\<lparr>al_server := Some ss\<rparr>\<rparr>"
    using wf s by (auto simp: well_formed_def view_def the_shared_def Let_def)
  with s Q show ?thesis by (simp add: upd_shared_def)
qed

end
