(* ===== verification/Net.thy ===== *)
theory Net
  imports Epoll_Data
begin

text \<open>
  \<^verbatim>\<open>src/net.c\<close>: listeners, accepting a client, the three commands \<^verbatim>\<open>init_connect\<close>, \<^verbatim>\<open>init_bind\<close>
  and \<^verbatim>\<open>init_udpa\<close>, and the relay steps \<^verbatim>\<open>send_traffic\<close> and \<^verbatim>\<open>read_traffic\<close>. Operations whose
  C result is always \<open>0\<close> return the connection alone.
\<close>

definition SOCK_STREAM :: int where "SOCK_STREAM = 1"
definition SOCK_DGRAM :: int where "SOCK_DGRAM = 2"

definition EAGAIN :: int where "EAGAIN = 11"
definition EINPROGRESS :: int where "EINPROGRESS = 115"

section \<open>Listeners and new clients\<close>

definition v6flag :: "os \<Rightarrow> fd \<Rightarrow> conn \<Rightarrow> bool \<times> conn" where
  "v6flag e fd c =
    (let (ok, c) = sys_setsockopt e fd c in if \<not> ok then (False, c) else (True, c))"

text \<open>The loop over the configured addresses; \<open>init_listeners\<close> first refuses an empty list.\<close>

fun listeners_loop :: "os \<Rightarrow> Sockaddr_ll list \<Rightarrow> conn \<Rightarrow> int \<times> conn" where
  "listeners_loop e [] c = (0, c)"
| "listeners_loop e (current # rest) c =
    (let (s, c) = sys_socket e (sa_family (sl_sa current)) SOCK_STREAM c in
     case s of None \<Rightarrow> (1, c)
     | Some fd \<Rightarrow>
       let (v6ok, c) = (if sa_family (sl_sa current) = AF_INET6 then v6flag e fd c else (True, c)) in
       if \<not> v6ok then (-1, c)
       else let (ok, c) = sys_bind e fd (sl_sa current) c in
       if \<not> ok then (-1, c)
       else let c = log_error L_BINDLISTENER c;
                c = fd_nonblocking fd c;
                (_, c) = sys_listen e fd c;
                (ret, c) = ep_add_listener e fd c
            in if ret \<noteq> 0 then (-1, c) else listeners_loop e rest c)"

definition init_listeners :: "os \<Rightarrow> Sockaddr_ll list \<Rightarrow> conn \<Rightarrow> int \<times> conn" where
  "init_listeners e current c = (if current = [] then (-1, c) else listeners_loop e current c)"

definition listen_err :: "os \<Rightarrow> fd \<Rightarrow> conn \<Rightarrow> int \<times> conn" where
  "listen_err e fd c = (0, ep_delete_fd e fd c)"

definition no_conn :: conn where
  "no_conn = \<lparr>c_shared = None, c_client = None, c_server = None, c_trace = []\<rparr>"

definition new_info :: Info where
  "new_info = \<lparr>i_method = 0xFF, i_rep = 0xFF, i_cmd = 0xFF, i_atyp = 0xFF,
     i_resolver_ret = -1, i_ai_index = 0, i_ai = [], i_sa = None\<rparr>"

definition new_shared :: "fd \<Rightarrow> sockaddr \<Rightarrow> byte list \<Rightarrow> byte list \<Rightarrow> Shared" where
  "new_shared new_fd ss mem1 mem2 =
    \<lparr>s_state = STATE_WAITING_METHODS, s_client_fd = new_fd, s_server_fd = -1,
     s_client_out = new_ring OUTBUFFSIZE mem1, s_server_out = new_ring OUTBUFFSIZE mem2,
     s_client_data = True, s_server_data = False, s_client_flags = 0, s_server_flags = 0,
     s_access = \<lparr>al_client = Some ss, al_server = None\<rparr>,
     s_info = Some new_info, s_ptr = False\<rparr>"

text \<open>
  The allocations of \<^verbatim>\<open>accept_new_client\<close> in order. The objects are released again on every
  failure, so a failed call leaves no connection; the new descriptor is closed.
\<close>

definition accept_new_client :: "os \<Rightarrow> fd \<Rightarrow> int \<times> conn" where
  "accept_new_client e fd =
    (let c = no_conn; (acc, c) = sys_accept e fd c in
     case acc of None \<Rightarrow> (-1, c)
     | Some (new_fd, ss) \<Rightarrow>
       let c = fd_nonblocking new_fd c; (data, c) = sys_malloc e c in
       if \<not> data then (-1, log_error L_MALLOCERROR (close_fd new_fd c))
       else let (shared, c) = sys_malloc e c in
       if \<not> shared then (-1, log_error L_MALLOCERROR (close_fd new_fd c))
       else let (info, c) = sys_malloc e c in
       if \<not> info then (-1, log_error L_MALLOCERROR (close_fd new_fd c))
       else let (access, c) = sys_malloc e c; (ss_client, c) = sys_malloc e c;
                (ss_server, c) = sys_malloc e c in
       if \<not> access \<or> \<not> ss_client \<or> \<not> ss_server
       then (-1, log_error L_MALLOCERROR (close_fd new_fd c))
       else let mem1 = heap_bytes e OUTBUFFSIZE c; (buff1, c) = sys_malloc e c;
                mem2 = heap_bytes e OUTBUFFSIZE c; (buff2, c) = sys_malloc e c in
       if \<not> buff1 \<or> \<not> buff2 then (-1, log_error L_MALLOCERROR (close_fd new_fd c))
       else let (ret, c) = ep_add_new_client e new_fd Client c in
       if ret \<noteq> 0 then (-1, close_fd new_fd c)
       else let sh = new_shared new_fd ss mem1 mem2 in
         (0, emit (Sys_log_access A_ACCEPTNEWCLIENT (s_access sh))
               (c\<lparr>c_shared := Some sh,
                  c_client := Some \<lparr>d_type = TYPE_PEER, d_self_fd = new_fd, d_shared = True\<rparr>\<rparr>)))"

section \<open>The server side of a connection\<close>

text \<open>\<^verbatim>\<open>malloc\<close> of the server's \<^verbatim>\<open>Data\<close> and its links, in all three commands.\<close>

definition link_server :: "fd \<Rightarrow> conn \<Rightarrow> conn option" where
  "link_server sfd c =
    upd_shared (\<lambda>sh. sh\<lparr>s_server_data := True, s_server_fd := sfd\<rparr>)
      (c\<lparr>c_server := Some \<lparr>d_type = TYPE_PEER, d_self_fd = sfd, d_shared = True\<rparr>\<rparr>)"

text \<open>
  The writes of a success reply, in the pieces the code uses; the results are not looked at.
\<close>

definition write_rep_info :: "byte \<Rightarrow> conn \<Rightarrow> conn option" where
  "write_rep_info rep c = do {
     (_, c) \<leftarrow> write_client_out [SOCKS5_VERSION, rep, SOCKS5_RESV] c;
     Some c }"

definition write_rep_addr :: "byte \<Rightarrow> byte list \<Rightarrow> byte list \<Rightarrow> conn \<Rightarrow> conn option" where
  "write_rep_addr atyp addr port c = do {
     (_, c) \<leftarrow> write_client_out [atyp] c;
     (_, c) \<leftarrow> write_client_out addr c;
     (_, c) \<leftarrow> write_client_out port c;
     Some c }"

text \<open>\<^verbatim>\<open>ep_waiting_send\<close> on the client's descriptor, from whichever side.\<close>

definition wake_client :: "os \<Rightarrow> conn \<Rightarrow> (int \<times> conn) option" where
  "wake_client e c = do {
     sh \<leftarrow> c_shared c;
     Some (ep_waiting_send e (s_client_fd sh) Client c) }"

subsection \<open>CONNECT\<close>

text \<open>
  The three branches of \<^verbatim>\<open>init_connect\<close> open a socket and start a connection in the same way;
  \<open>None\<close> is their early return, with the reply code set.
\<close>

definition open_and_connect :: "os \<Rightarrow> int \<Rightarrow> int \<Rightarrow> sockaddr \<Rightarrow> conn \<Rightarrow> (fd option \<times> conn) option" where
  "open_and_connect e af ty sa c =
    (let (s, c) = sys_socket e af ty c in
     case s of
       None \<Rightarrow> do { c \<leftarrow> set_rep REP_GENFAIL c; Some (None, c) }
     | Some sfd \<Rightarrow>
       let c = fd_nonblocking sfd c; (err, c) = sys_connect e sfd sa c in
       if err \<noteq> 0 \<and> err \<noteq> EAGAIN \<and> err \<noteq> EINPROGRESS
       then do { c \<leftarrow> set_rep REP_GENFAIL c; Some (None, c) }
       else Some (Some sfd, c))"

definition connect_target :: "os \<Rightarrow> Info \<Rightarrow> conn \<Rightarrow> (fd option \<times> conn) option" where
  "connect_target e info c =
    (case i_sa info of
       Some (SIN a p) \<Rightarrow> open_and_connect e AF_INET SOCK_STREAM (SIN a p) c
     | Some (SIN6 a p) \<Rightarrow> open_and_connect e AF_INET6 SOCK_STREAM (SIN6 a p) c
     | Some (SA_OTHER f) \<Rightarrow> Some (Some (-1), c)
     | None \<Rightarrow>
       (case i_ai info of
          [] \<Rightarrow> Some (Some (-1), c)
        | ai # _ \<Rightarrow> do {
            (sfd, c) \<leftarrow> open_and_connect e (ai_family ai) (ai_socktype ai) (ai_addr ai) c;
            c \<leftarrow> (if sfd = None then Some c else upd_info (i_ai_index_update (\<lambda>_. 0)) c);
            Some (sfd, c) }))"

definition init_connect :: "os \<Rightarrow> conn \<Rightarrow> conn option" where
  "init_connect e c = do {
     info \<leftarrow> get_info c;
     if i_ai info = [] \<and> i_sa info = None then set_rep REP_GENFAIL c
     else do {
       (s, c) \<leftarrow> connect_target e info c;
       case s of None \<Rightarrow> Some c
       | Some sfd \<Rightarrow>
         let (data, c) = sys_malloc e c in
         if \<not> data then set_rep REP_GENFAIL (log_error L_MALLOCERROR c)
         else do {
           c \<leftarrow> link_server sfd c;
           c \<leftarrow> consume_server_out OUTBUFFSIZE c;
           let (ret, c) = ep_connecting e sfd Server c;
           (if ret = -1 then set_rep REP_GENFAIL c
            else set_state STATE_CONNECTING c) } } }"

subsection \<open>BIND\<close>

text \<open>The address family of the request.\<close>

definition info_family :: "Info \<Rightarrow> int" where
  "info_family info =
    (case i_sa info of Some sa \<Rightarrow> sa_family sa
     | None \<Rightarrow> (case i_ai info of ai # _ \<Rightarrow> ai_family ai | [] \<Rightarrow> -1))"

text \<open>\<^verbatim>\<open>sin_port\<close> and \<^verbatim>\<open>sin6_port\<close> lie at the same offset; other families have no port.\<close>

fun sa_port :: "sockaddr \<Rightarrow> byte list option" where
  "sa_port (SIN a p) = Some p"
| "sa_port (SIN6 a p) = Some p"
| "sa_port (SA_OTHER f) = None"

definition fail_close :: "byte \<Rightarrow> fd \<Rightarrow> conn \<Rightarrow> conn option" where
  "fail_close rep sfd c = do { c \<leftarrow> set_rep rep c; Some (close_fd sfd c) }"

definition bind_reply :: "os \<Rightarrow> sockaddr \<Rightarrow> sockaddr \<Rightarrow> conn \<Rightarrow> (int \<times> conn) option" where
  "bind_reply e adv ss c =
    (case adv of
       SIN addr _ \<Rightarrow> do {
         port \<leftarrow> sa_port ss;
         c \<leftarrow> write_rep_addr ATYP_IPV4 addr port c;
         wake_client e c }
     | SIN6 addr _ \<Rightarrow> do {
         port \<leftarrow> sa_port ss;
         c \<leftarrow> write_rep_addr ATYP_IPV6 addr port c;
         wake_client e c }
     | SA_OTHER _ \<Rightarrow> Some (0, c))"

text \<open>The end of \<^verbatim>\<open>init_bind\<close> and \<^verbatim>\<open>init_udpa\<close>, once the reply is queued.\<close>

definition start_reply :: "os \<Rightarrow> fd \<Rightarrow> conn \<Rightarrow> conn option" where
  "start_reply e sfd c = do {
     c \<leftarrow> consume_server_out OUTBUFFSIZE c;
     let (ret, c) = ep_add_new_client e sfd Server c;
     c \<leftarrow> (if ret = -1 then set_rep REP_GENFAIL c else Some c);
     set_state STATE_SENDING_REPLY c }"

text \<open>\<^verbatim>\<open>init_bind\<close> from the point where the socket listens and its \<^verbatim>\<open>Data\<close> is allocated.\<close>

definition bind_announce :: "os \<Rightarrow> fd \<Rightarrow> sockaddr \<Rightarrow> conn \<Rightarrow> conn option" where
  "bind_announce e sfd adv c = do {
     c \<leftarrow> link_server sfd c;
     let (name, c) = sys_getsockname e sfd c;
     case name of None \<Rightarrow> fail_close REP_GENFAIL sfd c
     | Some ss \<Rightarrow> do {
         c \<leftarrow> set_rep REP_SUCCESS c;
         c \<leftarrow> write_rep_info REP_SUCCESS c;
         (ret, c) \<leftarrow> bind_reply e adv ss c;
         if ret = -1 then set_rep REP_GENFAIL c
         else start_reply e sfd c } }"

definition init_bind :: "os \<Rightarrow> Configs \<Rightarrow> conn \<Rightarrow> conn option" where
  "init_bind e configs c = do {
     info \<leftarrow> get_info c;
     if i_sa info = None \<and> i_ai info = [] then set_rep REP_GENFAIL c
     else
       let af = info_family info; (s, c) = sys_socket e af SOCK_STREAM c in
       case s of None \<Rightarrow> set_rep REP_GENFAIL c
       | Some sfd \<Rightarrow>
         let c = fd_nonblocking sfd c in
         (case find_family af (bind_listen configs) of
            None \<Rightarrow> fail_close REP_BADATYP sfd c
          | Some listen_addr \<Rightarrow>
            (case find_family af (bind_advertise configs) of
               None \<Rightarrow> fail_close REP_BADATYP sfd c
             | Some advertise_addr \<Rightarrow>
               let (ok, c) = sys_bind e sfd (sl_sa listen_addr) c in
               if \<not> ok then fail_close REP_GENFAIL sfd c
               else let (ok, c) = sys_listen e sfd c in
               if \<not> ok then fail_close REP_GENFAIL sfd c
               else let (data, c) = sys_malloc e c in
               if \<not> data then fail_close REP_GENFAIL sfd (log_error L_MALLOCERROR c)
               else bind_announce e sfd (sl_sa advertise_addr) c)) }"

subsection \<open>UDP ASSOCIATE\<close>

text \<open>
  \<^verbatim>\<open>init_udpa\<close> reads the advertised address from the list node itself, not from the address
  the node points to: \<open>os_node_mem\<close> is the memory of a \<^verbatim>\<open>Sockaddr_ll\<close> node (24 bytes: the
  pointer to the next node, the address length, the pointer to the address).
\<close>

definition udpa_reply :: "os \<Rightarrow> int \<Rightarrow> byte list \<Rightarrow> conn \<Rightarrow> (int \<times> conn) option" where
  "udpa_reply e af node c =
    (if af = AF_INET then do {
       addr \<leftarrow> mem_read node 4 4; port \<leftarrow> mem_read node 2 2;
       c \<leftarrow> write_rep_addr ATYP_IPV4 addr port c;
       wake_client e c }
     else if af = AF_INET6 then do {
       addr \<leftarrow> mem_read node 8 16; port \<leftarrow> mem_read node 2 2;
       c \<leftarrow> write_rep_addr ATYP_IPV6 addr port c;
       wake_client e c }
     else Some (0, c))"

definition udpa_announce :: "os \<Rightarrow> fd \<Rightarrow> int \<Rightarrow> byte list \<Rightarrow> conn \<Rightarrow> conn option" where
  "udpa_announce e sfd af node c = do {
     c \<leftarrow> link_server sfd c;
     c \<leftarrow> set_rep REP_SUCCESS c;
     c \<leftarrow> write_rep_info REP_SUCCESS c;
     (ret, c) \<leftarrow> udpa_reply e af node c;
     if ret = -1 then set_rep REP_GENFAIL c
     else start_reply e sfd c }"

definition init_udpa :: "os \<Rightarrow> Configs \<Rightarrow> conn \<Rightarrow> conn option" where
  "init_udpa e configs c = do {
     info \<leftarrow> get_info c;
     if i_sa info = None \<and> i_ai info = [] then set_rep REP_GENFAIL c
     else
       let af = info_family info; (s, c) = sys_socket e af SOCK_DGRAM c in
       case s of None \<Rightarrow> set_rep REP_GENFAIL c
       | Some sfd \<Rightarrow>
         (case find_family af (udpa_listen configs) of
            None \<Rightarrow> fail_close REP_BADATYP sfd c
          | Some listen_addr \<Rightarrow>
            (case find_family af (udpa_advertise configs) of
               None \<Rightarrow> fail_close REP_BADATYP sfd c
             | Some advertise_addr \<Rightarrow>
               let (ok, c) = sys_bind e sfd (sl_sa listen_addr) c in
               if \<not> ok then fail_close REP_GENFAIL sfd c
               else let (data, c) = sys_malloc e c in
               if \<not> data then fail_close REP_GENFAIL sfd (log_error L_MALLOCERROR c)
               else udpa_announce e sfd af (os_node_mem e advertise_addr) c)) }"

section \<open>The relay\<close>

definition send_traffic :: "os \<Rightarrow> fd \<Rightarrow> conn \<Rightarrow> (int \<times> conn) option" where
  "send_traffic e fd c = do {
     sh \<leftarrow> c_shared c;
     if fd = s_client_fd sh then do {
       buffer \<leftarrow> peek_client_out (rb_used (s_client_out sh)) c;
       let (ret, c) = sys_send e fd buffer c;
       case ret of
         None \<Rightarrow> do {
           c \<leftarrow> upd_shared (s_client_flags_update (\<lambda>f. f OR FLAG_WRITE_CLOSED)) c;
           Some (-1, emit (Sys_shutdown fd True) c) }
       | Some n \<Rightarrow> do {
           c \<leftarrow> consume_client_out n c;
           sh \<leftarrow> c_shared c;
           Some (int (rb_used (s_client_out sh)), c) } }
     else if fd = s_server_fd sh then do {
       buffer \<leftarrow> peek_server_out (rb_used (s_server_out sh)) c;
       let (ret, c) = sys_send e fd buffer c;
       case ret of
         None \<Rightarrow> do {
           c \<leftarrow> upd_shared (s_server_flags_update (\<lambda>f. f OR FLAG_WRITE_CLOSED)) c;
           Some (-1, emit (Sys_shutdown fd True) c) }
       | Some n \<Rightarrow> do {
           c \<leftarrow> consume_server_out n c;
           sh \<leftarrow> c_shared c;
           Some (int (rb_used (s_server_out sh)), c) } }
     else Some (-1, c) }"

definition RELAY_CHUNK :: nat where
  "RELAY_CHUNK = 1024"

definition read_traffic :: "os \<Rightarrow> fd \<Rightarrow> conn \<Rightarrow> (int \<times> conn) option" where
  "read_traffic e fd c = do {
     sh \<leftarrow> c_shared c;
     if fd = s_client_fd sh then
       let (ret, c) = sys_recv e fd RELAY_CHUNK c in
       (case ret of
          Some (b # bs) \<Rightarrow> do {
            (_, c) \<leftarrow> write_server_out (b # bs) c;
            Some (int (length (b # bs)), c) }
        | _ \<Rightarrow> do {
            c \<leftarrow> upd_shared (s_client_flags_update (\<lambda>f. f OR FLAG_READ_CLOSED)) c;
            c \<leftarrow> upd_shared (s_server_flags_update (\<lambda>f. f OR FLAG_FLUSHING)) c;
            Some (-1, emit (Sys_shutdown fd False) c) })
     else if fd = s_server_fd sh then
       let (ret, c) = sys_recv e fd RELAY_CHUNK c in
       (case ret of
          Some (b # bs) \<Rightarrow> do {
            (_, c) \<leftarrow> write_client_out (b # bs) c;
            Some (int (length (b # bs)), c) }
        | _ \<Rightarrow> do {
            c \<leftarrow> upd_shared (s_server_flags_update (\<lambda>f. f OR FLAG_READ_CLOSED)) c;
            c \<leftarrow> upd_shared (s_client_flags_update (\<lambda>f. f OR FLAG_FLUSHING)) c;
            Some (-1, emit (Sys_shutdown fd False) c) })
     else Some (-1, c) }"

end
