(* ===== verification/Streams.thy ===== *)
theory Streams
  imports Prelude
begin

text \<open>
  Streams of messages in a pipe: the interface the readers of the two pipes of the program have
  in common. It is interpreted on the loop of the logger thread (theory \<open>Logger\<close>) and on that of
  the resolver thread (theory \<open>Resolver\<close>).
\<close>

text \<open>
  The interface of a stream of messages without separators: a message at the front of the stream
  is read as its record, whatever follows it.
\<close>

locale record_stream =
  fixes loop :: "byte list \<Rightarrow> ('r list \<times> bool) option"
    and msg :: "'m \<Rightarrow> byte list" and ok :: "'m \<Rightarrow> bool" and rec :: "'m \<Rightarrow> 'r"
  assumes loop_empty: "loop [] = Some ([], False)"
    and loop_msg: "ok m \<Longrightarrow> loop (msg m @ rest) = map_option (apfst (Cons (rec m))) (loop rest)"
begin

lemma loop_msgs:
  "\<forall>m \<in> set ms. ok m \<Longrightarrow> loop (concat (map msg ms) @ rest) = map_option (apfst ((@) (map rec ms))) (loop rest)"
  by (induction ms) (simp_all add: loop_msg option.map_comp comp_def apfst_def map_prod_def option.map_ident case_prod_unfold)

lemma loop_all: "\<forall>m \<in> set ms. ok m \<Longrightarrow> loop (concat (map msg ms)) = Some (map rec ms, False)"
  using loop_msgs [of ms "[]"] by (simp add: loop_empty)

end

end
