(* ===== verification/Resolver.thy ===== *)
theory Resolver
  imports Epoll_Data Streams
begin

text \<open>
  \<^verbatim>\<open>src/resolver.c\<close>: the request the event loop writes to the resolver thread, the thread's
  reading of it, its answer, and what the event loop does with the answer up to its call of
  \<^verbatim>\<open>socks5\<close>. \<^verbatim>\<open>getaddrinfo\<close> is the argument \<open>gai\<close>.
\<close>

section \<open>The request\<close>

text \<open>
  \<open>input\<close> is the part of the SOCKS request from the length byte of the name on. The length
  is read as a signed \<^verbatim>\<open>char\<close>. The copy of the \<open>name_len + 3\<close> bytes goes to offset
  \<open>1 + sizeof(shared)\<close> of a buffer of \<open>sizeof(shared) + name_len + 3\<close> bytes.
\<close>

definition resolve_msg :: "byte list \<Rightarrow> byte list \<Rightarrow> byte list option" where
  "resolve_msg shared_ptr input = do {
     first \<leftarrow> mem_get input 0;
     let name_len = sint first;
     (if int (length shared_ptr) + name_len + 3 \<le> 0 \<or> name_len + 3 < 0 then None
      else do {
        let msg = replicate (nat (int (length shared_ptr) + name_len + 3)) (0 :: byte);
        msg \<leftarrow> memcpy_to msg 0 shared_ptr;
        part \<leftarrow> mem_read input 0 (nat (name_len + 3));
        memcpy_to msg (1 + length shared_ptr) part }) }"

definition resolve :: "os \<Rightarrow> byte list \<Rightarrow> conn \<Rightarrow> conn option" where
  "resolve e input c = do {
     c \<leftarrow> set_state STATE_ASYNC_DNS c;
     msg \<leftarrow> resolve_msg (os_shared_ptr e) input;
     Some (emit (Sys_pipe_write msg) c) }"

text \<open>The copy never fits: every request to resolve a name leaves the buffer by one byte.\<close>

lemma memcpy_past_end:
  "memcpy_to (replicate (length ptr + k) x) 0 ptr = Some msg \<Longrightarrow> length part = k \<Longrightarrow>
   memcpy_to msg (Suc (length ptr)) part = None"
  by (auto simp: memcpy_to_def split: if_splits)

lemma resolve_msg_overflows: "resolve_msg ptr input = None"
proof (cases "mem_get input 0")
  case None
  then show ?thesis by (simp add: resolve_msg_def)
next
  case (Some first)
  show ?thesis
  proof (cases "sint first + 3 < 0 \<or> int (length ptr) + sint first + 3 \<le> 0")
    case True
    with Some show ?thesis by (auto simp: resolve_msg_def)
  next
    case False
    define k where "k = nat (sint first + 3)"
    have n: "nat (int (length ptr) + sint first + 3) = length ptr + k"
      using False by (simp add: k_def) linarith
    show ?thesis
    proof (rule ccontr)
      assume "resolve_msg ptr input \<noteq> None"
      with Some False n k_def obtain msg part where
        "memcpy_to (replicate (length ptr + k) 0) 0 ptr = Some msg" "mem_read input 0 k = Some part"
        "memcpy_to msg (Suc (length ptr)) part \<noteq> None"
        by (auto simp: resolve_msg_def Let_def Option.bind_eq_Some_conv split: if_splits)
      then show False
        using memcpy_past_end [of ptr k 0 msg part] by (auto simp: mem_read_def split: if_splits)
    qed
  qed
qed

section \<open>The resolver thread\<close>

text \<open>
  What one pass of the loop of \<^verbatim>\<open>resolver_th\<close> makes of the pipe: it ends at a read that is
  short, exits at a null pointer, or has the arguments of \<^verbatim>\<open>getaddrinfo\<close>, after the bytes of
  the \<^verbatim>\<open>Shared\<close> pointer the answer is for.
\<close>

datatype resolver_pass =
  Res_short
| Res_exit
| Res_query "byte list" "byte list" "char list"

definition PTR_SIZE :: nat where "PTR_SIZE = 8"

text \<open>
  A read that is short takes what there is. The terminator is written one past the byte after
  the name, which for a name of 255 bytes is outside \<^verbatim>\<open>name[256]\<close>. The port is printed in host order.
\<close>

definition read_port :: "byte list \<Rightarrow> byte list \<Rightarrow> byte list \<Rightarrow> resolver_pass \<times> byte list" where
  "read_port ptr name bs =
    (case bs of
       hi # lo # rest \<Rightarrow> (Res_query ptr (takeWhile (\<lambda>b. b \<noteq> 0) name) (decimal (256 * unat hi + unat lo)), rest)
     | _ \<Rightarrow> (Res_short, []))"

definition read_name :: "byte list \<Rightarrow> nat \<Rightarrow> byte list \<Rightarrow> (resolver_pass \<times> byte list) option" where
  "read_name ptr name_len bs =
    (let r_len = min name_len (length bs) in
     if r_len \<noteq> name_len then Some (Res_short, [])
     else do {
       let name = zero_filled 256 (take r_len bs);
       name \<leftarrow> mem_set name (r_len + 1) 0;
       Some (read_port ptr name (drop r_len bs)) })"

definition resolver_read :: "byte list \<Rightarrow> (resolver_pass \<times> byte list) option" where
  "resolver_read bs =
    (if length bs < PTR_SIZE then Some (Res_short, [])
     else
       let ptr = take PTR_SIZE bs; bs = drop PTR_SIZE bs in
       if \<forall>b \<in> set ptr. b = 0 then Some (Res_exit, bs)
       else case bs of [] \<Rightarrow> Some (Res_short, []) | len # bs \<Rightarrow> read_name ptr (unat len) bs)"

lemma read_name_shorter:
  assumes "read_name ptr n bs = Some (r, rest)"
  shows "length rest \<le> length bs"
proof -
  have port: "length (snd (read_port ptr name bs')) \<le> length bs'" for name bs'
    by (auto simp: read_port_def split: list.split)
  from assms consider "rest = []" | name where "rest = snd (read_port ptr name (drop n bs))"
    by (auto simp: read_name_def Let_def Option.bind_eq_Some_conv split: if_splits) (metis snd_conv)
  then show ?thesis
    by cases (use port [of _ "drop n bs"] in \<open>auto intro: order_trans [OF port]\<close>)
qed

lemma resolver_read_shorter:
  assumes "resolver_read bs = Some (r, rest)" and "bs \<noteq> []"
  shows "length rest < length bs"
proof (cases "drop PTR_SIZE bs")
  case Nil
  with assms show ?thesis by (auto simp: resolver_read_def Let_def PTR_SIZE_def split: if_splits)
next
  case (Cons len name)
  then have "length bs - PTR_SIZE = Suc (length name)" by (metis length_drop length_Cons)
  then have "length name < length bs" and "length bs - PTR_SIZE < length bs"
    by (simp_all add: PTR_SIZE_def)
  then show ?thesis
    using assms Cons by (auto simp: resolver_read_def Let_def dest: read_name_shorter split: if_splits)
qed

text \<open>
  The loop on what is in the pipe: the queries it makes, in order, and whether it was told to
  exit; on an empty pipe it waits in \<^verbatim>\<open>poll\<close>.
\<close>

function resolver_loop :: "byte list \<Rightarrow> (resolver_pass list \<times> bool) option" where
  "resolver_loop bs =
    (if bs = [] then Some ([], False)
     else case resolver_read bs of
       None \<Rightarrow> None
     | Some (r, rest) \<Rightarrow>
         if r = Res_exit then Some ([], True)
         else do {
           (rs, exited) \<leftarrow> resolver_loop rest;
           Some (if r = Res_short then rs else r # rs, exited) })"
  by pat_completeness auto
termination
  by (relation "measure length") (auto dest: resolver_read_shorter)

declare resolver_loop.simps [simp del]

text \<open>A message as the thread expects it: the pointer, the length of the name, the name, the port.\<close>

fun query_msg :: "byte list \<times> byte list \<times> byte \<times> byte \<Rightarrow> byte list" where
  "query_msg (ptr, name, hi, lo) = ptr @ [of_nat (length name)] @ name @ [hi, lo]"

fun query_ok :: "byte list \<times> byte list \<times> byte \<times> byte \<Rightarrow> bool" where
  "query_ok (ptr, name, hi, lo) \<longleftrightarrow>
    length ptr = PTR_SIZE \<and> (\<exists>b \<in> set ptr. b \<noteq> 0) \<and> length name \<le> 254 \<and> 0 \<notin> set name"

fun query_of :: "byte list \<times> byte list \<times> byte \<times> byte \<Rightarrow> resolver_pass" where
  "query_of (ptr, name, hi, lo) = Res_query ptr name (decimal (256 * unat hi + unat lo))"

lemma terminated_name:
  assumes "length name \<le> 254" and "0 \<notin> set name"
  shows "\<exists>cs. mem_set (zero_filled 256 name) (length name + 1) 0 = Some cs \<and> takeWhile (\<lambda>b. b \<noteq> 0) cs = name"
proof -
  have split: "replicate (256 - length name) (0 :: byte) = 0 # replicate (255 - length name) 0"
    using assms(1) by (cases "256 - length name") auto
  have "takeWhile (\<lambda>b. b \<noteq> 0) ((zero_filled 256 name)[length name + 1 := 0]) = name"
    using assms(2) by (simp add: zero_filled_def split list_update_append takeWhile_append1 takeWhile_append)
  then show ?thesis using assms(1) by (simp add: mem_set_def zero_filled_def)
qed

lemma resolver_read_query:
  assumes "query_ok q"
  shows "resolver_read (query_msg q @ rest) = Some (query_of q, rest)"
proof -
  obtain ptr name hi lo where q: "q = (ptr, name, hi, lo)" by (cases q)
  with assms have ok: "length ptr = PTR_SIZE" "\<exists>b \<in> set ptr. b \<noteq> 0" "length name \<le> 254" "0 \<notin> set name"
    by simp_all
  have len: "unat (of_nat (length name) :: byte) = length name"
    using ok(3) by (simp add: unat_of_nat take_bit_nat_eq_self)
  obtain cs where cs: "mem_set (zero_filled 256 name) (length name + 1) 0 = Some cs"
      "takeWhile (\<lambda>b. b \<noteq> 0) cs = name"
    using terminated_name [OF ok(3,4)] by blast
  with ok(3) len have "read_name ptr (length name) (name @ hi # lo # rest) =
      Some (Res_query ptr name (decimal (256 * unat hi + unat lo)), rest)"
    by (simp add: read_name_def read_port_def)
  with ok(1,2) len show ?thesis by (auto simp: q resolver_read_def Let_def)
qed

interpretation queries: record_stream resolver_loop query_msg query_ok query_of
proof
  show "resolver_loop [] = Some ([], False)" by (simp add: resolver_loop.simps)
next
  fix q rest
  assume ok: "query_ok q"
  have "query_msg q @ rest \<noteq> []" "query_of q \<noteq> Res_exit" "query_of q \<noteq> Res_short" by (cases q, simp)+
  then show "resolver_loop (query_msg q @ rest) = map_option (apfst (Cons (query_of q))) (resolver_loop rest)"
    using resolver_read_query [OF ok, of rest]
    by (cases "resolver_loop rest") (auto simp: resolver_loop.simps [of "query_msg q @ rest"])
qed

text \<open>The answer: \<^verbatim>\<open>ai\<close> is stored in the request's \<^verbatim>\<open>Info\<close>, the result code goes to the loop.\<close>

definition resolver_answer ::
  "(byte list \<Rightarrow> char list \<Rightarrow> int \<times> addrinfo list) \<Rightarrow> byte list \<Rightarrow> char list \<Rightarrow> conn \<Rightarrow>
   (int \<times> conn) option" where
  "resolver_answer gai name port c = do {
     let (gai_ret, res) = gai name port;
     c \<leftarrow> upd_info (i_ai_update (\<lambda>_. res)) c;
     Some (gai_ret, c) }"

section \<open>The answer in the event loop\<close>

text \<open>\<^verbatim>\<open>resolve_ret\<close> up to its call of \<^verbatim>\<open>socks5\<close> for the client's side with \<^verbatim>\<open>EPOLLIN\<close>.\<close>

definition resolve_ret :: "int \<Rightarrow> conn \<Rightarrow> conn option" where
  "resolve_ret gai_ret c = do {
     c \<leftarrow> upd_info (i_resolver_ret_update (\<lambda>_. gai_ret)) c;
     c \<leftarrow> set_state STATE_WAITING_COMMAND c;
     sh \<leftarrow> c_shared c;
     (if s_client_data sh then Some c else None) }"

section \<open>Properties\<close>

text \<open>
  C39: the protocol of the resolver thread. From any sequence of messages with a pointer, a
  name of up to 254 bytes and a port the thread makes exactly their lookups, in order, and it
  exits at a null pointer behind them; a name of 255 bytes, which a request may have, makes it
  write outside its buffer.
\<close>

theorem resolver_queries:
  assumes "\<forall>q \<in> set qs. query_ok q" and "length ptr = PTR_SIZE" and "\<exists>b \<in> set ptr. b \<noteq> 0" and "length name = 255"
  shows "resolver_loop (concat (map query_msg qs)) = Some (map query_of qs, False) \<and>
    resolver_loop (concat (map query_msg qs) @ replicate PTR_SIZE 0 @ rest) = Some (map query_of qs, True) \<and>
    resolver_loop (concat (map query_msg qs) @ query_msg (ptr, name, hi, lo) @ rest) = None"
proof (intro conjI)
  show "resolver_loop (concat (map query_msg qs)) = Some (map query_of qs, False)"
    by (rule queries.loop_all [OF assms(1)])
  have "resolver_loop (replicate PTR_SIZE 0 @ rest) = Some ([], True)"
    by (simp add: resolver_loop.simps [of "replicate PTR_SIZE 0 @ rest"] resolver_read_def Let_def) (simp add: PTR_SIZE_def)
  then show "resolver_loop (concat (map query_msg qs) @ replicate PTR_SIZE 0 @ rest) = Some (map query_of qs, True)"
    using queries.loop_msgs [OF assms(1)] by simp
  have "resolver_read (query_msg (ptr, name, hi, lo) @ rest) = None"
    using assms(2-4) by (auto simp: resolver_read_def Let_def read_name_def mem_set_def zero_filled_def)
  then have "resolver_loop (query_msg (ptr, name, hi, lo) @ rest) = None"
    by (simp add: resolver_loop.simps [of "query_msg (ptr, name, hi, lo) @ rest"] del: query_msg.simps) simp
  then show "resolver_loop (concat (map query_msg qs) @ query_msg (ptr, name, hi, lo) @ rest) = None"
    using queries.loop_msgs [OF assms(1)] by (simp del: query_msg.simps)
qed

lemma resolver_queries_witness:
  "resolver_loop (concat (map query_msg [(replicate 8 1, [0x61, 0x2E, 0x62], 0, 80)])) =
     Some ([Res_query (replicate 8 1) [0x61, 0x2E, 0x62] ''80''], False) \<and>
   resolver_loop (concat (map query_msg []) @ query_msg (replicate 8 1, replicate 255 0x61, 0, 80) @ []) = None"
proof
  have "decimal 80 = ''80''" by code_simp
  then show "resolver_loop (concat (map query_msg [(replicate 8 1, [0x61, 0x2E, 0x62], 0, 80)])) =
     Some ([Res_query (replicate 8 1) [0x61, 0x2E, 0x62] ''80''], False)"
    using resolver_queries [of "[(replicate 8 1, [0x61, 0x2E, 0x62], 0, 80)]" "replicate 8 1" "replicate 255 0"]
    by (simp add: PTR_SIZE_def)
  show "resolver_loop (concat (map query_msg []) @ query_msg (replicate 8 1, replicate 255 0x61, 0, 80) @ []) = None"
    using resolver_queries [of "[]" "replicate 8 1" "replicate 255 0x61"] by (simp add: PTR_SIZE_def)
qed

end
