(* ===== verification/Firewall.thy ===== *)
theory Firewall
  imports Types
begin

text \<open>
  The address filter of \<^verbatim>\<open>src/firewall.c\<close>: the netmask of a prefix length, masking, the
  walks over the list of blocked networks, and the decision on a request. The abstract
  specification is \<open>in_network\<close>: two addresses agree on their first \<open>p\<close> bits.
\<close>

section \<open>Netmasks\<close>

text \<open>The loop that fills the sixteen bytes of an IPv6 netmask.\<close>

function iton6_loop :: "nat \<Rightarrow> int \<Rightarrow> byte list \<Rightarrow> byte list" where
  "iton6_loop i bits_left netmask =
    (if i < 16 then
       let netmask = netmask[i := 0xFF] in
       if bits_left > 8 then iton6_loop (i + 1) (bits_left - 8) netmask
       else netmask[i := push_bit (nat (8 - bits_left)) (netmask ! i)]
     else netmask)"
  by pat_completeness auto
termination
  by (relation "measure (\<lambda>(i, _, _). 16 - i)") auto

declare iton6_loop.simps [simp del]

text \<open>
  \<open>firewall_iton dst af msk\<close> returns the C result and the netmask at \<open>dst\<close>. With
  \<open>msk = 0\<close> the IPv4 branch shifts a 32-bit value by 32, which is undefined.
\<close>

definition firewall_iton :: "Netmask \<Rightarrow> int \<Rightarrow> int \<Rightarrow> (int \<times> Netmask) option" where
  "firewall_iton dst af msk =
    (if msk < 0 then Some (-1, dst)
     else if af = AF_INET then
       (if msk > 32 then Some (-1, dst)
        else if 32 - msk \<ge> 32 then None
        else
          let netmask = (0xFFFFFFFF :: 32 word);
              netmask = push_bit (nat (32 - msk)) netmask
          in Some (0, dst\<lparr>nm_inet := netmask\<rparr>))
     else if af = AF_INET6 then
       (if msk > 128 then Some (-1, dst)
        else Some (0, dst\<lparr>nm_inet6 := iton6_loop 0 msk (replicate 16 0)\<rparr>))
     else Some (-1, dst))"

definition mask_sin :: "byte list \<Rightarrow> 32 word \<Rightarrow> byte list" where
  "mask_sin dst netmask = htonl (ntohl dst AND netmask)"

definition mask_sin6 :: "byte list \<Rightarrow> byte list \<Rightarrow> byte list" where
  "mask_sin6 dst netmask = map2 (AND) dst netmask"

section \<open>The walks over the blocked networks\<close>

fun check_sin :: "byte list \<Rightarrow> Blockaddr_ll list \<Rightarrow> bool" where
  "check_sin addr [] = False"
| "check_sin addr (current # rest) =
    (case b_sa current of
       SIN net _ \<Rightarrow>
         (if mask_sin addr (nm_inet (b_netmask current)) = net then True else check_sin addr rest)
     | _ \<Rightarrow> check_sin addr rest)"

fun check_sin6 :: "byte list \<Rightarrow> Blockaddr_ll list \<Rightarrow> bool" where
  "check_sin6 addr [] = False"
| "check_sin6 addr (current # rest) =
    (case b_sa current of
       SIN6 net _ \<Rightarrow>
         (if mask_sin6 addr (nm_inet6 (b_netmask current)) = net then True else check_sin6 addr rest)
     | _ \<Rightarrow> check_sin6 addr rest)"

fun check_ai :: "addrinfo list \<Rightarrow> Blockaddr_ll list \<Rightarrow> bool" where
  "check_ai [] blocks = False"
| "check_ai (current # rest) blocks =
    (case ai_addr current of
       SIN addr _ \<Rightarrow> (if check_sin addr blocks then True else check_ai rest blocks)
     | SIN6 addr _ \<Rightarrow> (if check_sin6 addr blocks then True else check_ai rest blocks)
     | SA_OTHER _ \<Rightarrow> check_ai rest blocks)"

section \<open>The decision\<close>

definition udpa_unspec :: "Info \<Rightarrow> bool" where
  "udpa_unspec info =
    (if i_cmd info \<noteq> CMD_UDPA then False
     else case i_sa info of
       None \<Rightarrow> False
     | Some (SIN addr _) \<Rightarrow> addr = replicate 4 0
     | Some (SIN6 addr _) \<Rightarrow> addr = replicate 16 0
     | Some (SA_OTHER _) \<Rightarrow> False)"

definition firewall :: "Info \<Rightarrow> Configs \<Rightarrow> bool" where
  "firewall info configs =
    (if udpa_unspec info then False
     else case i_sa info of
       Some (SIN addr _) \<Rightarrow> check_sin addr (block_head configs)
     | Some (SIN6 addr _) \<Rightarrow> check_sin6 addr (block_head configs)
     | Some (SA_OTHER _) \<Rightarrow> True
     | None \<Rightarrow> (if i_ai info \<noteq> [] then check_ai (i_ai info) (block_head configs) else True))"

section \<open>Specification\<close>

definition in_network :: "nat \<Rightarrow> byte list \<Rightarrow> byte list \<Rightarrow> bool" where
  "in_network p net addr \<longleftrightarrow> (\<forall>k < p. msb_bit net k = msb_bit addr k)"

lemma in_network_refl [simp]: "in_network p a a"
  by (simp add: in_network_def)

lemma in_network_sym: "in_network p a b \<Longrightarrow> in_network p b a"
  by (simp add: in_network_def)

lemma in_network_trans: "in_network p a b \<Longrightarrow> in_network p b c \<Longrightarrow> in_network p a c"
  by (simp add: in_network_def)

lemma in_network_mono: "q \<le> p \<Longrightarrow> in_network p a b \<Longrightarrow> in_network q a b"
  by (simp add: in_network_def)

subsection \<open>IPv4\<close>

definition netmask4 :: "nat \<Rightarrow> 32 word" where
  "netmask4 p = push_bit (32 - p) 0xFFFFFFFF"

lemma firewall_iton_inet:
  assumes "0 < p" and "p \<le> 32"
  shows "firewall_iton nm AF_INET (int p) = Some (0, nm\<lparr>nm_inet := netmask4 p\<rparr>)"
proof -
  have "nat (32 - int p) = 32 - p" using assms by linarith
  with assms show ?thesis
    by (simp add: firewall_iton_def netmask4_def)
qed

lemma bit_netmask_inet:
  assumes "p \<le> 32" and "k < 32"
  shows "bit (netmask4 p) (31 - k) \<longleftrightarrow> k < p"
proof -
  have "(0xFFFFFFFF :: 32 word) = -1" by simp
  with assms show ?thesis unfolding netmask4_def by (simp only: bit_simps) auto
qed

lemma bit_ntohl_msb:
  assumes "length a = 4" and "k < 32"
  shows "bit (ntohl a) (31 - k) = msb_bit a k"
proof -
  define q r where "q = k div 8" and "r = 7 - k mod 8"
  have q: "q < 4" using assms(2) by (simp add: q_def div_less_iff_less_mult)
  have r: "r < 8" by (simp add: r_def)
  have "k = 8 * q + (7 - r)" by (simp add: q_def r_def)
  with q r have "31 - k = 8 * (3 - q) + r" by linarith
  with r have "(31 - k) div 8 = 3 - q" and "(31 - k) mod 8 = r" by simp_all
  with q have "3 - (31 - k) div 8 = k div 8" and "(31 - k) mod 8 = 7 - k mod 8"
    by (simp_all add: q_def r_def)
  with assms show ?thesis by (simp add: bit_ntohl msb_bit_def)
qed

lemma mask_sin_eq_iff:
  assumes "length a = 4" and "length b = 4" and p: "p \<le> 32"
  shows "mask_sin a (netmask4 p) = mask_sin b (netmask4 p) \<longleftrightarrow>
    in_network p a b"
proof -
  let ?m = "netmask4 p"
  have "mask_sin a ?m = mask_sin b ?m \<longleftrightarrow> ntohl a AND ?m = ntohl b AND ?m"
    unfolding mask_sin_def using htonl_inj by metis
  also have "\<dots> \<longleftrightarrow> (\<forall>j < 32. bit (ntohl a AND ?m) j = bit (ntohl b AND ?m) j)"
    by (auto intro: bit_word_eqI)
  also have "\<dots> \<longleftrightarrow> (\<forall>k < 32. bit (ntohl a AND ?m) (31 - k) = bit (ntohl b AND ?m) (31 - k))"
    (is "?L \<longleftrightarrow> ?R")
  proof
    assume R: ?R
    show ?L
    proof (intro allI impI)
      fix j :: nat assume "j < 32"
      then have "31 - j < 32" and "31 - (31 - j) = j" by simp_all
      with R show "bit (ntohl a AND ?m) j = bit (ntohl b AND ?m) j" by metis
    qed
  qed simp
  also have "\<dots> \<longleftrightarrow> (\<forall>k < 32. k < p \<longrightarrow> msb_bit a k = msb_bit b k)"
    using assms by (auto simp: bit_and_iff bit_netmask_inet bit_ntohl_msb)
  also have "\<dots> \<longleftrightarrow> in_network p a b"
    using p by (auto simp: in_network_def)
  finally show ?thesis .
qed

lemma mask_sin_idem: "mask_sin (mask_sin a m) m = mask_sin a m"
  by (simp add: mask_sin_def and.assoc)

lemma length_mask_sin [simp]: "length (mask_sin a m) = 4"
  by (simp add: mask_sin_def)

subsection \<open>IPv6\<close>

lemma length_iton6_loop [simp]: "length (iton6_loop i bl nm) = length nm"
  by (induction i bl nm rule: iton6_loop.induct) (subst iton6_loop.simps, simp add: Let_def)

lemma bit_push_FF:
  assumes "n < 8" and "s \<le> 8"
  shows "bit (push_bit s (0xFF :: byte)) n \<longleftrightarrow> s \<le> n"
proof -
  have "(0xFF :: byte) = -1" by simp
  with assms show ?thesis by (simp only: bit_simps) auto
qed

lemma iton6_loop_below: "k < i \<Longrightarrow> iton6_loop i bl nm ! k = nm ! k"
  by (induction i bl nm rule: iton6_loop.induct) (subst iton6_loop.simps, simp add: Let_def)

text \<open>Bit \<open>n\<close> of byte \<open>k\<close> of the mask is set iff it is among the first \<open>bl\<close> bits from byte \<open>i\<close>.\<close>

lemma iton6_loop_bit:
  assumes "length nm = 16" and "i \<le> k" and "k < 16" and "n < 8" and "0 \<le> bl"
    and "\<forall>j. i \<le> j \<and> j < 16 \<longrightarrow> nm ! j = 0"
  shows "bit (iton6_loop i bl nm ! k) n \<longleftrightarrow> int (8 * (k - i) + (7 - n)) < bl"
  using assms
proof (induction i bl nm rule: iton6_loop.induct)
  case (1 i bl nm)
  have i: "i < 16" using "1.prems" by simp
  show ?case
  proof (cases "bl > 8")
    case True
    have step: "iton6_loop i bl nm = iton6_loop (i + 1) (bl - 8) (nm[i := 0xFF])"
      using i True by (subst iton6_loop.simps) (simp add: Let_def)
    show ?thesis
    proof (cases "k = i")
      case True
      with \<open>bl > 8\<close> step "1.prems" show ?thesis
        using bit_push_FF [of n 0] by (simp add: iton6_loop_below)
    next
      case False
      with "1.prems" have "i + 1 \<le> k" by simp
      with "1.IH" [of "nm[i := 0xFF]"] i True "1.prems"
      have "bit (iton6_loop (i + 1) (bl - 8) (nm[i := 0xFF]) ! k) n \<longleftrightarrow>
          int (8 * (k - (i + 1)) + (7 - n)) < bl - 8"
        by simp
      with step \<open>i + 1 \<le> k\<close> show ?thesis by auto
    qed
  next
    case False
    have step: "iton6_loop i bl nm = nm[i := push_bit (nat (8 - bl)) 0xFF]"
      using i False "1.prems" by (subst iton6_loop.simps) (simp add: Let_def)
    show ?thesis
    proof (cases "k = i")
      case True
      with step "1.prems" i False show ?thesis
        using bit_push_FF [of n "nat (8 - bl)"] by auto
    next
      case no: False
      with step "1.prems" have "iton6_loop i bl nm ! k = 0" by simp
      with no False "1.prems" show ?thesis by auto
    qed
  qed
qed

definition netmask6 :: "nat \<Rightarrow> byte list" where
  "netmask6 p = iton6_loop 0 (int p) (replicate 16 0)"

lemma length_netmask6 [simp]: "length (netmask6 p) = 16"
  by (simp add: netmask6_def)

lemma firewall_iton_inet6:
  "p \<le> 128 \<Longrightarrow> firewall_iton nm AF_INET6 (int p) = Some (0, nm\<lparr>nm_inet6 := netmask6 p\<rparr>)"
  by (simp add: firewall_iton_def AF_INET_def AF_INET6_def netmask6_def)

lemma msb_bit_netmask6: "k < 128 \<Longrightarrow> msb_bit (netmask6 p) k \<longleftrightarrow> k < p"
proof -
  assume k: "k < 128"
  have "8 * (k div 8) + (7 - (7 - k mod 8)) = k" by presburger
  moreover have "k div 8 < 16" using k by (simp add: div_less_iff_less_mult)
  ultimately show ?thesis
    by (simp add: msb_bit_def netmask6_def iton6_loop_bit)
qed

lemma bytes_eq_iff_msb:
  assumes "length a = 16" and "length b = 16"
  shows "a = b \<longleftrightarrow> (\<forall>k < 128. msb_bit a k = msb_bit b k)"
proof
  assume R: "\<forall>k < 128. msb_bit a k = msb_bit b k"
  show "a = b"
  proof (rule nth_equalityI)
    fix i assume "i < length a"
    then have i: "i < 16" using assms by simp
    show "a ! i = b ! i"
    proof (rule bit_word_eqI)
      fix n assume "n < LENGTH(8)"
      then have n: "n < 8" by simp
      obtain m where m: "n = 7 - m" "m < 8" using n by (intro that [of "7 - n"]) simp_all
      let ?k = "8 * i + m"
      have "?k < 128" and "?k div 8 = i" and "7 - ?k mod 8 = n" using i m by simp_all
      with R show "bit (a ! i) n = bit (b ! i) n" unfolding msb_bit_def by metis
    qed
  qed (simp add: assms)
qed simp

lemma msb_bit_mask_sin6:
  assumes "length a = 16" and "length m = 16" and "k < 128"
  shows "msb_bit (mask_sin6 a m) k \<longleftrightarrow> msb_bit a k \<and> msb_bit m k"
proof -
  have "k div 8 < 16" using assms(3) by (simp add: div_less_iff_less_mult)
  with assms show ?thesis by (simp add: msb_bit_def mask_sin6_def bit_and_iff)
qed

lemma length_mask_sin6 [simp]:
  "length a = 16 \<Longrightarrow> length m = 16 \<Longrightarrow> length (mask_sin6 a m) = 16"
  by (simp add: mask_sin6_def)

lemma mask_sin6_eq_iff:
  assumes "length a = 16" and "length b = 16" and "p \<le> 128"
  shows "mask_sin6 a (netmask6 p) = mask_sin6 b (netmask6 p) \<longleftrightarrow> in_network p a b"
proof -
  have "mask_sin6 a (netmask6 p) = mask_sin6 b (netmask6 p) \<longleftrightarrow>
      (\<forall>k < 128. (msb_bit a k \<and> k < p) = (msb_bit b k \<and> k < p))"
    using assms by (subst bytes_eq_iff_msb) (simp_all add: msb_bit_mask_sin6 msb_bit_netmask6)
  also have "\<dots> \<longleftrightarrow> in_network p a b"
    using assms(3) unfolding in_network_def by (metis order_less_le_trans)
  finally show ?thesis .
qed

lemma mask_sin6_idem:
  "mask_sin6 (mask_sin6 a m) m = mask_sin6 a m"
  by (rule nth_equalityI) (auto simp: mask_sin6_def and.assoc)

section \<open>What the walks compute\<close>

lemma check_sin_iff:
  "check_sin addr blocks \<longleftrightarrow>
    (\<exists>b \<in> set blocks. \<exists>net port. b_sa b = SIN net port \<and> mask_sin addr (nm_inet (b_netmask b)) = net)"
  by (induction blocks) (auto split: sockaddr.split)

lemma check_sin6_iff:
  "check_sin6 addr blocks \<longleftrightarrow>
    (\<exists>b \<in> set blocks. \<exists>net port. b_sa b = SIN6 net port \<and> mask_sin6 addr (nm_inet6 (b_netmask b)) = net)"
  by (induction blocks) (auto split: sockaddr.split)

lemma check_ai_iff:
  "check_ai ais blocks \<longleftrightarrow>
    (\<exists>ai \<in> set ais. (\<exists>a p. ai_addr ai = SIN a p \<and> check_sin a blocks) \<or>
                     (\<exists>a p. ai_addr ai = SIN6 a p \<and> check_sin6 a blocks))"
  by (induction ais) (auto split: sockaddr.split)

text \<open>The entry \<^verbatim>\<open>link_blocks\<close> makes for a network: the mask, and the address under it.\<close>

definition block4 :: "nat \<Rightarrow> byte list \<Rightarrow> Blockaddr_ll" where
  "block4 p net = \<lparr>b_netmask = netmask_zero\<lparr>nm_inet := netmask4 p\<rparr>, b_sa = SIN (mask_sin net (netmask4 p)) [0, 0]\<rparr>"

definition block6 :: "nat \<Rightarrow> byte list \<Rightarrow> Blockaddr_ll" where
  "block6 p net = \<lparr>b_netmask = netmask_zero\<lparr>nm_inet6 := netmask6 p\<rparr>, b_sa = SIN6 (mask_sin6 net (netmask6 p)) [0, 0]\<rparr>"

lemma block4_check:
  assumes "0 < p" and "p \<le> 32" and "length net = 4" and "length addr = 4"
  shows "check_sin addr (block4 p net # blocks) \<longleftrightarrow> in_network p net addr \<or> check_sin addr blocks"
proof -
  have "mask_sin addr (netmask4 p) = mask_sin net (netmask4 p) \<longleftrightarrow> in_network p net addr"
    using mask_sin_eq_iff [OF assms(4,3,2)] by (auto simp: in_network_def)
  then show ?thesis by (simp add: block4_def)
qed

lemma block6_check:
  assumes "p \<le> 128" and "length net = 16" and "length addr = 16"
  shows "check_sin6 addr (block6 p net # blocks) \<longleftrightarrow> in_network p net addr \<or> check_sin6 addr blocks"
proof -
  have "mask_sin6 addr (netmask6 p) = mask_sin6 net (netmask6 p) \<longleftrightarrow> in_network p net addr"
    using mask_sin6_eq_iff [OF assms(3,2,1)] by (auto simp: in_network_def)
  then show ?thesis by (simp add: block6_def)
qed

text \<open>The mask of an entry is the one \<^verbatim>\<open>firewall_iton\<close> makes.\<close>

lemma block_masks:
  "0 < p \<Longrightarrow> p \<le> 32 \<Longrightarrow> firewall_iton netmask_zero AF_INET (int p) = Some (0, b_netmask (block4 p net))"
  "p \<le> 128 \<Longrightarrow> firewall_iton netmask_zero AF_INET6 (int p) = Some (0, b_netmask (block6 p net))"
  by (simp_all add: firewall_iton_inet firewall_iton_inet6 block4_def block6_def)

section \<open>Lists of networks\<close>

text \<open>
  The interface of a block list for one family: addresses of \<open>len\<close> bytes, prefix lengths from
  \<open>least\<close> on. Its laws are those of the walk over the list.
\<close>

locale prefix_filter =
  fixes len :: nat and least :: nat
    and entry :: "nat \<Rightarrow> byte list \<Rightarrow> Blockaddr_ll"
    and check :: "byte list \<Rightarrow> Blockaddr_ll list \<Rightarrow> bool"
  assumes check_empty: "\<not> check a []"
    and check_entry: "least \<le> p \<Longrightarrow> p \<le> 8 * len \<Longrightarrow> length net = len \<Longrightarrow> length a = len \<Longrightarrow>
      check a (entry p net # bs) \<longleftrightarrow> in_network p net a \<or> check a bs"
begin

definition network_ok :: "nat \<times> byte list \<Rightarrow> bool" where
  "network_ok n \<longleftrightarrow> least \<le> fst n \<and> fst n \<le> 8 * len \<and> length (snd n) = len"

definition entries :: "(nat \<times> byte list) list \<Rightarrow> Blockaddr_ll list" where
  "entries ns = map (\<lambda>n. entry (fst n) (snd n)) ns"

lemma check_entries:
  "\<forall>n \<in> set ns. network_ok n \<Longrightarrow> length a = len \<Longrightarrow>
    check a (entries ns) \<longleftrightarrow> (\<exists>n \<in> set ns. in_network (fst n) (snd n) a)"
  by (induction ns) (simp_all add: entries_def network_ok_def check_empty check_entry)

lemma check_order:
  "\<forall>n \<in> set ns. network_ok n \<Longrightarrow> length a = len \<Longrightarrow> set ms = set ns \<Longrightarrow>
    check a (entries ms) = check a (entries ns)"
  by (simp add: check_entries)

lemma check_wider:
  assumes "network_ok (p, net)" and "length a = len" and "least \<le> q" and "q \<le> p" and "check a (entry p net # bs)"
  shows "check a (entry q net # bs)"
  using assms in_network_mono [OF assms(4), of net a] by (auto simp: network_ok_def check_entry)

end

interpretation v4: prefix_filter 4 1 block4 check_sin
  by unfold_locales (auto simp: block4_check simp del: check_sin.simps(2))

interpretation v6: prefix_filter 16 0 block6 check_sin6
  by unfold_locales (auto simp: block6_check simp del: check_sin6.simps(2))

section \<open>Properties\<close>

text \<open>
  C27: a block list is a set of networks. For every prefix length from 1 to 32 and from 0 to 128
  \<^verbatim>\<open>firewall_iton\<close> succeeds with the mask of the entry, and the walk over the entries of a list of
  networks finds an address exactly when it agrees with the address of one of the networks on
  the bits of its prefix, in both families; so the order and the repetition of entries do not matter.
\<close>

theorem block_list_exact:
  assumes "\<forall>n \<in> set ns. 0 < fst n \<and> fst n \<le> 32 \<and> length (snd n) = 4" and "length a = 4"
    and "\<forall>m \<in> set ms. fst m \<le> 128 \<and> length (snd m) = 16" and "length b = 16"
  shows "(\<forall>n \<in> set ns. firewall_iton netmask_zero AF_INET (int (fst n)) = Some (0, b_netmask (block4 (fst n) (snd n)))) \<and>
    (check_sin a (map (\<lambda>n. block4 (fst n) (snd n)) ns) \<longleftrightarrow> (\<exists>n \<in> set ns. in_network (fst n) (snd n) a)) \<and>
    (\<forall>m \<in> set ms. firewall_iton netmask_zero AF_INET6 (int (fst m)) = Some (0, b_netmask (block6 (fst m) (snd m)))) \<and>
    (check_sin6 b (map (\<lambda>m. block6 (fst m) (snd m)) ms) \<longleftrightarrow> (\<exists>m \<in> set ms. in_network (fst m) (snd m) b))"
proof -
  have ns: "\<forall>n \<in> set ns. v4.network_ok n" and ms: "\<forall>m \<in> set ms. v6.network_ok m"
    unfolding v4.network_ok_def v6.network_ok_def using assms by (auto simp: Suc_le_eq)
  show ?thesis
    using v4.check_entries [OF ns assms(2)] v6.check_entries [OF ms assms(4)] block_masks assms(1,3)
    by (simp only: v4.entries_def v6.entries_def) blast
qed

lemma block_list_exact_witness:
  "(firewall_iton netmask_zero AF_INET (int 8) = Some (0, b_netmask (block4 8 [10, 0, 0, 0]))) \<and>
    (check_sin [10, 1, 2, 3] (map (\<lambda>n. block4 (fst n) (snd n)) [(16, [192, 168, 0, 0]), (8, [10, 0, 0, 0])]) \<longleftrightarrow>
      (\<exists>n \<in> set [(16, [192, 168, 0, 0]), (8, [10, 0, 0, 0])]. in_network (fst n) (snd n) [10, 1, 2, 3])) \<and>
    (check_sin6 (replicate 16 1) (map (\<lambda>m. block6 (fst m) (snd m)) [(64, replicate 16 2)]) \<longleftrightarrow>
      (\<exists>m \<in> set [(64, replicate 16 2)]. in_network (fst m) (snd m) (replicate 16 1)))"
  using block_list_exact [of "[(16, [192, 168, 0, 0]), (8, [10, 0, 0, 0])]" "[10, 1, 2, 3]" "[(64, replicate 16 2)]"
      "replicate 16 1"]
  by (simp del: check_sin.simps check_sin6.simps)

text \<open>The addresses a request stands for and the entries that match one of them.\<close>

definition request_addrs :: "Info \<Rightarrow> sockaddr list" where
  "request_addrs info = (case i_sa info of Some sa \<Rightarrow> [sa] | None \<Rightarrow> map ai_addr (i_ai info))"

fun matches :: "Blockaddr_ll \<Rightarrow> sockaddr \<Rightarrow> bool" where
  "matches b (SIN a p) = (\<exists>port. b_sa b = SIN (mask_sin a (nm_inet (b_netmask b))) port)"
| "matches b (SIN6 a p) = (\<exists>port. b_sa b = SIN6 (mask_sin6 a (nm_inet6 (b_netmask b))) port)"
| "matches b (SA_OTHER f) = False"

text \<open>
  C26: the decision of the filter. A request is refused exactly when it has no address, when its
  address is of an unknown family, or when an entry of the block list matches one of its
  addresses; the association of an unspecified UDP address is always let through.
\<close>

theorem firewall_decision:
  "firewall info configs \<longleftrightarrow> \<not> udpa_unspec info \<and>
    (request_addrs info = [] \<or> (\<exists>f. i_sa info = Some (SA_OTHER f)) \<or>
     (\<exists>b \<in> set (block_head configs). \<exists>sa \<in> set (request_addrs info). matches b sa))"
proof (cases "i_sa info")
  case None
  have "check_ai ais (block_head configs) \<longleftrightarrow> (\<exists>b \<in> set (block_head configs). \<exists>ai \<in> set ais. matches b (ai_addr ai))" for ais
    by (induction ais) (auto split: sockaddr.split simp: check_sin_iff check_sin6_iff)
  with None show ?thesis by (auto simp: firewall_def request_addrs_def)
next
  case (Some sa)
  then show ?thesis
    by (cases sa) (auto simp: firewall_def request_addrs_def check_sin_iff check_sin6_iff)
qed

end
