(* ===== verification/Socks.thy ===== *)
theory Socks
  imports Net Resolver Firewall
begin

text \<open>
  \<^verbatim>\<open>src/socks.c\<close>: one handler per state of a connection, and the dispatcher \<open>socks5\<close>. The
  argument \<open>d\<close> is the side whose \<^verbatim>\<open>Data\<close> epoll returned, \<open>ev\<close> the events. A handler whose C
  result is always \<open>0\<close> returns the connection alone.
\<close>

section \<open>Errors\<close>

definition vercheck :: "byte \<Rightarrow> bool" where
  "vercheck ver = (if ver \<noteq> SOCKS5_VERSION then True else False)"

definition handshake_err :: "os \<Rightarrow> side \<Rightarrow> conn \<Rightarrow> conn option" where
  "handshake_err e d c = do {
     dat \<leftarrow> get_data d c;
     c \<leftarrow> log_access A_CLOSEHANDSHAKE c;
     c \<leftarrow> set_state STATE_CLOSED c;
     let c = ep_delete_fd e (d_self_fd dat) c;
     let c = close_fd (d_self_fd dat) c;
     free_data d c }"

definition err_reply :: "byte \<Rightarrow> byte list" where
  "err_reply rep = [SOCKS5_VERSION, rep, SOCKS5_RESV, ATYP_IPV4, 0, 0, 0, 0, 0, 0]"

definition reply_with_err :: "os \<Rightarrow> side \<Rightarrow> conn \<Rightarrow> conn option" where
  "reply_with_err e d c = do {
     _ \<leftarrow> get_data d c;
     info \<leftarrow> get_info c;
     c \<leftarrow> (if i_rep info < 0x01 \<or> i_rep info > 0x08 then set_rep REP_GENFAIL c else Some c);
     info \<leftarrow> get_info c;
     (n, c) \<leftarrow> write_client_out (err_reply (i_rep info)) c;
     if n \<noteq> 10 then handshake_err e d c
     else do {
       (ret, c) \<leftarrow> wake_client e c;
       if ret = -1 then handshake_err e d c
       else set_state STATE_SENDING_REPLY c } }"

text \<open>\<^verbatim>\<open>info->rep = rep; reply_with_err(...)\<close>, the idiom of every error path.\<close>

definition reply_rep :: "os \<Rightarrow> side \<Rightarrow> byte \<Rightarrow> conn \<Rightarrow> conn option" where
  "reply_rep e d rep c = do { c \<leftarrow> set_rep rep c; reply_with_err e d c }"

section \<open>Commands\<close>

definition init_command :: "os \<Rightarrow> side \<Rightarrow> Configs \<Rightarrow> conn \<Rightarrow> conn option" where
  "init_command e d configs c = do {
     _ \<leftarrow> get_data d c;
     info \<leftarrow> get_info c;
     if i_cmd info = CMD_CONN then do {
       c \<leftarrow> log_access A_COMMCONN c;
       if \<not> allow_connect configs then reply_rep e d REP_BADCOMM c
       else init_connect e c }
     else if i_cmd info = CMD_BIND then do {
       c \<leftarrow> log_access A_COMMBIND c;
       if \<not> allow_bind configs then reply_rep e d REP_BADCOMM c
       else init_bind e configs c }
     else if i_cmd info = CMD_UDPA then do {
       c \<leftarrow> log_access A_COMMUDPA c;
       if \<not> allow_udpassoc configs then reply_rep e d REP_BADCOMM c
       else init_udpa e configs c }
     else reply_rep e d REP_BADCOMM c }"

section \<open>Method negotiation\<close>

text \<open>
  The loop over the offered methods: the first one the configuration allows, else \<open>0xFF\<close>.
  \<^verbatim>\<open>configs->methods\<close> has 255 entries; a look at entry 255 is outside it.
\<close>

fun select_method :: "byte list \<Rightarrow> byte list \<Rightarrow> byte option" where
  "select_method allowed [] = Some 0xFF"
| "select_method allowed (m # ms) = do {
     b \<leftarrow> mem_get allowed (unat m);
     if b = 1 then Some m else select_method allowed ms }"

text \<open>\<^verbatim>\<open>waitingmethods\<close> from the point where the whole message is in the buffer.\<close>

definition negotiate :: "os \<Rightarrow> side \<Rightarrow> Configs \<Rightarrow> byte \<Rightarrow> byte \<Rightarrow> conn \<Rightarrow> conn option" where
  "negotiate e d configs version nmethods c = do {
     c \<leftarrow> consume_server_out 2 c;
     if vercheck version then do {
       c \<leftarrow> log_access A_VERSIONFAIL c;
       handshake_err e d c }
     else do {
       peeked \<leftarrow> peek_server_out (unat nmethods) c;
       selected \<leftarrow> select_method (cf_methods configs) (take (unat nmethods) (zero_filled 255 peeked));
       c \<leftarrow> consume_server_out (length peeked) c;
       (_, c) \<leftarrow> write_client_out [SOCKS5_VERSION, selected] c;
       c \<leftarrow> set_state STATE_SENDING_METHOD c;
       c \<leftarrow> upd_info (i_method_update (\<lambda>_. selected)) c;
       dat \<leftarrow> get_data d c;
       let (ret, c) = ep_waiting_send e (d_self_fd dat) d c;
       (if ret = -1 then handshake_err e d c else Some c) } }"

text \<open>
  The receive step \<^verbatim>\<open>waitingmethods\<close> and \<^verbatim>\<open>waitingcommand\<close> share: up to the free space is
  read into the buffer. \<open>True\<close> goes on, \<open>False\<close> is the early return after an error.
\<close>

definition recv_handshake :: "os \<Rightarrow> side \<Rightarrow> conn \<Rightarrow> (bool \<times> conn) option" where
  "recv_handshake e d c = do {
     dat \<leftarrow> get_data d c;
     sh \<leftarrow> c_shared c;
     let freebuff = size_sub (rb_capacity (s_server_out sh)) (rb_used (s_server_out sh));
     let (ret, c) = sys_recv e (d_self_fd dat) freebuff c;
     case ret of
       Some (b # bs) \<Rightarrow> do {
         (n, c) \<leftarrow> write_server_out (b # bs) c;
         if n \<noteq> length (b # bs) then do { c \<leftarrow> handshake_err e d c; Some (False, c) }
         else Some (True, c) }
     | _ \<Rightarrow> do { c \<leftarrow> handshake_err e d c; Some (False, c) } }"

text \<open>\<^verbatim>\<open>!(ev & flag) || data->self_fd != fd\<close>, the guard of the handlers.\<close>

definition not_for :: "32 word \<Rightarrow> 32 word \<Rightarrow> Data \<Rightarrow> fd \<Rightarrow> bool" where
  "not_for ev flag dat fd \<longleftrightarrow> ev AND flag = 0 \<or> d_self_fd dat \<noteq> fd"

text \<open>\<^verbatim>\<open>waitingmethods\<close> on the bytes in the buffer.\<close>

definition read_methods :: "os \<Rightarrow> side \<Rightarrow> Configs \<Rightarrow> conn \<Rightarrow> conn option" where
  "read_methods e d configs c = do {
     sh \<leftarrow> c_shared c;
     if rb_used (s_server_out sh) < 2 then Some c
     else do {
       peeked \<leftarrow> peek_server_out 2 c;
       let first_two = zero_filled 2 peeked;
       let version = first_two ! 0;
       let nmethods = first_two ! 1;
       (if rb_used (s_server_out sh) < 2 + unat nmethods then Some c
        else negotiate e d configs version nmethods c) } }"

definition waitingmethods :: "os \<Rightarrow> side \<Rightarrow> Configs \<Rightarrow> 32 word \<Rightarrow> conn \<Rightarrow> conn option" where
  "waitingmethods e d configs ev c = do {
     dat \<leftarrow> get_data d c;
     sh \<leftarrow> c_shared c;
     if not_for ev EPOLLIN dat (s_client_fd sh) then Some c
     else do {
       (go, c) \<leftarrow> recv_handshake e d c;
       if \<not> go then Some c else read_methods e d configs c } }"

text \<open>
  The sending step \<^verbatim>\<open>sendingmethod\<close> and \<^verbatim>\<open>sendingreply\<close> share: at most \<open>n\<close> bytes of the
  client's buffer are offered to the socket. \<open>True\<close> when all of them went and the
  descriptor is back to input; \<open>False\<close> is the early return.
\<close>

definition send_handshake :: "os \<Rightarrow> side \<Rightarrow> nat \<Rightarrow> conn \<Rightarrow> (bool \<times> conn) option" where
  "send_handshake e d n c = do {
     dat \<leftarrow> get_data d c;
     reply \<leftarrow> peek_client_out n c;
     let peek = length reply;
     let (ret, c) = sys_send e (d_self_fd dat) reply c;
     case ret of
       None \<Rightarrow> do { c \<leftarrow> handshake_err e d c; Some (False, c) }
     | Some sent \<Rightarrow>
       if sent < peek then do { c \<leftarrow> consume_client_out sent c; Some (False, c) }
       else do {
         c \<leftarrow> consume_client_out peek c;
         let (ret, c) = ep_done_sending e (d_self_fd dat) d c;
         (if ret = -1 then do { c \<leftarrow> handshake_err e d c; Some (False, c) }
          else Some (True, c)) } }"

text \<open>\<^verbatim>\<open>sendingmethod\<close> once the reply is out.\<close>

definition method_sent :: "os \<Rightarrow> side \<Rightarrow> conn \<Rightarrow> conn option" where
  "method_sent e d c = do {
     info \<leftarrow> get_info c;
     if i_method info = METH_NOAUTH then do {
       c \<leftarrow> log_access A_METHNOAUTH c;
       set_state STATE_WAITING_COMMAND c }
     else if i_method info = METH_USERPW then do {
       c \<leftarrow> log_access A_METHUSERPASS c; handshake_err e d c }
     else if i_method info = METH_GSSAPI then do {
       c \<leftarrow> log_access A_METHGSSAPI c; handshake_err e d c }
     else if i_method info = METH_NOMETH then do {
       c \<leftarrow> log_access A_METHNOMETH c; handshake_err e d c }
     else handshake_err e d c }"

definition sendingmethod :: "os \<Rightarrow> side \<Rightarrow> 32 word \<Rightarrow> conn \<Rightarrow> conn option" where
  "sendingmethod e d ev c = do {
     dat \<leftarrow> get_data d c;
     sh \<leftarrow> c_shared c;
     if not_for ev EPOLLOUT dat (s_client_fd sh) then Some c
     else do {
       (go, c) \<leftarrow> send_handshake e d 2 c;
       if \<not> go then Some c else method_sent e d c } }"

section \<open>The request\<close>

definition set_sa :: "sockaddr \<Rightarrow> conn \<Rightarrow> conn option" where
  "set_sa sa = upd_info (i_sa_update (\<lambda>_. Some sa))"

text \<open>
  The length \<^verbatim>\<open>waitingcommand\<close> computes from the first five bytes; \<open>None\<close> is the reply with
  \<^verbatim>\<open>REP_BADATYP\<close>.
\<close>

definition request_len :: "Configs \<Rightarrow> byte list \<Rightarrow> nat option" where
  "request_len configs req =
    (let total_len = 6; addrtype = req ! 3 in
     if addrtype = ATYP_IPV4 then Some (total_len + 4)
     else if addrtype = ATYP_DOMN then
       (if \<not> allow_domains configs then None else Some (total_len + unat (req ! 4)))
     else if addrtype = ATYP_IPV6 then Some (total_len + 16)
     else None)"

text \<open>The filter, the command and the reply on a failed command.\<close>

definition run_command :: "os \<Rightarrow> side \<Rightarrow> Configs \<Rightarrow> conn \<Rightarrow> (int \<times> conn) option" where
  "run_command e d configs c = do {
     info \<leftarrow> get_info c;
     if firewall info configs then do {
       c \<leftarrow> log_access A_FIREWALLDROP c;
       c \<leftarrow> reply_rep e d REP_RULESET c;
       Some (0, c) }
     else do {
       c \<leftarrow> init_command e d configs c;
       info \<leftarrow> get_info c;
       if i_rep info \<noteq> 0xFF \<and> i_rep info \<noteq> REP_SUCCESS then do {
         c \<leftarrow> reply_with_err e d c;
         Some (0, c) }
       else Some (0, c) } }"

text \<open>
  \<^verbatim>\<open>waitingcommand\<close> once the request is complete; \<open>req\<close> is the zero-filled buffer of 300
  bytes. A failed \<^verbatim>\<open>malloc\<close> is the only result other than \<open>0\<close>.
\<close>

definition handle_request :: "os \<Rightarrow> side \<Rightarrow> Configs \<Rightarrow> byte list \<Rightarrow> conn \<Rightarrow> (int \<times> conn) option" where
  "handle_request e d configs req c = do {
     let command = req ! 1;
     let addrtype = req ! 3;
     c \<leftarrow> upd_info (\<lambda>info. info\<lparr>i_cmd := command, i_atyp := addrtype\<rparr>) c;
     (if vercheck (req ! 0) then do {
        c \<leftarrow> log_access A_VERSIONFAIL c;
        c \<leftarrow> handshake_err e d c;
        Some (0, c) }
      else if addrtype = ATYP_IPV4 then
        (let (sa, c) = sys_malloc e c in
         if \<not> sa then Some (-1, log_error L_MALLOCERROR c)
         else do {
           c \<leftarrow> set_sa (SIN (take 4 (drop 4 req)) (take 2 (drop 8 req))) c;
           run_command e d configs c })
      else if addrtype = ATYP_DOMN then do {
        c \<leftarrow> set_state STATE_ASYNC_DNS c;
        c \<leftarrow> resolve e (drop 4 req) c;
        Some (0, c) }
      else if addrtype = ATYP_IPV6 then
        (let (sa, c) = sys_malloc e c in
         if \<not> sa then Some (-1, log_error L_MALLOCERROR c)
         else do {
           c \<leftarrow> set_sa (SIN6 (take 16 (drop 4 req)) (take 2 (drop 20 req))) c;
           run_command e d configs c })
      else run_command e d configs c) }"

text \<open>The branch of \<^verbatim>\<open>waitingcommand\<close> taken once the resolver has answered.\<close>

definition resolver_returned :: "os \<Rightarrow> side \<Rightarrow> Configs \<Rightarrow> conn \<Rightarrow> conn option" where
  "resolver_returned e d configs c = do {
     info \<leftarrow> get_info c;
     c \<leftarrow> (if i_resolver_ret info \<noteq> 0 then reply_rep e d REP_GENFAIL c else Some c);
     c \<leftarrow> init_command e d configs c;
     info \<leftarrow> get_info c;
     if i_rep info \<noteq> 0xFF \<and> i_rep info \<noteq> REP_SUCCESS then reply_with_err e d c
     else Some c }"

text \<open>\<^verbatim>\<open>waitingcommand\<close> on the bytes in the buffer.\<close>

definition read_request :: "os \<Rightarrow> side \<Rightarrow> Configs \<Rightarrow> conn \<Rightarrow> (int \<times> conn) option" where
  "read_request e d configs c = do {
     peeked \<leftarrow> peek_server_out 300 c;
     let req = zero_filled 300 peeked;
     let peek = length peeked;
     (if peek < 5 then Some (0, c)
      else case request_len configs req of
        None \<Rightarrow> do { c \<leftarrow> reply_rep e d REP_BADATYP c; Some (0, c) }
      | Some total_len \<Rightarrow>
        if peek < total_len then Some (0, c)
        else handle_request e d configs req c) }"

definition waitingcommand :: "os \<Rightarrow> side \<Rightarrow> Configs \<Rightarrow> 32 word \<Rightarrow> conn \<Rightarrow> (int \<times> conn) option" where
  "waitingcommand e d configs ev c = do {
     dat \<leftarrow> get_data d c;
     sh \<leftarrow> c_shared c;
     if not_for ev EPOLLIN dat (s_client_fd sh) then Some (0, c)
     else do {
       info \<leftarrow> get_info c;
       if i_resolver_ret info \<noteq> -1 then do {
         c \<leftarrow> resolver_returned e d configs c;
         Some (0, c) }
       else do {
         (go, c) \<leftarrow> recv_handshake e d c;
         if \<not> go then Some (0, c) else read_request e d configs c } } }"

section \<open>Replies\<close>

text \<open>\<^verbatim>\<open>sendingreply\<close> once the reply is out.\<close>

definition reply_sent :: "os \<Rightarrow> side \<Rightarrow> conn \<Rightarrow> conn option" where
  "reply_sent e d c = do {
     info \<leftarrow> get_info c;
     sh \<leftarrow> c_shared c;
     if i_rep info \<noteq> REP_SUCCESS then handshake_err e d c
     else if i_cmd info = CMD_CONN then do {
       c \<leftarrow> log_access A_CONNECTED c;
       set_state STATE_FULL c }
     else if i_cmd info = CMD_BIND then
       (if s_state sh = STATE_SENDING_REPLY then do {
          c \<leftarrow> set_rep 0xFF c;
          set_state STATE_BIND_LISTENING c }
        else if s_state sh = STATE_SENDING_REPLY_2 then do {
          c \<leftarrow> log_access A_BINDCONNECTED c;
          set_state STATE_FULL c }
        else Some c)
     else if i_cmd info = CMD_UDPA then set_state STATE_FULL_UDPA c
     else Some c }"

definition sendingreply :: "os \<Rightarrow> side \<Rightarrow> 32 word \<Rightarrow> conn \<Rightarrow> conn option" where
  "sendingreply e d ev c = do {
     dat \<leftarrow> get_data d c;
     sh \<leftarrow> c_shared c;
     if not_for ev EPOLLOUT dat (s_client_fd sh) then Some c
     else do {
       (go, c) \<leftarrow> send_handshake e d 300 c;
       if \<not> go then Some c else reply_sent e d c } }"

section \<open>Outbound connections\<close>

definition ENETUNREACH :: int where "ENETUNREACH = 101"
definition ETIMEDOUT :: int where "ETIMEDOUT = 110"
definition ECONNREFUSED :: int where "ECONNREFUSED = 111"
definition EHOSTUNREACH :: int where "EHOSTUNREACH = 113"

definition errno_rep :: "int \<Rightarrow> byte" where
  "errno_rep error =
    (if error AND ENETUNREACH \<noteq> 0 then REP_NUNRECH
     else if error AND EHOSTUNREACH \<noteq> 0 then REP_HUNRECH
     else if error AND ETIMEDOUT \<noteq> 0 then REP_TTLEXPR
     else if error AND ECONNREFUSED \<noteq> 0 then REP_REFUSED
     else REP_GENFAIL)"

definition set_server_addr :: "sockaddr \<Rightarrow> conn \<Rightarrow> conn option" where
  "set_server_addr ss =
     upd_shared (\<lambda>sh. sh\<lparr>s_access := (s_access sh)\<lparr>al_server := Some ss\<rparr>\<rparr>)"

text \<open>The rest of \<^verbatim>\<open>connecting\<close> after a failure: the next address of a list, or an error.\<close>

definition connect_failed :: "os \<Rightarrow> side \<Rightarrow> int \<Rightarrow> conn \<Rightarrow> conn option" where
  "connect_failed e d error c = do {
     dat \<leftarrow> get_data d c;
     info \<leftarrow> get_info c;
     if length (i_ai info) > 1 then do {
       let index = i_ai_index info + 1;
       c \<leftarrow> upd_info (i_ai_index_update (\<lambda>_. index)) c;
       (if index < length (i_ai info)
        then Some (snd (sys_connect e (d_self_fd dat) (ai_addr (i_ai info ! index)) c))
        else reply_rep e d (errno_rep error) c) }
     else reply_rep e d (errno_rep error) c }"

text \<open>The address part of the success reply, the same in both families.\<close>

definition connected_reply :: "os \<Rightarrow> side \<Rightarrow> byte \<Rightarrow> byte list \<Rightarrow> byte list \<Rightarrow> conn \<Rightarrow> conn option" where
  "connected_reply e d atyp addr port c = do {
     dat \<leftarrow> get_data d c;
     c \<leftarrow> write_rep_addr atyp addr port c;
     (ret, c) \<leftarrow> wake_client e c;
     if ret = -1 then reply_rep e d REP_GENFAIL c
     else do {
       let (ret, c) = ep_done_sending e (d_self_fd dat) d c;
       (if ret = -1 then reply_rep e d REP_GENFAIL c else Some c) } }"

text \<open>\<^verbatim>\<open>connecting\<close> once the socket reports no error.\<close>

definition connect_done :: "os \<Rightarrow> side \<Rightarrow> fd \<Rightarrow> conn \<Rightarrow> conn option" where
  "connect_done e d fd c = do {
     c \<leftarrow> set_rep REP_SUCCESS c;
     let (name, c) = sys_getsockname e fd c;
     case name of
       None \<Rightarrow> reply_rep e d REP_GENFAIL (log_error L_GETSOCKNAMEFAIL c)
     | Some ss \<Rightarrow> do {
         c \<leftarrow> set_server_addr ss c;
         c \<leftarrow> write_rep_info REP_SUCCESS c;
         c \<leftarrow> set_state STATE_SENDING_REPLY c;
         case ss of
           SIN addr port \<Rightarrow> connected_reply e d ATYP_IPV4 addr port c
         | SIN6 addr port \<Rightarrow> connected_reply e d ATYP_IPV6 addr port c
         | SA_OTHER _ \<Rightarrow> connect_failed e d 0 c } }"

definition connecting :: "os \<Rightarrow> side \<Rightarrow> 32 word \<Rightarrow> conn \<Rightarrow> conn option" where
  "connecting e d ev c = do {
     dat \<leftarrow> get_data d c;
     sh \<leftarrow> c_shared c;
     if not_for ev EPOLLOUT dat (s_server_fd sh) then Some c
     else
       let (opt, c) = sys_getsockopt e (d_self_fd dat) c in
       case opt of
         None \<Rightarrow> reply_rep e d REP_GENFAIL (log_error L_GETSOCKOPTFAIL c)
       | Some error \<Rightarrow>
         if error = 0 then connect_done e d (d_self_fd dat) c
         else connect_failed e d error c }"

section \<open>BIND: the incoming connection\<close>

text \<open>The checks of \<^verbatim>\<open>bindlistening\<close> on the peer \<open>ss\<close>: the reply code of the first that fails.\<close>

definition request_addr :: "Info \<Rightarrow> sockaddr option" where
  "request_addr info =
    (case i_sa info of Some sa \<Rightarrow> Some sa
     | None \<Rightarrow> (case i_ai info of ai # _ \<Rightarrow> Some (ai_addr ai) | [] \<Rightarrow> None))"

definition peer_check :: "Info \<Rightarrow> sockaddr \<Rightarrow> byte option" where
  "peer_check info ss =
    (case request_addr info of
       None \<Rightarrow> Some REP_GENFAIL
     | Some req \<Rightarrow>
       if sa_family req \<noteq> sa_family ss then Some REP_RULESET
       else case (ss, req) of
         (SIN addr port, SIN raddr rport) \<Rightarrow>
           (if port \<noteq> rport then Some REP_RULESET
            else if addr \<noteq> raddr then Some REP_RULESET else None)
       | (SIN6 addr port, SIN6 raddr rport) \<Rightarrow>
           (if port \<noteq> rport then Some REP_RULESET
            else if addr \<noteq> raddr then Some REP_RULESET else None)
       | _ \<Rightarrow> None)"

definition peer_reply :: "os \<Rightarrow> side \<Rightarrow> sockaddr \<Rightarrow> conn \<Rightarrow> conn option" where
  "peer_reply e d ss c =
    (case ss of
       SIN addr port \<Rightarrow> do {
         c \<leftarrow> write_rep_addr ATYP_IPV4 addr port c;
         (ret, c) \<leftarrow> wake_client e c;
         if ret = -1 then reply_rep e d REP_GENFAIL c
         else set_state STATE_SENDING_REPLY_2 c }
     | SIN6 addr port \<Rightarrow> do {
         c \<leftarrow> write_rep_addr ATYP_IPV6 addr port c;
         (ret, c) \<leftarrow> wake_client e c;
         if ret = -1 then reply_rep e d REP_GENFAIL c
         else set_state STATE_SENDING_REPLY_2 c }
     | SA_OTHER _ \<Rightarrow> reply_rep e d REP_GENFAIL c)"

text \<open>\<^verbatim>\<open>bindlistening\<close> once the peer is the expected one.\<close>

definition peer_accepted :: "os \<Rightarrow> side \<Rightarrow> fd \<Rightarrow> sockaddr \<Rightarrow> conn \<Rightarrow> conn option" where
  "peer_accepted e d new_fd ss c = do {
     dat \<leftarrow> get_data d c;
     let c = close_fd (d_self_fd dat) c;
     let c = ep_delete_fd e (d_self_fd dat) c;
     let c = put_data d (Some (dat\<lparr>d_self_fd := new_fd\<rparr>)) c;
     c \<leftarrow> upd_shared (s_server_fd_update (\<lambda>_. new_fd)) c;
     let (ret, c) = ep_add_new_client e new_fd d c;
     (if ret = -1 then reply_rep e d REP_GENFAIL c
      else do {
        c \<leftarrow> set_rep REP_SUCCESS c;
        c \<leftarrow> write_rep_info REP_SUCCESS c;
        peer_reply e d ss c }) }"

definition bindlistening :: "os \<Rightarrow> side \<Rightarrow> 32 word \<Rightarrow> conn \<Rightarrow> conn option" where
  "bindlistening e d ev c = do {
     dat \<leftarrow> get_data d c;
     sh \<leftarrow> c_shared c;
     if not_for ev EPOLLIN dat (s_server_fd sh) then Some c
     else
       let (acc, c) = sys_accept e (d_self_fd dat) c in
       case acc of
         None \<Rightarrow> reply_rep e d REP_GENFAIL c
       | Some (new_fd, ss) \<Rightarrow> do {
           c \<leftarrow> set_server_addr ss c;
           info \<leftarrow> get_info c;
           case peer_check info ss of
             Some rep \<Rightarrow> reply_rep e d rep c
           | None \<Rightarrow> peer_accepted e d new_fd ss c } }"

section \<open>The relay and the end of a connection\<close>

definition closed :: "os \<Rightarrow> side \<Rightarrow> conn \<Rightarrow> conn option" where
  "closed e d c = do {
     dat \<leftarrow> get_data d c;
     let c = close_fd (d_self_fd dat) c;
     let c = ep_delete_fd e (d_self_fd dat) c;
     free_data d c }"

definition half_close :: "conn \<Rightarrow> conn option" where
  "half_close c = set_state STATE_CLOSED c"

definition full :: "os \<Rightarrow> side \<Rightarrow> 32 word \<Rightarrow> conn \<Rightarrow> conn option" where
  "full e d ev c = do {
     dat \<leftarrow> get_data d c;
     if ev AND EPOLLOUT \<noteq> 0 then do {
       (ret, c) \<leftarrow> send_traffic e (d_self_fd dat) c;
       c \<leftarrow> (if ret = -1 then set_state STATE_HALF_CLOSE c else Some c);
       if ret = 0 then do {
         let (ret, c) = ep_done_sending e (d_self_fd dat) d c;
         (if ret = -1 then set_state STATE_CLOSED c else Some c) }
       else Some c }
     else if ev AND EPOLLIN \<noteq> 0 then do {
       (ret, c) \<leftarrow> read_traffic e (d_self_fd dat) c;
       c \<leftarrow> (if ret = -1 then set_state STATE_HALF_CLOSE c else Some c);
       sh \<leftarrow> c_shared c;
       let (pfd, pdata) =
         (if d_self_fd dat = s_client_fd sh then (s_server_fd sh, Server)
          else (s_client_fd sh, Client));
       Some (snd (ep_waiting_send e pfd pdata c)) }
     else Some c }"

definition full_udpa :: "conn \<Rightarrow> (int \<times> conn) option" where
  "full_udpa c = Some (-1, c)"

section \<open>The dispatcher\<close>

definition ret0 :: "conn option \<Rightarrow> (int \<times> conn) option" where
  "ret0 m = map_option (\<lambda>c. (0, c)) m"

definition socks5 :: "os \<Rightarrow> side \<Rightarrow> 32 word \<Rightarrow> Configs \<Rightarrow> conn \<Rightarrow> (16 word \<times> conn) option" where
  "socks5 e d ev configs c = do {
     dat \<leftarrow> get_data d c;
     if \<not> d_shared dat then Some (0, log_error L_NULLCHECKFAIL c)
     else do {
       sh \<leftarrow> c_shared c;
       (ret, c) \<leftarrow>
         (case s_state sh of
            STATE_NO_STATE \<Rightarrow> Some (0, c)
          | STATE_WAITING_METHODS \<Rightarrow> ret0 (waitingmethods e d configs ev c)
          | STATE_SENDING_METHOD \<Rightarrow> ret0 (sendingmethod e d ev c)
          | STATE_AUTHENTICATING \<Rightarrow> Some (0, c)
          | STATE_WAITING_COMMAND \<Rightarrow> waitingcommand e d configs ev c
          | STATE_ASYNC_DNS \<Rightarrow> Some (0, c)
          | STATE_SENDING_REPLY \<Rightarrow> ret0 (sendingreply e d ev c)
          | STATE_SENDING_REPLY_2 \<Rightarrow> ret0 (sendingreply e d ev c)
          | STATE_CONNECTING \<Rightarrow> ret0 (connecting e d ev c)
          | STATE_BIND_LISTENING \<Rightarrow> ret0 (bindlistening e d ev c)
          | STATE_FULL \<Rightarrow> ret0 (full e d ev c)
          | STATE_FULL_UDPA \<Rightarrow> full_udpa c
          | STATE_HALF_CLOSE \<Rightarrow> ret0 (half_close c)
          | STATE_CLOSED \<Rightarrow> ret0 (closed e d c));
       Some (word_of_int ret, c) } }"

end
