(* ===== verification/Socks_Steps.thy ===== *)
theory Socks_Steps
  imports Session Socks
begin

text \<open>
  Execution rules for the building blocks of the handlers of \<^verbatim>\<open>socks.c\<close> and \<^verbatim>\<open>net.c\<close>: for each
  of them, the views it can end in. The rules are total: under their premises the block has
  no undefined behaviour.
\<close>

text \<open>The program can always change the registration of a descriptor it has open.\<close>

definition mod_ok :: "os \<Rightarrow> bool" where
  "mod_ok e \<longleftrightarrow> (\<forall>k fd. os_epoll_ctl e k EPOLL_CTL_MOD fd)"

lemmas wf_simps = wf_shared wf_state wf_client_fd wf_info wf_data wf_client wf_server wf_in_used wf_out_used wf_in_cap
  peek_client_out_view peek_server_out_view

lemma err_reply_length [simp]: "length (err_reply r) = 10"
  by (simp add: err_reply_def)

section \<open>Errors\<close>

lemma trace_view: "c_trace c = v_trace (view c)"
  by (simp add: view_trace)

text \<open>The system calls of \<open>handshake_err\<close> for the descriptor \<open>fd\<close>.\<close>

definition closing :: "os \<Rightarrow> fd \<Rightarrow> view \<Rightarrow> sys list" where
  "closing e fd v = [Sys_log_access A_CLOSEHANDSHAKE (v_access v),
     Sys_epoll_ctl EPOLL_CTL_DEL fd 0 Null_ptr
       (os_epoll_ctl e (Suc (length (v_trace v))) EPOLL_CTL_DEL fd), Sys_close fd]"

lemma wp_handshake_err:
  assumes wf: "well_formed c" and d: "side_fd d (view c) = Some fd"
    and Q: "\<And>c'. released d (view c) c' \<Longrightarrow> c_trace c' = v_trace (view c) @ closing e fd (view c) \<Longrightarrow> Q c'"
  shows "wp (handshake_err e d c) Q"
  unfolding handshake_err_def wp_bind
proof (rule wp_get_data [OF wf d], rule wp_log_access [OF wf], rule wp_set_state)
  fix c1 c2
  assume 1: "well_formed c1" "view c1 = (view c)\<lparr>v_trace := v_trace (view c) @
      [Sys_log_access A_CLOSEHANDSHAKE (v_access (view c))]\<rparr>"
    and 2: "well_formed c2" "view c2 = (view c1)\<lparr>v_state := STATE_CLOSED\<rparr>"
  then show "wp (let c = ep_delete_fd e (d_self_fd (peer fd)) c2; c = close_fd (d_self_fd (peer fd)) c
        in free_data d c) Q"
    using d
    by (auto simp: Let_def ep_delete_fd_def epoll_ctl_def close_fd_def trace_view now_view closing_def
        intro!: wp_free_data [of _ d fd] Q)
qed

definition fix_rep :: "byte \<Rightarrow> byte" where
  "fix_rep r = (if r < 0x01 \<or> r > 0x08 then REP_GENFAIL else r)"

lemma fix_rep_range: "0x01 \<le> fix_rep r \<and> fix_rep r \<le> 0x08"
  by (auto simp: fix_rep_def REP_GENFAIL_def not_less word_le_nat_alt word_less_nat_alt Suc_le_eq unat_gt_0)

lemma fix_rep_consts [simp]:
  "fix_rep REP_GENFAIL = REP_GENFAIL" "fix_rep REP_RULESET = REP_RULESET"
  "fix_rep REP_BADCOMM = REP_BADCOMM" "fix_rep REP_BADATYP = REP_BADATYP"
  "fix_rep REP_NUNRECH = REP_NUNRECH" "fix_rep REP_HUNRECH = REP_HUNRECH"
  "fix_rep REP_REFUSED = REP_REFUSED" "fix_rep REP_TTLEXPR = REP_TTLEXPR"
  by (simp_all add: fix_rep_def rep_consts)

lemma fix_rep_idem [simp]: "fix_rep (fix_rep r) = fix_rep r"
  by (auto simp: fix_rep_def REP_GENFAIL_def)

definition waiting_send :: "view \<Rightarrow> sys list" where
  "waiting_send v = [Sys_epoll_ctl EPOLL_CTL_MOD (v_client v) (EPOLLIN OR EPOLLOUT) (Peer Client) True]"

lemma waiting_send_simps [simp]:
  "waiting_send (v\<lparr>v_state := st\<rparr>) = waiting_send v" "waiting_send (v\<lparr>v_out := xs\<rparr>) = waiting_send v"
  "waiting_send (v\<lparr>v_in := xs\<rparr>) = waiting_send v" "waiting_send (v\<lparr>v_info := i\<rparr>) = waiting_send v"
  "waiting_send (v\<lparr>v_trace := t\<rparr>) = waiting_send v" "waiting_send (v\<lparr>v_access := a\<rparr>) = waiting_send v"
  "waiting_send (v\<lparr>v_server := fd\<rparr>) = waiting_send v"
  by (simp_all add: waiting_send_def)

lemma wp_wake_client:
  assumes wf: "well_formed c"
    and ok: "\<And>c'. well_formed c' \<Longrightarrow>
      view c' = (view c)\<lparr>v_trace := v_trace (view c) @ waiting_send (view c)\<rparr> \<Longrightarrow> Q (0, c')"
    and fail: "\<And>c' t. \<not> mod_ok e \<Longrightarrow> well_formed c' \<Longrightarrow>
      view c' = (view c)\<lparr>v_trace := v_trace (view c) @ t\<rparr> \<Longrightarrow> Q (-1, c')"
  shows "wp (wake_client e c) Q"
  using wf
  by (auto simp: wake_client_def wf_simps ep_waiting_send_def epoll_ctl_def Let_def log_error_def
      mod_ok_def waiting_send_def intro!: ok fail)

text \<open>The view after the error reply: the code is in range, ten bytes are queued.\<close>

definition error_replied :: "view \<Rightarrow> view" where
  "error_replied v =
    v\<lparr>v_info := (v_info v)\<lparr>i_rep := fix_rep (v_rep v)\<rparr>, v_out := v_out v @ err_reply (fix_rep (v_rep v)),
      v_trace := v_trace v @ waiting_send v, v_state := STATE_SENDING_REPLY\<rparr>"

text \<open>
  The outcome of queueing an error reply: it is queued, or the connection is closed because
  the queue is full or the registration cannot be changed.
\<close>

definition replied :: "os \<Rightarrow> side \<Rightarrow> view \<Rightarrow> conn \<Rightarrow> bool" where
  "replied e d v c \<longleftrightarrow>
     (well_formed c \<and> view c = error_replied v) \<or>
     ((mod_ok e \<longrightarrow> length (v_out v) + 10 > OUTBUFFSIZE) \<and> released d v c)"

lemma wp_reply_with_err:
  assumes wf: "well_formed c" and d: "side_fd d (view c) = Some fd"
    and Q: "\<And>c'. replied e d (view c) c' \<Longrightarrow> Q c'"
  shows "wp (reply_with_err e d c) Q"
proof -
  let ?v = "view c"
  let ?fixed = "?v\<lparr>v_info := (v_info ?v)\<lparr>i_rep := fix_rep (v_rep ?v)\<rparr>\<rparr>"
  let ?send = "\<lambda>(n, c). if n \<noteq> (10::nat) then handshake_err e d c
      else do { (ret, c) \<leftarrow> wake_client e c;
        if ret = -1 then handshake_err e d c else set_state STATE_SENDING_REPLY c }"
  have queue: "wp (do { info \<leftarrow> get_info c1; r \<leftarrow> write_client_out (err_reply (i_rep info)) c1; ?send r }) Q"
    if 1: "well_formed c1" "view c1 = ?fixed" for c1
    unfolding wp_bind wf_info [OF 1(1)] wp_Some
    using 1 d
    by (auto intro!: wp_write_client_out wp_wake_client wp_set_state wp_handshake_err [where fd = fd] Q
        simp: replied_def error_replied_def)
  show ?thesis
  proof (cases "v_rep ?v < 0x01 \<or> 0x08 < v_rep ?v")
    case True
    then have "fix_rep (v_rep ?v) = REP_GENFAIL" by (simp add: fix_rep_def)
    with True wf d queue show ?thesis
      unfolding reply_with_err_def
      by (subst wp_bind, intro wp_get_data [OF wf d], subst wp_bind, simp only: wf_info [OF wf] wp_Some
          if_True, subst wp_bind) (rule wp_set_rep; simp)
  next
    case False
    then have "fix_rep (v_rep ?v) = v_rep ?v" by (simp only: fix_rep_def if_False)
    then have "view c = ?fixed" by simp
    with False wf d queue [of c] show ?thesis
      unfolding reply_with_err_def
      by (subst wp_bind, intro wp_get_data [OF wf d], subst wp_bind, simp only: wf_info [OF wf] wp_Some
          if_False, subst wp_bind, simp only: wp_Some)
  qed
qed

lemma wp_reply_rep:
  assumes wf: "well_formed c" and d: "side_fd d (view c) = Some fd"
    and Q: "\<And>c'. replied e d ((view c)\<lparr>v_info := (v_info (view c))\<lparr>i_rep := r\<rparr>\<rparr>) c' \<Longrightarrow> Q c'"
  shows "wp (reply_rep e d r c) Q"
  unfolding reply_rep_def wp_bind
  using wf d by (auto intro!: wp_set_rep wp_reply_with_err [where fd = fd] Q)

section \<open>Receiving and sending during the handshake\<close>

text \<open>What a \<^verbatim>\<open>recv\<close> for the free space of the input queue returns.\<close>

definition received :: "os \<Rightarrow> fd \<Rightarrow> view \<Rightarrow> byte list option" where
  "received e fd v =
    map_option (take (OUTBUFFSIZE - length (v_in v))) (os_recv e (length (v_trace v)) fd)"

definition after_recv :: "fd \<Rightarrow> byte list \<Rightarrow> view \<Rightarrow> view" where
  "after_recv fd bs v =
    v\<lparr>v_in := v_in v @ bs,
      v_trace := v_trace v @ [Sys_recv fd (OUTBUFFSIZE - length (v_in v)) (Some bs)]\<rparr>"

lemma received_fits: "received e fd v = Some bs \<Longrightarrow> length bs \<le> OUTBUFFSIZE - length (v_in v)"
  by (auto simp: received_def)

lemma OUTBUFFSIZE_bounds [simp]: "0 < OUTBUFFSIZE" "OUTBUFFSIZE < 2 ^ 64"
  by (simp_all add: OUTBUFFSIZE_def)

lemma size_sub_room: "n \<le> OUTBUFFSIZE \<Longrightarrow> size_sub OUTBUFFSIZE n = OUTBUFFSIZE - n"
  by (simp add: OUTBUFFSIZE_def)

lemma wp_recv_handshake:
  assumes wf: "well_formed c" and d: "side_fd d (view c) = Some fd"
    and data: "\<And>c' bs. received e fd (view c) = Some bs \<Longrightarrow> bs \<noteq> [] \<Longrightarrow> well_formed c' \<Longrightarrow>
      view c' = after_recv fd bs (view c) \<Longrightarrow> Q (True, c')"
    and eof: "\<And>c'. received e fd (view c) = None \<or> received e fd (view c) = Some [] \<Longrightarrow>
      released d (view c) c' \<Longrightarrow> Q (False, c')"
  shows "wp (recv_handshake e d c) Q"
proof -
  let ?v = "view c" and ?n = "OUTBUFFSIZE - length (v_in (view c))"
  have n: "size_sub OUTBUFFSIZE (length (v_in ?v)) = ?n"
    using wf_in_le [OF wf] by (rule size_sub_room)
  show ?thesis
  proof (cases "received e fd ?v")
    case None
    with wf d n show ?thesis
      by (auto simp: recv_handshake_def wf_simps Let_def sys_recv_def received_def now_view
          intro!: wp_handshake_err [where fd = fd] eof)
  next
    case (Some bs)
    show ?thesis
    proof (cases bs)
      case Nil
      with Some wf d n show ?thesis
        by (auto simp: recv_handshake_def wf_simps Let_def sys_recv_def received_def now_view
            intro!: wp_handshake_err [where fd = fd] eof)
    next
      case (Cons b bs')
      have fits: "length (v_in ?v) + length bs \<le> OUTBUFFSIZE"
        using received_fits [OF Some] wf_in_le [OF wf] by simp
      have wr: "wp (write_server_out bs (emit a c)) (\<lambda>r. wp (case r of (k, c) \<Rightarrow>
          if k \<noteq> length bs then do { c \<leftarrow> handshake_err e d c; Some (False, c) } else Some (True, c)) Q)"
        if "a = Sys_recv fd ?n (Some bs)" for a
        using that wf fits Some Cons
        by (auto intro!: wp_write_server_out data simp: after_recv_def)
      from Some have os: "map_option (take ?n) (os_recv e (length (v_trace ?v)) fd) = Some (b # bs')"
        by (simp add: received_def Cons)
      have "sys_recv e fd ?n c = (Some (b # bs'), emit (Sys_recv fd ?n (Some (b # bs'))) c)"
        by (simp only: sys_recv_def Let_def now_view os)
      with wr [OF refl] show ?thesis
        using wf d unfolding recv_handshake_def
        by (simp add: wf_simps n Cons Let_def)
    qed
  qed
qed

text \<open>What a \<^verbatim>\<open>send\<close> of at most \<open>n\<close> bytes of the client's queue takes.\<close>

definition sent :: "os \<Rightarrow> fd \<Rightarrow> nat \<Rightarrow> view \<Rightarrow> nat option" where
  "sent e fd n v = map_option (min (length (take n (v_out v)))) (os_send e (length (v_trace v)) fd)"

definition after_send :: "fd \<Rightarrow> nat \<Rightarrow> nat \<Rightarrow> view \<Rightarrow> view" where
  "after_send fd n k v =
    v\<lparr>v_out := drop k (v_out v), v_trace := v_trace v @ [Sys_send fd (take n (v_out v)) (Some k)]\<rparr>"

definition done_sending :: "fd \<Rightarrow> side \<Rightarrow> sys list" where
  "done_sending fd d = [Sys_epoll_ctl EPOLL_CTL_MOD fd EPOLLIN (Peer d) True]"

text \<open>The two ways \<open>send_handshake\<close> ends early: part of the bytes went, or the connection closed.\<close>

definition unsent :: "os \<Rightarrow> side \<Rightarrow> fd \<Rightarrow> nat \<Rightarrow> view \<Rightarrow> conn \<Rightarrow> bool" where
  "unsent e d fd n v c \<longleftrightarrow>
     (\<exists>k. sent e fd n v = Some k \<and> k < length (take n (v_out v)) \<and> well_formed c \<and> view c = after_send fd n k v) \<or>
     ((sent e fd n v = None \<or> \<not> mod_ok e) \<and> released d v c)"

lemma wp_send_handshake:
  assumes wf: "well_formed c" and d: "side_fd d (view c) = Some fd"
    and all: "\<And>c'. sent e fd n (view c) = Some (length (take n (v_out (view c)))) \<Longrightarrow> well_formed c' \<Longrightarrow>
      view c' = (let v = after_send fd n (length (take n (v_out (view c)))) (view c)
        in v\<lparr>v_trace := v_trace v @ done_sending fd d\<rparr>) \<Longrightarrow> Q (True, c')"
    and early: "\<And>c'. unsent e d fd n (view c) c' \<Longrightarrow> Q (False, c')"
  shows "wp (send_handshake e d n c) Q"
proof -
  let ?v = "view c" and ?bs = "take n (v_out (view c))"
  show ?thesis
  proof (cases "sent e fd n ?v")
    case None
    with wf d show ?thesis
      by (auto simp: send_handshake_def wf_simps Let_def sys_send_def sent_def now_view unsent_def
          intro!: wp_handshake_err [where fd = fd] early)
  next
    case (Some k)
    then have os: "map_option (min (length ?bs)) (os_send e (length (v_trace ?v)) fd) = Some k"
      by (simp add: sent_def)
    have k: "k \<le> length ?bs" using os by auto
    let ?c1 = "emit (Sys_send fd ?bs (Some k)) c"
    have eq: "send_handshake e d n c =
      (if k < length ?bs then do { c \<leftarrow> consume_client_out k ?c1; Some (False, c) }
       else do {
         c \<leftarrow> consume_client_out (length ?bs) ?c1;
         let (ret, c) = ep_done_sending e fd d c;
         (if ret = -1 then do { c \<leftarrow> handshake_err e d c; Some (False, c) } else Some (True, c)) })"
    proof -
      have "sys_send e fd ?bs c = (Some k, ?c1)"
        by (simp only: sys_send_def Let_def now_view os)
      with wf d show ?thesis
        unfolding send_handshake_def by (simp add: wf_simps Let_def del: length_take)
    qed
    show ?thesis
    proof (cases "k < length ?bs")
      case True
      with eq wf Some show ?thesis
        by (auto intro!: wp_consume_client_out early simp: unsent_def after_send_def)
    next
      case False
      with k have "k = length ?bs" by (simp only: not_less le_antisym)
      with eq wf d Some show ?thesis
        by (auto intro!: wp_consume_client_out wp_handshake_err [where fd = fd] early all
            simp: ep_done_sending_def epoll_ctl_def Let_def log_error_def unsent_def mod_ok_def
              after_send_def done_sending_def split: if_splits)
    qed
  qed
qed

lemma not_for_client:
  assumes "well_formed c" and "side_fd d (view c) = Some fd" and "\<not> not_for ev flag (peer fd) (v_client (view c))"
  shows "d = Client" and "fd = v_client (view c)"
  using assms side_fd_distinct [OF assms(1), of fd] by (cases d; auto simp: not_for_def)+

text \<open>The view when all of the first \<open>n\<close> queued bytes went out.\<close>

definition flushed :: "fd \<Rightarrow> side \<Rightarrow> nat \<Rightarrow> view \<Rightarrow> view" where
  "flushed fd d n v =
    (let v' = after_send fd n (length (take n (v_out v))) v
     in v'\<lparr>v_trace := v_trace v' @ done_sending fd d\<rparr>)"

lemma flushed_simps [simp]:
  "v_state (flushed fd d n v) = v_state v" "v_info (flushed fd d n v) = v_info v"
  "v_in (flushed fd d n v) = v_in v" "v_out (flushed fd d n v) = drop n (v_out v)"
  "v_client (flushed fd d n v) = v_client v" "v_server (flushed fd d n v) = v_server v"
  "v_access (flushed fd d n v) = v_access v"
  by (auto simp: flushed_def after_send_def Let_def min_def)

lemma side_fd_flushed [simp]: "side_fd d' (flushed fd d n v) = side_fd d' v"
  by (cases d') simp_all

lemma released_flushed [simp]: "released d' (flushed fd d n v) c = released d' v c"
  by (simp add: released_def)

end
