(* ===== verification/Negotiation.thy ===== *)
theory Negotiation
  imports Socks_Steps
begin

text \<open>
  The method negotiation: \<^verbatim>\<open>waitingmethods\<close> and \<^verbatim>\<open>sendingmethod\<close>. What the handlers do on the
  byte queues of the connection, and what a client sees of it: the first method it offers
  that the configuration allows, whatever the chunks its message arrives in.
\<close>

section \<open>The choice of a method\<close>

lemma select_method_find:
  assumes "length allowed = 255" and "0xFF \<notin> set ms"
  shows "select_method allowed ms =
    Some (case find (\<lambda>m. allowed ! unat m = 1) ms of None \<Rightarrow> 0xFF | Some m \<Rightarrow> m)"
  using assms(2)
proof (induction ms)
  case (Cons m ms)
  have "unat m < 255" using Cons.prems by (intro unat_byte_less_255) auto
  with Cons assms(1) show ?case by (simp add: mem_get_def)
qed simp

text \<open>The loop is undefined exactly when it reaches an offered \<open>0xFF\<close> before an allowed method.\<close>

lemma select_method_None:
  assumes "length allowed = 255"
  shows "select_method allowed ms = None \<longleftrightarrow>
    (\<exists>pre post. ms = pre @ 0xFF # post \<and> 0xFF \<notin> set pre \<and> (\<forall>m \<in> set pre. allowed ! unat m \<noteq> 1))"
    (is "_ \<longleftrightarrow> ?R ms")
proof (induction ms)
  case Nil
  then show ?case by simp
next
  case (Cons m ms)
  show ?case
  proof (cases "m = 0xFF")
    case True
    then have "select_method allowed (m # ms) = None" using assms by (simp add: mem_get_def)
    moreover have "?R (m # ms)" using True by (intro exI [of _ "[]"] exI [of _ ms]) simp
    ultimately show ?thesis by simp
  next
    case False
    then have m: "unat m < 255" by (rule unat_byte_less_255)
    show ?thesis
    proof (cases "allowed ! unat m = 1")
      case True
      with m assms have "select_method allowed (m # ms) = Some m" by (simp add: mem_get_def)
      moreover have "\<not> ?R (m # ms)"
        using True \<open>m \<noteq> 0xFF\<close> by (auto simp: Cons_eq_append_conv)
      ultimately show ?thesis by simp
    next
      case no: False
      with m assms have "select_method allowed (m # ms) = select_method allowed ms"
        by (simp add: mem_get_def)
      moreover have "?R (m # ms) \<longleftrightarrow> ?R ms"
      proof
        assume "?R (m # ms)"
        with False show "?R ms" by (auto simp: Cons_eq_append_conv)
      next
        assume "?R ms"
        then obtain pre post where "ms = pre @ 0xFF # post" "0xFF \<notin> set pre"
          "\<forall>m \<in> set pre. allowed ! unat m \<noteq> 1" by blast
        with False no show "?R (m # ms)" by (intro exI [of _ "m # pre"] exI [of _ post]) auto
      qed
      ultimately show ?thesis using Cons.IH by simp
    qed
  qed
qed

section \<open>The message in the input queue\<close>

definition methods_complete :: "byte list \<Rightarrow> bool" where
  "methods_complete q \<longleftrightarrow> 2 \<le> length q \<and> 2 + unat (q ! 1) \<le> length q"

definition offered :: "byte list \<Rightarrow> byte list" where
  "offered q = take (unat (q ! 1)) (drop 2 q)"

text \<open>The view after a negotiation that selects \<open>m\<close>.\<close>

definition selected :: "byte \<Rightarrow> side \<Rightarrow> view \<Rightarrow> view" where
  "selected m d v =
    v\<lparr>v_in := drop (2 + unat (v_in v ! 1)) (v_in v), v_out := v_out v @ [SOCKS5_VERSION, m],
      v_state := STATE_SENDING_METHOD, v_info := (v_info v)\<lparr>i_method := m\<rparr>,
      v_trace := v_trace v @ waiting_send v\<rparr>"

definition negotiated :: "os \<Rightarrow> Configs \<Rightarrow> view \<Rightarrow> conn \<Rightarrow> bool" where
  "negotiated e configs v c \<longleftrightarrow>
    (if v_in v ! 0 \<noteq> SOCKS5_VERSION then released Client v c
     else (\<exists>m. select_method (cf_methods configs) (offered (v_in v)) = Some m \<and>
       (well_formed c \<and> view c = selected m Client v \<or> \<not> mod_ok e \<and> released Client v c)))"

lemma wp_negotiate:
  assumes wf: "well_formed c" and room: "length (v_out (view c)) + 2 \<le> OUTBUFFSIZE"
    and complete: "methods_complete (v_in (view c))"
    and sel: "v_in (view c) ! 0 = SOCKS5_VERSION \<Longrightarrow>
      select_method (cf_methods configs) (offered (v_in (view c))) \<noteq> None"
    and Q: "\<And>c'. negotiated e configs (view c) c' \<Longrightarrow> Q c'"
  shows "wp (negotiate e Client configs (v_in (view c) ! 0) (v_in (view c) ! 1) c) Q"
proof -
  let ?v = "view c" and ?n = "unat (v_in (view c) ! 1)"
  have n: "?n \<le> 255" and len: "2 + ?n \<le> length (v_in ?v)"
    using complete unat_byte_le by (simp_all add: methods_complete_def)
  show ?thesis
  proof (cases "v_in ?v ! 0 = SOCKS5_VERSION")
    case False
    with wf show ?thesis
      unfolding negotiate_def wp_bind
      by (auto simp: vercheck_def negotiated_def
          intro!: wp_consume_server_out wp_log_access wp_handshake_err [where fd = "v_client ?v"] Q)
  next
    case True
    with sel obtain m where m: "select_method (cf_methods configs) (offered (v_in ?v)) = Some m" by blast
    have peeked: "take ?n (drop 2 (v_in ?v)) = offered (v_in ?v)" by (simp add: offered_def)
    have l: "length (offered (v_in ?v)) = ?n" using len by (simp add: offered_def)
    have bytes: "take ?n (zero_filled 255 (offered (v_in ?v))) = offered (v_in ?v)"
      using l by simp
    from True wf m room peeked l bytes show ?thesis
      unfolding negotiate_def wp_bind
      by (auto simp: vercheck_def negotiated_def wf_simps ep_waiting_send_def epoll_ctl_def Let_def
            log_error_def selected_def waiting_send_def mod_ok_def min_absorb2 add.commute
          intro!: wp_consume_server_out wp_write_client_out wp_set_state wp_upd_info wp_get_data
            wp_handshake_err [where fd = "v_client ?v"] Q)
  qed
qed

lemma wp_negotiate_bytes:
  assumes "well_formed c" and "view c = v" and "ver = v_in v ! 0" and "n = v_in v ! 1"
    and "length (v_out v) + 2 \<le> OUTBUFFSIZE" and "methods_complete (v_in v)"
    and "v_in v ! 0 = SOCKS5_VERSION \<Longrightarrow> select_method (cf_methods configs) (offered (v_in v)) \<noteq> None"
    and "\<And>c'. negotiated e configs v c' \<Longrightarrow> Q c'"
  shows "wp (negotiate e Client configs ver n c) Q"
  using assms wp_negotiate [of c configs e Q] by simp

lemma first_two_nth:
  assumes "2 \<le> length q" and "i < 2"
  shows "zero_filled 2 (take 2 q) ! i = q ! i"
  using assms by (simp add: zero_filled_nth)

text \<open>
  The outcome of \<^verbatim>\<open>waitingmethods\<close>: nothing to do, end of input, a message still incomplete,
  or a negotiation.
\<close>

definition methods_outcome :: "os \<Rightarrow> side \<Rightarrow> Configs \<Rightarrow> 32 word \<Rightarrow> view \<Rightarrow> conn \<Rightarrow> bool" where
  "methods_outcome e d configs ev v c \<longleftrightarrow>
    (if ev AND EPOLLIN = 0 \<or> d \<noteq> Client then well_formed c \<and> view c = v
     else case received e (v_client v) v of
       None \<Rightarrow> released Client v c
     | Some bs \<Rightarrow>
       if bs = [] then released Client v c
       else let v' = after_recv (v_client v) bs v in
         if methods_complete (v_in v') then negotiated e configs v' c
         else well_formed c \<and> view c = v')"

lemma wp_waitingmethods:
  assumes wf: "well_formed c" and d: "side_fd d (view c) = Some fd"
    and room: "length (v_out (view c)) + 2 \<le> OUTBUFFSIZE"
    and sel: "\<And>bs. ev AND EPOLLIN \<noteq> 0 \<Longrightarrow> d = Client \<Longrightarrow> received e (v_client (view c)) (view c) = Some bs \<Longrightarrow>
      methods_complete (v_in (view c) @ bs) \<Longrightarrow> (v_in (view c) @ bs) ! 0 = SOCKS5_VERSION \<Longrightarrow>
      select_method (cf_methods configs) (offered (v_in (view c) @ bs)) \<noteq> None"
    and Q: "\<And>c'. methods_outcome e d configs ev (view c) c' \<Longrightarrow> Q c'"
  shows "wp (waitingmethods e d configs ev c) Q"
proof (cases "not_for ev EPOLLIN (peer fd) (v_client (view c))")
  case True
  then have "ev AND EPOLLIN = 0 \<or> d \<noteq> Client"
    using d by (cases d) (auto simp: not_for_def)
  with True wf d show ?thesis
    by (auto simp: waitingmethods_def wf_simps methods_outcome_def intro!: Q)
next
  case False
  from not_for_client [OF wf d False] have dc: "d = Client" "fd = v_client (view c)" by blast+
  from False have ev: "ev AND EPOLLIN \<noteq> 0" by (simp add: not_for_def)
  have parse: "wp (read_methods e d configs c') Q"
    if c': "well_formed c'" "view c' = after_recv (v_client (view c)) bs (view c)"
      and bs: "received e (v_client (view c)) (view c) = Some bs" "bs \<noteq> []" for c' bs
  proof -
    define q where "q = v_in (view c) @ bs"
    have q: "v_in (view c') = q" "v_out (view c') = v_out (view c)"
      using c'(2) by (simp_all add: after_recv_def q_def)
    have sel_q: "methods_complete q \<Longrightarrow> q ! 0 = SOCKS5_VERSION \<Longrightarrow>
        select_method (cf_methods configs) (offered q) \<noteq> None"
      unfolding q_def by (rule sel [OF ev dc(1) bs(1)])
    show ?thesis
    proof (cases "methods_complete q")
      case True
      then have "2 \<le> length q" "2 + unat (q ! 1) \<le> length q" by (simp_all add: methods_complete_def)
      moreover have "wp (negotiate e Client configs (q ! 0) (q ! 1) c') Q"
        using c' bs ev dc True room sel_q q
        by (intro wp_negotiate_bytes [OF c'(1) refl]) (auto simp: methods_outcome_def c'(2) intro!: Q)
      ultimately show ?thesis
        using c'(1) q dc by (simp add: read_methods_def wf_simps first_two_nth Let_def del: One_nat_def)
    next
      case False
      then have "methods_outcome e d configs ev (view c) c'"
        using c' bs ev dc q by (simp add: methods_outcome_def Let_def)
      with False c'(1) q Q show ?thesis
        by (auto simp: read_methods_def wf_simps first_two_nth Let_def methods_complete_def not_le not_less)
    qed
  qed
  have eof: "Q c'" if "received e (v_client (view c)) (view c) = None \<or>
      received e (v_client (view c)) (view c) = Some []" "released d (view c) c'" for c'
    using that ev dc by (auto simp: methods_outcome_def intro!: Q)
  show ?thesis
    unfolding waitingmethods_def wp_bind
  proof (rule wp_get_data [OF wf d], simp only: wf_shared [OF wf] wp_Some wf_client_fd [OF wf] False if_False wp_bind,
      rule wp_recv_handshake [OF wf d])
    fix c' bs
    assume "received e fd (view c) = Some bs" "bs \<noteq> []" "well_formed c'"
      "view c' = after_recv fd bs (view c)"
    then show "wp (case (True, c') of (go, c) \<Rightarrow> if \<not> go then Some c else read_methods e d configs c) Q"
      using parse [of c' bs] dc by simp
  qed (use eof dc in simp)
qed

section \<open>The reply to the client\<close>

definition negotiation_done :: "view \<Rightarrow> view" where
  "negotiation_done v =
    v\<lparr>v_trace := v_trace v @ [Sys_log_access A_METHNOAUTH (v_access v)],
      v_state := STATE_WAITING_COMMAND\<rparr>"

definition sendmethod_outcome :: "os \<Rightarrow> side \<Rightarrow> 32 word \<Rightarrow> view \<Rightarrow> conn \<Rightarrow> bool" where
  "sendmethod_outcome e d ev v c \<longleftrightarrow>
    (if ev AND EPOLLOUT = 0 \<or> d \<noteq> Client then well_formed c \<and> view c = v
     else unsent e Client (v_client v) 2 v c \<or>
       sent e (v_client v) 2 v = Some (length (take 2 (v_out v))) \<and>
       (if i_method (v_info v) = METH_NOAUTH
        then well_formed c \<and> view c = negotiation_done (flushed (v_client v) Client 2 v)
        else released Client v c))"

lemma wp_sendingmethod:
  assumes wf: "well_formed c" and d: "side_fd d (view c) = Some fd"
    and Q: "\<And>c'. sendmethod_outcome e d ev (view c) c' \<Longrightarrow> Q c'"
  shows "wp (sendingmethod e d ev c) Q"
proof (cases "not_for ev EPOLLOUT (peer fd) (v_client (view c))")
  case True
  then have "ev AND EPOLLOUT = 0 \<or> d \<noteq> Client"
    using d by (cases d) (auto simp: not_for_def)
  with True wf d show ?thesis
    by (auto simp: sendingmethod_def wf_simps sendmethod_outcome_def intro!: Q)
next
  case False
  from not_for_client [OF wf d False] have dc: "d = Client" "fd = v_client (view c)" by blast+
  from False have ev: "ev AND EPOLLOUT \<noteq> 0" by (simp add: not_for_def)
  have early: "Q c'" if "unsent e d fd 2 (view c) c'" for c'
    using that ev dc by (auto simp: sendmethod_outcome_def intro!: Q)
  have rest: "wp (method_sent e d c') Q"
    if "well_formed c'" "view c' = flushed fd d 2 (view c)"
      "sent e fd 2 (view c) = Some (length (take 2 (v_out (view c))))" for c'
    using that ev dc
    by (auto simp: method_sent_def wf_simps sendmethod_outcome_def negotiation_done_def
        intro!: wp_log_access wp_set_state wp_handshake_err [where fd = "v_client (view c)"] Q)
  show ?thesis
    unfolding sendingmethod_def wp_bind
  proof (rule wp_get_data [OF wf d], simp only: wf_shared [OF wf] wp_Some wf_client_fd [OF wf] False if_False wp_bind,
      rule wp_send_handshake [OF wf d])
    fix c'
    assume "sent e fd 2 (view c) = Some (length (take 2 (v_out (view c))))" "well_formed c'"
      "view c' = (let v = after_send fd 2 (length (take 2 (v_out (view c)))) (view c)
        in v\<lparr>v_trace := v_trace v @ done_sending fd d\<rparr>)"
    then show "wp (case (True, c') of (go, c) \<Rightarrow> if \<not> go then Some c else method_sent e d c) Q"
      using rest [of c'] by (simp add: flushed_def)
  qed (use early in simp)
qed

end
