(* ===== verification/Commands.thy ===== *)
theory Commands
  imports Socks_Steps
begin

text \<open>
  The commands of \<^verbatim>\<open>src/net.c\<close> on the view of a connection: every way \<^verbatim>\<open>init_connect\<close>,
  \<^verbatim>\<open>init_bind\<close>, \<^verbatim>\<open>init_udpa\<close> and the dispatch \<^verbatim>\<open>init_command\<close> can end.
\<close>

section \<open>What the operating system promises\<close>

text \<open>
  POSIX and the configuration: a new descriptor is not one that is open, \<^verbatim>\<open>getsockname\<close> and
  \<^verbatim>\<open>accept\<close> on an internet socket give an internet address, and a list node has its 24 bytes.
\<close>

definition os_ok :: "os \<Rightarrow> fd \<Rightarrow> bool" where
  "os_ok e cfd \<longleftrightarrow>
    (\<forall>k s. os_socket e k = Some s \<longrightarrow> s \<noteq> cfd) \<and>
    (\<forall>k l s ss. os_accept e k l = Some (s, ss) \<longrightarrow> s \<noteq> cfd \<and> sa_wf ss) \<and>
    (\<forall>k fd ss. os_getsockname e k fd = Some ss \<longrightarrow> sa_wf ss \<and> sa_port ss \<noteq> None) \<and>
    (\<forall>l. length (os_node_mem e l) = 24)"

lemma os_okD:
  assumes "os_ok e cfd"
  shows "os_socket e k = Some s \<Longrightarrow> s \<noteq> cfd"
    and "os_accept e k l = Some (s, ss) \<Longrightarrow> s \<noteq> cfd"
    and "os_accept e k l = Some (s, ss) \<Longrightarrow> sa_wf ss"
    and "os_getsockname e k fd = Some ss \<Longrightarrow> sa_wf ss"
    and "os_getsockname e k fd = Some ss \<Longrightarrow> \<exists>p. sa_port ss = Some p \<and> length p = 2"
    and "length (os_node_mem e n) = 24"
proof -
  show "\<exists>p. sa_port ss = Some p \<and> length p = 2" if "os_getsockname e k fd = Some ss"
  proof -
    from assms that have "sa_wf ss" "sa_port ss \<noteq> None" by (simp_all add: os_ok_def)
    then show ?thesis by (cases ss) auto
  qed
qed (use assms in \<open>auto simp: os_ok_def\<close>)

definition configs_ok :: "Configs \<Rightarrow> bool" where
  "configs_ok configs \<longleftrightarrow> length (cf_methods configs) = 255 \<and>
    (\<forall>l \<in> set (bind_advertise configs). sa_wf (sl_sa l))"

section \<open>What a command leaves alone\<close>

definition keeps :: "view \<Rightarrow> view \<Rightarrow> bool" where
  "keeps v v' \<longleftrightarrow>
     v_client v' = v_client v \<and> v_access v' = v_access v \<and> v_flags v' = v_flags v \<and>
     i_method (v_info v') = i_method (v_info v) \<and> i_cmd (v_info v') = i_cmd (v_info v) \<and>
     i_sa (v_info v') = i_sa (v_info v) \<and> i_ai (v_info v') = i_ai (v_info v) \<and>
     i_resolver_ret (v_info v') = i_resolver_ret (v_info v) \<and>
     (\<exists>t. v_trace v' = v_trace v @ t)"

lemma keeps_refl [simp]: "keeps v v"
  by (simp add: keeps_def)

lemma keeps_trans: "keeps u v \<Longrightarrow> keeps v w \<Longrightarrow> keeps u w"
  by (auto simp: keeps_def)

lemma keeps_simps [simp]:
  "keeps v (w\<lparr>v_state := st\<rparr>) = keeps v w" "keeps v (w\<lparr>v_out := q\<rparr>) = keeps v w"
  "keeps v (w\<lparr>v_in := q\<rparr>) = keeps v w" "keeps v (w\<lparr>v_server := s\<rparr>) = keeps v w"
  "keeps v (w\<lparr>v_info := (v_info w)\<lparr>i_rep := r\<rparr>\<rparr>) = keeps v w"
  "keeps v (w\<lparr>v_info := (v_info w)\<lparr>i_ai_index := k\<rparr>\<rparr>) = keeps v w"
  by (simp_all add: keeps_def)

lemma keeps_trace [simp]: "keeps v w \<Longrightarrow> keeps v (w\<lparr>v_trace := v_trace w @ t\<rparr>)"
  by (auto simp: keeps_def)

section \<open>CONNECT\<close>

definition connect_result :: "view \<Rightarrow> fd option \<Rightarrow> view \<Rightarrow> bool" where
  "connect_result v s v' \<longleftrightarrow>
     keeps v v' \<and> v_state v' = v_state v \<and> v_out v' = v_out v \<and> v_in v' = v_in v \<and>
     v_server v' = v_server v \<and>
     (case s of None \<Rightarrow> v_rep v' = REP_GENFAIL | Some fd \<Rightarrow> fd \<noteq> v_client v \<and> v_rep v' = v_rep v)"

lemma wp_open_and_connect:
  assumes wf: "well_formed c" and os: "os_ok e (v_client (view c))"
    and Q: "\<And>s c'. well_formed c' \<Longrightarrow> connect_result (view c) s (view c') \<Longrightarrow> Q (s, c')"
  shows "wp (open_and_connect e af ty sa c) Q"
  using wf os_okD(1) [OF os]
  by (auto simp: open_and_connect_def sys_socket_def fd_nonblocking_def sys_connect_def Let_def
      connect_result_def keeps_def intro!: wp_set_rep Q split: option.split)

lemma wp_connect_target:
  assumes wf: "well_formed c" and os: "os_ok e (v_client (view c))"
    and Q: "\<And>s c'. well_formed c' \<Longrightarrow> connect_result (view c) s (view c') \<Longrightarrow> Q (s, c')"
  shows "wp (connect_target e info c) Q"
proof -
  have other: "connect_result (view c) (Some (-1)) (view c)"
    using wf_client_nonneg [OF wf] by (auto simp: connect_result_def)
  have list: "wp (open_and_connect e (ai_family ai) (ai_socktype ai) (ai_addr ai) c)
      (\<lambda>x. wp (case x of (sfd, c) \<Rightarrow> do {
        c \<leftarrow> (if sfd = None then Some c else upd_info (i_ai_index_update (\<lambda>_. 0)) c);
        Some (sfd, c) }) Q)" for ai
  proof (rule wp_open_and_connect [OF wf os])
    fix s c'
    assume "well_formed c'" "connect_result (view c) s (view c')"
    then show "wp (case (s, c') of (sfd, c) \<Rightarrow> do {
        c \<leftarrow> (if sfd = None then Some c else upd_info (i_ai_index_update (\<lambda>_. 0)) c);
        Some (sfd, c) }) Q"
      by (cases s) (auto intro!: Q wp_upd_info simp: connect_result_def keeps_def)
  qed
  show ?thesis
    using wf other
    by (auto simp: connect_target_def intro!: wp_open_and_connect [OF wf os] Q list
        split: option.split sockaddr.split list.split)
qed

text \<open>The ways a command can end.\<close>

definition command_outcome :: "view \<Rightarrow> view \<Rightarrow> bool" where
  "command_outcome v v' \<longleftrightarrow>
     keeps v v' \<and> length (v_out v') \<le> length (v_out v) + 22 \<and> length (v_in v') \<le> length (v_in v) \<and>
     (v_state v' = STATE_CONNECTING \<and> v_server v' \<noteq> None \<and> v_rep v' = v_rep v \<and>
        v_out v' = v_out v \<and> i_cmd (v_info v) = CMD_CONN \<or>
      v_state v' = STATE_SENDING_REPLY \<and> v_server v' \<noteq> None \<and>
        (v_rep v' = REP_SUCCESS \<or> v_rep v' = REP_GENFAIL) \<and> i_cmd (v_info v) \<noteq> CMD_CONN \<or>
      v_state v' = v_state v \<and> (v_rep v' = REP_GENFAIL \<or> v_rep v' = REP_BADATYP))"

lemma wp_init_connect:
  assumes wf: "well_formed c" and os: "os_ok e (v_client (view c))"
    and cmd: "i_cmd (v_info (view c)) = CMD_CONN"
    and Q: "\<And>c'. well_formed c' \<Longrightarrow> command_outcome (view c) (view c') \<Longrightarrow> Q c'"
  shows "wp (init_connect e c) Q"
proof (cases "i_ai (v_info (view c)) = [] \<and> i_sa (v_info (view c)) = None")
  case True
  with wf show ?thesis
    by (auto simp: init_connect_def wf_simps command_outcome_def intro!: wp_set_rep Q)
next
  case False
  have len: "length (drop OUTBUFFSIZE (v_in v)) \<le> length (v_in v)" for v :: view by simp
  show ?thesis
    unfolding init_connect_def wp_bind wf_info [OF wf] wp_Some if_not_P [OF False]
  proof (rule wp_connect_target [OF wf os])
    fix s c'
    assume c': "well_formed c'" "connect_result (view c) s (view c')"
    then show "wp (case (s, c') of (s, c) \<Rightarrow>
        case s of None \<Rightarrow> Some c
        | Some sfd \<Rightarrow>
          let (data, c) = sys_malloc e c in
          if \<not> data then set_rep REP_GENFAIL (log_error L_MALLOCERROR c)
          else do {
            c \<leftarrow> link_server sfd c;
            c \<leftarrow> consume_server_out OUTBUFFSIZE c;
            let (ret, c) = ep_connecting e sfd Server c;
            (if ret = -1 then set_rep REP_GENFAIL c else set_state STATE_CONNECTING c) }) Q"
      using cmd
      by (cases s)
        (auto simp: sys_malloc_def log_error_def Let_def link_server_def ep_connecting_def epoll_ctl_def
          command_outcome_def connect_result_def keeps_def
          intro!: wp_set_rep wp_set_state wp_link_server_socket wp_consume_server_out Q)
  qed
qed

section \<open>Queueing a success reply\<close>

text \<open>What a series of writes that ignores its results leaves in a queue with room for \<open>n\<close> bytes.\<close>

definition queued :: "byte list \<Rightarrow> byte list \<Rightarrow> byte list \<Rightarrow> bool" where
  "queued q xs q' \<longleftrightarrow> length q' \<le> length q + length xs \<and>
    (length q + length xs \<le> OUTBUFFSIZE \<longrightarrow> q' = q @ xs)"

lemma queued_append: "queued q xs q1 \<Longrightarrow> queued q1 ys q2 \<Longrightarrow> queued q (xs @ ys) q2"
  by (auto simp: queued_def)

lemma wp_write_queued:
  assumes "well_formed c"
    and "\<And>n c' q. well_formed c' \<Longrightarrow> view c' = (view c)\<lparr>v_out := q\<rparr> \<Longrightarrow> queued (v_out (view c)) xs q \<Longrightarrow> Q (n, c')"
  shows "wp (write_client_out xs c) Q"
proof (rule wp_write_client_out [OF assms(1)])
  show "Q (length xs, c')" if "well_formed c'" "view c' = (view c)\<lparr>v_out := v_out (view c) @ xs\<rparr>" for c'
    using that by (rule assms(2)) (simp add: queued_def)
  show "Q (0, c')" if "well_formed c'" "view c' = view c"
    "OUTBUFFSIZE < length (v_out (view c)) + length xs" for c'
    using that by (intro assms(2) [of _ "v_out (view c)"]) (simp_all add: queued_def)
qed

lemma wp_write_rep_info:
  assumes "well_formed c"
    and "\<And>c' q. well_formed c' \<Longrightarrow> view c' = (view c)\<lparr>v_out := q\<rparr> \<Longrightarrow>
      queued (v_out (view c)) [SOCKS5_VERSION, rep, SOCKS5_RESV] q \<Longrightarrow> Q c'"
  shows "wp (write_rep_info rep c) Q"
  unfolding write_rep_info_def wp_bind using assms by (auto intro!: wp_write_queued)

lemma wp_write_rep_addr:
  assumes wf: "well_formed c"
    and Q: "\<And>c' q. well_formed c' \<Longrightarrow> view c' = (view c)\<lparr>v_out := q\<rparr> \<Longrightarrow>
      queued (v_out (view c)) (atyp # addr @ port) q \<Longrightarrow> Q c'"
  shows "wp (write_rep_addr atyp addr port c) Q"
  unfolding write_rep_addr_def wp_bind
proof (rule wp_write_queued [OF wf], unfold case_prod_conv wp_bind)
  fix c1 q1
  assume 1: "well_formed c1" "view c1 = (view c)\<lparr>v_out := q1\<rparr>" "queued (v_out (view c)) [atyp] q1"
  show "wp (write_client_out addr c1) (\<lambda>x. wp (case x of (_, c) \<Rightarrow>
      do { (_, c) \<leftarrow> write_client_out port c; Some c }) Q)"
  proof (rule wp_write_queued [OF 1(1)], unfold case_prod_conv wp_bind)
    fix c2 q2
    assume 2: "well_formed c2" "view c2 = (view c1)\<lparr>v_out := q2\<rparr>" "queued (v_out (view c1)) addr q2"
    show "wp (write_client_out port c2) (\<lambda>x. wp (case x of (_, c) \<Rightarrow> Some c) Q)"
    proof (rule wp_write_queued [OF 2(1)])
      fix n c3 q3
      assume 3: "well_formed c3" "view c3 = (view c2)\<lparr>v_out := q3\<rparr>" "queued (v_out (view c2)) port q3"
      have "queued (v_out (view c)) (([atyp] @ addr) @ port) q3"
        using 1 2 3 by (intro queued_append [of _ _ q2] queued_append [of _ _ q1]) simp_all
      then show "wp (case (n, c3) of (_, c) \<Rightarrow> Some c) Q"
        using 1 2 3 by (auto intro!: Q)
    qed
  qed
qed

text \<open>The end of the handlers that reply with success.\<close>

lemma wp_start_reply:
  assumes wf: "well_formed c" and sv: "v_server (view c) \<noteq> None"
    and Q: "\<And>c'. well_formed c' \<Longrightarrow> keeps (view c) (view c') \<Longrightarrow> v_state (view c') = STATE_SENDING_REPLY \<Longrightarrow>
      v_server (view c') = v_server (view c) \<Longrightarrow> v_out (view c') = v_out (view c) \<Longrightarrow> 
      v_in (view c') = drop OUTBUFFSIZE (v_in (view c)) \<Longrightarrow>
      v_rep (view c') = v_rep (view c) \<or> v_rep (view c') = REP_GENFAIL \<and> (\<exists>k. \<not> os_epoll_ctl e k EPOLL_CTL_ADD sfd) \<Longrightarrow> Q c'"
  shows "wp (start_reply e sfd c) Q"
  unfolding start_reply_def wp_bind
  using wf sv
  by (auto simp: ep_add_new_client_def epoll_ctl_def Let_def log_error_def keeps_def
      intro!: wp_consume_server_out wp_set_rep wp_set_state Q)

section \<open>BIND and UDP ASSOCIATE\<close>

text \<open>The address part of a reply.\<close>

fun addr_bytes :: "sockaddr \<Rightarrow> byte list \<Rightarrow> byte list" where
  "addr_bytes (SIN a p) port = ATYP_IPV4 # a @ port"
| "addr_bytes (SIN6 a p) port = ATYP_IPV6 # a @ port"
| "addr_bytes (SA_OTHER f) port = []"

lemma addr_bytes_le: "sa_wf sa \<Longrightarrow> length (addr_bytes sa port) \<le> 17 + length port"
  by (cases sa) auto

lemma queued_Nil [simp]: "queued q [] q"
  by (simp add: queued_def)

lemma wp_queue_and_wake:
  assumes wf: "well_formed c"
    and ok: "\<And>c' q. well_formed c' \<Longrightarrow> queued (v_out (view c)) (atyp # addr @ port) q \<Longrightarrow>
      view c' = (view c)\<lparr>v_out := q, v_trace := v_trace (view c) @ waiting_send (view c)\<rparr> \<Longrightarrow> Q (0, c')"
    and fail: "\<And>c' q t. \<not> mod_ok e \<Longrightarrow> well_formed c' \<Longrightarrow> queued (v_out (view c)) (atyp # addr @ port) q \<Longrightarrow>
      view c' = (view c)\<lparr>v_out := q, v_trace := v_trace (view c) @ t\<rparr> \<Longrightarrow> Q (-1, c')"
  shows "wp (do { c \<leftarrow> write_rep_addr atyp addr port c; wake_client e c }) Q"
  unfolding wp_bind
proof (rule wp_write_rep_addr [OF wf])
  fix c' q
  assume 1: "well_formed c'" "view c' = (view c)\<lparr>v_out := q\<rparr>" "queued (v_out (view c)) (atyp # addr @ port) q"
  show "wp (wake_client e c') Q"
    using 1 by (intro wp_wake_client [OF 1(1)] ok fail) auto
qed

lemma wp_queue_and_wake_ex:
  assumes "well_formed c"
    and "\<And>c' q. well_formed c' \<Longrightarrow> queued (v_out (view c)) (atyp # addr @ port) q \<Longrightarrow>
      \<exists>t. view c' = (view c)\<lparr>v_out := q, v_trace := v_trace (view c) @ t\<rparr> \<Longrightarrow> Q (0, c')"
    and "\<And>c' q. \<not> mod_ok e \<Longrightarrow> well_formed c' \<Longrightarrow> queued (v_out (view c)) (atyp # addr @ port) q \<Longrightarrow>
      \<exists>t. view c' = (view c)\<lparr>v_out := q, v_trace := v_trace (view c) @ t\<rparr> \<Longrightarrow> Q (-1, c')"
  shows "wp (do { c \<leftarrow> write_rep_addr atyp addr port c; wake_client e c }) Q"
  using assms(1) by (rule wp_queue_and_wake) (blast intro: assms(2,3))+

text \<open>
  The reply of a command has been queued on a connection that was \<open>v\<close>: the command's socket is
  the server side, and either the reply goes out, or an error does.
\<close>

definition announced :: "os \<Rightarrow> fd \<Rightarrow> byte list \<Rightarrow> view \<Rightarrow> view \<Rightarrow> bool" where
  "announced e sfd bs v v' \<longleftrightarrow>
     keeps v v' \<and> v_server v' = Some sfd \<and> queued (v_out v) ([SOCKS5_VERSION, REP_SUCCESS, SOCKS5_RESV] @ bs) (v_out v') \<and>
     (v_state v' = STATE_SENDING_REPLY \<and> v_in v' = drop OUTBUFFSIZE (v_in v) \<and>
       (v_rep v' = REP_SUCCESS \<or> v_rep v' = REP_GENFAIL \<and> (\<exists>k. \<not> os_epoll_ctl e k EPOLL_CTL_ADD sfd)) \<or>
      \<not> mod_ok e \<and> v_state v' = v_state v \<and> v_in v' = v_in v \<and> v_rep v' = REP_GENFAIL)"

text \<open>The common end: the address part and the registration.\<close>

lemma wp_announce:
  fixes reply :: "conn \<Rightarrow> (int \<times> conn) option"
  assumes wf: "well_formed c" and c: "view c = v\<lparr>v_server := Some sfd, v_info := (v_info v)\<lparr>i_rep := REP_SUCCESS\<rparr>,
      v_trace := v_trace v @ tr\<rparr>"
    and reply: "\<And>c1 R. well_formed c1 \<Longrightarrow>
      (\<And>c' q. well_formed c' \<Longrightarrow> queued (v_out (view c1)) bs q \<Longrightarrow>
        \<exists>t. view c' = (view c1)\<lparr>v_out := q, v_trace := v_trace (view c1) @ t\<rparr> \<Longrightarrow> R (0, c')) \<Longrightarrow>
      (\<And>c' q. \<not> mod_ok e \<Longrightarrow> well_formed c' \<Longrightarrow> queued (v_out (view c1)) bs q \<Longrightarrow>
        \<exists>t. view c' = (view c1)\<lparr>v_out := q, v_trace := v_trace (view c1) @ t\<rparr> \<Longrightarrow> R (-1, c')) \<Longrightarrow>
      wp (reply c1) R"
    and Q: "\<And>c'. well_formed c' \<Longrightarrow> announced e sfd bs v (view c') \<Longrightarrow> Q c'"
  shows "wp (do { c \<leftarrow> write_rep_info REP_SUCCESS c; (ret, c) \<leftarrow> reply c;
     if ret = -1 then set_rep REP_GENFAIL c else start_reply e sfd c }) Q"
  unfolding wp_bind
proof (rule wp_write_rep_info [OF wf])
  fix c1 q1
  assume 1: "well_formed c1" "view c1 = (view c)\<lparr>v_out := q1\<rparr>"
    "queued (v_out (view c)) [SOCKS5_VERSION, REP_SUCCESS, SOCKS5_RESV] q1"
  show "wp (reply c1) (\<lambda>x. wp (case x of (ret, c) \<Rightarrow>
      if ret = -1 then set_rep REP_GENFAIL c else start_reply e sfd c) Q)"
  proof (rule reply [OF 1(1)])
    fix c2 q
    assume 2: "well_formed c2" "queued (v_out (view c1)) bs q"
      "\<exists>t. view c2 = (view c1)\<lparr>v_out := q, v_trace := v_trace (view c1) @ t\<rparr>"
    have q: "queued (v_out v) ([SOCKS5_VERSION, REP_SUCCESS, SOCKS5_RESV] @ bs) q"
      using 1 2 c by (intro queued_append [of _ _ q1]) simp_all
    show "wp (case (0 :: int, c2) of (ret, c) \<Rightarrow>
        if ret = -1 then set_rep REP_GENFAIL c else start_reply e sfd c) Q"
      using 1 2 c q
      by (auto intro!: wp_start_reply Q simp: announced_def keeps_def)
    show "wp (case (-1 :: int, c2) of (ret, c) \<Rightarrow>
        if ret = -1 then set_rep REP_GENFAIL c else start_reply e sfd c) Q" if "\<not> mod_ok e"
      using 1 2 c q that
      by (auto intro!: wp_set_rep Q simp: announced_def keeps_def)
  qed
qed

lemma wp_bind_announce:
  assumes wf: "well_formed c" and os: "os_ok e (v_client (view c))" and ne: "sfd \<noteq> v_client (view c)"
    and name: "\<And>c' ss. os_getsockname e (length (v_trace (view c))) sfd = Some ss \<Longrightarrow> well_formed c' \<Longrightarrow>
      announced e sfd (addr_bytes adv (the (sa_port ss))) (view c) (view c') \<Longrightarrow> Q c'"
    and fail: "\<And>c'. os_getsockname e (length (v_trace (view c))) sfd = None \<Longrightarrow> well_formed c' \<Longrightarrow>
      view c' = (view c)\<lparr>v_server := Some sfd, v_info := (v_info (view c))\<lparr>i_rep := REP_GENFAIL\<rparr>,
        v_trace := v_trace (view c) @ [Sys_getsockname sfd None, Sys_close sfd]\<rparr> \<Longrightarrow> Q c'"
  shows "wp (bind_announce e sfd adv c) Q"
  unfolding bind_announce_def wp_bind link_server_def
proof (rule wp_link_server_socket [OF wf ne])
  fix c1
  assume 1: "well_formed c1" "view c1 = (view c)\<lparr>v_server := Some sfd\<rparr>"
  show "wp (let (name, c) = sys_getsockname e sfd c1 in
      case name of None \<Rightarrow> fail_close REP_GENFAIL sfd c
      | Some ss \<Rightarrow> do {
          c \<leftarrow> set_rep REP_SUCCESS c;
          c \<leftarrow> write_rep_info REP_SUCCESS c;
          (ret, c) \<leftarrow> bind_reply e adv ss c;
          if ret = -1 then set_rep REP_GENFAIL c else start_reply e sfd c }) Q"
  proof (cases "os_getsockname e (length (v_trace (view c))) sfd")
    case None
    with 1 show ?thesis
      by (auto simp: sys_getsockname_def now_view Let_def fail_close_def close_fd_def
          intro!: wp_set_rep fail)
  next
    case (Some ss)
    from os_okD(5) [OF os Some] obtain port where port: "sa_port ss = Some port" "length port = 2" by blast
    have reply: "wp (bind_reply e adv ss c') R"
      if "well_formed c'" "\<And>c'' q. well_formed c'' \<Longrightarrow> queued (v_out (view c')) (addr_bytes adv port) q \<Longrightarrow>
          \<exists>t. view c'' = (view c')\<lparr>v_out := q, v_trace := v_trace (view c') @ t\<rparr> \<Longrightarrow> R (0, c'')"
        "\<And>c'' q. \<not> mod_ok e \<Longrightarrow> well_formed c'' \<Longrightarrow> queued (v_out (view c')) (addr_bytes adv port) q \<Longrightarrow>
          \<exists>t. view c'' = (view c')\<lparr>v_out := q, v_trace := v_trace (view c') @ t\<rparr> \<Longrightarrow> R (-1, c'')" for c' R
    proof (cases adv)
      case (SA_OTHER f)
      have "R (0, c')"
        by (rule that(2) [OF that(1), of "v_out (view c')"])
          (simp_all add: SA_OTHER exI [of _ "[]"])
      with SA_OTHER show ?thesis by (simp add: bind_reply_def)
    next
      case (SIN a p)
      show ?thesis
        unfolding bind_reply_def SIN sockaddr.case port(1) bind.simps
        by (rule wp_queue_and_wake_ex [OF that(1)]) (use that(2,3) SIN in simp_all)
    next
      case (SIN6 a p)
      show ?thesis
        unfolding bind_reply_def SIN6 sockaddr.case port(1) bind.simps
        by (rule wp_queue_and_wake_ex [OF that(1)]) (use that(2,3) SIN6 in simp_all)
    qed
    show ?thesis
      using 1 Some
    proof (auto simp: sys_getsockname_def now_view Let_def simp del: wp_bind)
      show "wp (do {
          c \<leftarrow> set_rep REP_SUCCESS (emit (Sys_getsockname sfd (Some ss)) c1);
          c \<leftarrow> write_rep_info REP_SUCCESS c;
          (ret, c) \<leftarrow> bind_reply e adv ss c;
          if ret = -1 then set_rep REP_GENFAIL c else start_reply e sfd c }) Q"
        unfolding wp_bind [of "set_rep REP_SUCCESS _"]
      proof (rule wp_set_rep)
        fix c2
        assume "well_formed c2" "view c2 = (view (emit (Sys_getsockname sfd (Some ss)) c1))
          \<lparr>v_info := v_info (view (emit (Sys_getsockname sfd (Some ss)) c1))\<lparr>i_rep := REP_SUCCESS\<rparr>\<rparr>"
        with 1 Some port show "wp (do {
            c \<leftarrow> write_rep_info REP_SUCCESS c2;
            (ret, c) \<leftarrow> bind_reply e adv ss c;
            if ret = -1 then set_rep REP_GENFAIL c else start_reply e sfd c }) Q"
          by (intro wp_announce [where v = "view c" and bs = "addr_bytes adv port"
                and tr = "[Sys_getsockname sfd (Some ss)]"] reply name [of ss]) simp_all
      qed (use 1 in simp)
    qed
  qed
qed

text \<open>The bytes of the list node that \<^verbatim>\<open>init_udpa\<close> sends as its address.\<close>

definition node_bytes :: "int \<Rightarrow> byte list \<Rightarrow> byte list" where
  "node_bytes af node =
    (if af = AF_INET then ATYP_IPV4 # take 4 (drop 4 node) @ take 2 (drop 2 node)
     else if af = AF_INET6 then ATYP_IPV6 # take 16 (drop 8 node) @ take 2 (drop 2 node)
     else [])"

lemma wp_udpa_announce:
  assumes wf: "well_formed c" and node: "length node = 24" and ne: "sfd \<noteq> v_client (view c)"
    and Q: "\<And>c'. well_formed c' \<Longrightarrow> announced e sfd (node_bytes af node) (view c) (view c') \<Longrightarrow> Q c'"
  shows "wp (udpa_announce e sfd af node c) Q"
  unfolding udpa_announce_def link_server_def
proof (subst wp_bind, rule wp_link_server_socket [OF wf ne])
  fix c1
  assume 1: "well_formed c1" "view c1 = (view c)\<lparr>v_server := Some sfd\<rparr>"
  have reply: "wp (udpa_reply e af node c') R"
    if "well_formed c'" "\<And>c'' q. well_formed c'' \<Longrightarrow> queued (v_out (view c')) (node_bytes af node) q \<Longrightarrow>
        \<exists>t. view c'' = (view c')\<lparr>v_out := q, v_trace := v_trace (view c') @ t\<rparr> \<Longrightarrow> R (0, c'')"
      "\<And>c'' q. \<not> mod_ok e \<Longrightarrow> well_formed c'' \<Longrightarrow> queued (v_out (view c')) (node_bytes af node) q \<Longrightarrow>
        \<exists>t. view c'' = (view c')\<lparr>v_out := q, v_trace := v_trace (view c') @ t\<rparr> \<Longrightarrow> R (-1, c'')" for c' R
  proof -
    consider (inet) "af = AF_INET" | (inet6) "af = AF_INET6" "af \<noteq> AF_INET" | (no) "af \<noteq> AF_INET" "af \<noteq> AF_INET6"
      by blast
    then show ?thesis
    proof cases
      case inet
      have eq: "udpa_reply e af node c' = do { c \<leftarrow> write_rep_addr ATYP_IPV4 (take 4 (drop 4 node)) (take 2 (drop 2 node)) c';
          wake_client e c }"
        using inet node by (simp add: udpa_reply_def c_mem)
      show ?thesis
        unfolding eq by (rule wp_queue_and_wake_ex [OF that(1)]) (use that(2,3) inet in \<open>simp_all add: node_bytes_def\<close>)
    next
      case inet6
      have eq: "udpa_reply e af node c' = do { c \<leftarrow> write_rep_addr ATYP_IPV6 (take 16 (drop 8 node)) (take 2 (drop 2 node)) c';
          wake_client e c }"
        using inet6 node by (simp add: udpa_reply_def c_mem)
      show ?thesis
        unfolding eq by (rule wp_queue_and_wake_ex [OF that(1)]) (use that(2,3) inet6 in \<open>simp_all add: node_bytes_def\<close>)
    next
      case no
      have "R (0, c')"
        by (rule that(2) [OF that(1), of "v_out (view c')"])
          (simp_all add: no node_bytes_def exI [of _ "[]"])
      with no show ?thesis by (simp add: udpa_reply_def)
    qed
  qed
  show "wp (do { c \<leftarrow> set_rep REP_SUCCESS c1;
      c \<leftarrow> write_rep_info REP_SUCCESS c;
      (ret, c) \<leftarrow> udpa_reply e af node c;
      if ret = -1 then set_rep REP_GENFAIL c else start_reply e sfd c }) Q"
  proof (subst wp_bind, rule wp_set_rep [OF 1(1)])
    fix c2
    assume "well_formed c2" "view c2 = (view c1)\<lparr>v_info := (v_info (view c1))\<lparr>i_rep := REP_SUCCESS\<rparr>\<rparr>"
    with 1 show "wp (do { c \<leftarrow> write_rep_info REP_SUCCESS c2;
        (ret, c) \<leftarrow> udpa_reply e af node c;
        if ret = -1 then set_rep REP_GENFAIL c else start_reply e sfd c }) Q"
      by (intro wp_announce [where v = "view c" and bs = "node_bytes af node" and tr = "[]"] reply Q)
        simp_all
  qed
qed

lemma announced_outcome:
  assumes "announced e sfd bs v v'" and "length bs \<le> 19" and "i_cmd (v_info v) \<noteq> CMD_CONN"
  shows "command_outcome v v'"
  using assms by (auto simp: announced_def command_outcome_def queued_def)

lemma command_outcome_trace:
  assumes "command_outcome (v\<lparr>v_trace := v_trace v @ t\<rparr>) v'"
  shows "command_outcome v v'"
  using assms by (auto simp: command_outcome_def keeps_def)

lemma command_failed:
  assumes "v_state v' = v_state v" "v_rep v' = REP_GENFAIL \<or> v_rep v' = REP_BADATYP"
    "keeps v v'" "v_out v' = v_out v" "v_in v' = v_in v"
  shows "command_outcome v v'"
  using assms by (simp add: command_outcome_def)

lemma sa_port_bytes_le:
  assumes "os_ok e cfd" and "os_getsockname e k fd = Some ss" and "sa_wf adv"
  shows "length (addr_bytes adv (the (sa_port ss))) \<le> 19"
  using os_okD(5) [OF assms(1,2)] addr_bytes_le [OF assms(3), of "the (sa_port ss)"] by auto

lemma wp_init_bind:
  assumes wf: "well_formed c" and os: "os_ok e (v_client (view c))" and cf: "configs_ok configs"
    and cmd: "i_cmd (v_info (view c)) = CMD_BIND"
    and Q: "\<And>c'. well_formed c' \<Longrightarrow> command_outcome (view c) (view c') \<Longrightarrow> Q c'"
  shows "wp (init_bind e configs c) Q"
proof -
  have nconn: "i_cmd (v_info (view c)) \<noteq> CMD_CONN" using cmd by (simp add: socks_consts)
  have announce: "wp (bind_announce e sfd (sl_sa adv) c') Q"
    if c': "well_formed c'" "view c' = (view c)\<lparr>v_trace := v_trace (view c) @ t\<rparr>"
      and sock: "os_socket e (length (v_trace (view c))) = Some sfd"
      and adv: "find_family af (bind_advertise configs) = Some adv" for sfd adv c' t af
  proof (rule wp_bind_announce [OF c'(1)])
    have sa: "sa_wf (sl_sa adv)" using cf find_family_Some [OF adv] by (auto simp: configs_ok_def)
    show "os_ok e (v_client (view c'))" using os c'(2) by simp
    show "sfd \<noteq> v_client (view c')" using os_okD(1) [OF os sock] c'(2) by simp
    show "Q c''" if "os_getsockname e (length (v_trace (view c'))) sfd = Some ss" "well_formed c''"
      "announced e sfd (addr_bytes (sl_sa adv) (the (sa_port ss))) (view c') (view c'')" for c'' ss
      using that(2,3) announced_outcome [OF that(3) sa_port_bytes_le [OF os that(1) sa]] c'(2) nconn
      by (auto intro!: Q command_outcome_trace [of _ t])
    show "Q c''" if "well_formed c''" "view c'' = (view c')\<lparr>v_server := Some sfd,
        v_info := (v_info (view c'))\<lparr>i_rep := REP_GENFAIL\<rparr>,
        v_trace := v_trace (view c') @ [Sys_getsockname sfd None, Sys_close sfd]\<rparr>" for c''
      using that c'(2) by (intro Q command_failed) (auto simp: keeps_def)
  qed
  show ?thesis
    using wf
    by (auto simp: init_bind_def wf_simps sys_socket_def fd_nonblocking_def sys_bind_def sys_listen_def
        sys_malloc_def log_error_def close_fd_def fail_close_def Let_def now_view keeps_def
        intro!: wp_set_rep announce Q command_failed split: option.split)
qed

lemma wp_init_udpa:
  assumes wf: "well_formed c" and os: "os_ok e (v_client (view c))"
    and cmd: "i_cmd (v_info (view c)) = CMD_UDPA"
    and Q: "\<And>c'. well_formed c' \<Longrightarrow> command_outcome (view c) (view c') \<Longrightarrow> Q c'"
  shows "wp (init_udpa e configs c) Q"
proof -
  have nconn: "i_cmd (v_info (view c)) \<noteq> CMD_CONN" using cmd by (simp add: socks_consts)
  have announce: "wp (udpa_announce e sfd af (os_node_mem e adv) c') Q"
    if c': "well_formed c'" "view c' = (view c)\<lparr>v_trace := v_trace (view c) @ t\<rparr>"
      and sock: "os_socket e (length (v_trace (view c))) = Some sfd" for sfd adv c' t af
  proof (rule wp_udpa_announce [OF c'(1) os_okD(6) [OF os]])
    show "sfd \<noteq> v_client (view c')" using os_okD(1) [OF os sock] c'(2) by simp
    have len: "length (node_bytes af node) \<le> 19" for node
      by (auto simp: node_bytes_def)
    show "Q c''" if "well_formed c''"
      "announced e sfd (node_bytes af (os_node_mem e adv)) (view c') (view c'')" for c''
      using that(1) announced_outcome [OF that(2) len] c'(2) nconn
      by (auto intro!: Q command_outcome_trace [of _ t])
  qed
  show ?thesis
    using wf
    by (auto simp: init_udpa_def wf_simps sys_socket_def sys_bind_def
        sys_malloc_def log_error_def close_fd_def fail_close_def Let_def now_view keeps_def
        intro!: wp_set_rep announce Q command_failed split: option.split)
qed

end
