(* ===== verification/Requests.thy ===== *)
theory Requests
  imports Commands
begin

text \<open>
  The request phase of \<^verbatim>\<open>src/socks.c\<close> on the view of a connection: the dispatch on the command,
  the filter, the parsing of the request by \<^verbatim>\<open>waitingcommand\<close>, and \<^verbatim>\<open>sendingreply\<close>.
\<close>

section \<open>The dispatch on the command\<close>

definition command_enabled :: "Configs \<Rightarrow> byte \<Rightarrow> bool" where
  "command_enabled configs cmd \<longleftrightarrow>
     cmd = CMD_CONN \<and> allow_connect configs \<or> cmd = CMD_BIND \<and> allow_bind configs \<or>
     cmd = CMD_UDPA \<and> allow_udpassoc configs"

definition command_log :: "byte \<Rightarrow> Alog \<Rightarrow> sys list" where
  "command_log cmd access =
    (if cmd = CMD_CONN then [Sys_log_access A_COMMCONN access]
     else if cmd = CMD_BIND then [Sys_log_access A_COMMBIND access]
     else if cmd = CMD_UDPA then [Sys_log_access A_COMMUDPA access] else [])"

text \<open>A connection whose request is answered with the code \<open>r\<close> after the log entries \<open>t\<close>.\<close>

definition refusing :: "byte \<Rightarrow> sys list \<Rightarrow> view \<Rightarrow> view" where
  "refusing r t v = v\<lparr>v_trace := v_trace v @ t, v_info := (v_info v)\<lparr>i_rep := r\<rparr>\<rparr>"

lemma refusing_simps [simp]:
  "v_state (refusing r t v) = v_state v" "v_out (refusing r t v) = v_out v"
  "v_in (refusing r t v) = v_in v" "v_server (refusing r t v) = v_server v"
  "v_client (refusing r t v) = v_client v" "v_access (refusing r t v) = v_access v"
  "v_info (refusing r t v) = (v_info v)\<lparr>i_rep := r\<rparr>" "v_trace (refusing r t v) = v_trace v @ t"
  by (simp_all add: refusing_def)

lemma released_refusing [simp]: "released d (refusing r t v) c = released d v c"
  by (simp add: refusing_def)

lemma wp_init_command:
  assumes wf: "well_formed c" and d: "side_fd d (view c) = Some fd"
    and os: "os_ok e (v_client (view c))" and cf: "configs_ok configs"
    and run: "\<And>c'. command_enabled configs (i_cmd (v_info (view c))) \<Longrightarrow> well_formed c' \<Longrightarrow>
      command_outcome (view c) (view c') \<Longrightarrow> Q c'"
    and refuse: "\<And>c'. \<not> command_enabled configs (i_cmd (v_info (view c))) \<Longrightarrow>
      replied e d (refusing REP_BADCOMM (command_log (i_cmd (v_info (view c))) (v_access (view c))) (view c)) c' \<Longrightarrow>
      Q c'"
  shows "wp (init_command e d configs c) Q"
proof -
  let ?v = "view c" and ?cmd = "i_cmd (v_info (view c))"
  have distinct: "CMD_BIND \<noteq> CMD_CONN" "CMD_UDPA \<noteq> CMD_CONN" "CMD_UDPA \<noteq> CMD_BIND"
    by (simp_all add: socks_consts)
  have refusal: "wp (reply_rep e d REP_BADCOMM c') Q"
    if "well_formed c'" "view c' = ?v\<lparr>v_trace := v_trace ?v @ t\<rparr>" "t = command_log ?cmd (v_access ?v)"
      "\<not> command_enabled configs ?cmd" for c' t
    using that d by (intro wp_reply_rep [where fd = fd] refuse) (auto simp: refusing_def)
  have logged: "wp (log_access code c) R"
    if "\<And>c'. well_formed c' \<Longrightarrow> view c' = ?v\<lparr>v_trace := v_trace ?v @ [Sys_log_access code (v_access ?v)]\<rparr> \<Longrightarrow> R c'"
    for code R
    using wf that by (rule wp_log_access)
  have out: "Q c'" if "command_enabled configs ?cmd" "well_formed c'"
      "command_outcome (?v\<lparr>v_trace := v_trace ?v @ t\<rparr>) (view c')" for c' t
    using run that command_outcome_trace by blast
  have eq: "init_command e d configs c =
      (if ?cmd = CMD_CONN then do {
         c \<leftarrow> log_access A_COMMCONN c;
         if \<not> allow_connect configs then reply_rep e d REP_BADCOMM c
         else init_connect e c }
       else if ?cmd = CMD_BIND then do {
         c \<leftarrow> log_access A_COMMBIND c;
         if \<not> allow_bind configs then reply_rep e d REP_BADCOMM c
         else init_bind e configs c }
       else if ?cmd = CMD_UDPA then do {
         c \<leftarrow> log_access A_COMMUDPA c;
         if \<not> allow_udpassoc configs then reply_rep e d REP_BADCOMM c
         else init_udpa e configs c }
       else reply_rep e d REP_BADCOMM c)"
    using wf d by (simp add: init_command_def wf_simps)
  consider (conn) "?cmd = CMD_CONN" | (bnd) "?cmd = CMD_BIND" | (udp) "?cmd = CMD_UDPA"
    | (no) "?cmd \<noteq> CMD_CONN" "?cmd \<noteq> CMD_BIND" "?cmd \<noteq> CMD_UDPA" by blast
  then show ?thesis
  proof cases
    case conn
    show ?thesis
      unfolding eq if_P [OF conn] wp_bind
      by (rule logged) (use conn distinct os in \<open>auto intro!: wp_init_connect refusal out
          simp: command_enabled_def command_log_def simp del: wp_bind\<close>)
  next
    case bnd
    with distinct have "?cmd \<noteq> CMD_CONN" by simp
    show ?thesis
      unfolding eq if_not_P [OF \<open>?cmd \<noteq> CMD_CONN\<close>] if_P [OF bnd] wp_bind
      by (rule logged) (use bnd distinct os cf in \<open>auto intro!: wp_init_bind refusal out
          simp: command_enabled_def command_log_def simp del: wp_bind\<close>)
  next
    case udp
    with distinct have "?cmd \<noteq> CMD_CONN" "?cmd \<noteq> CMD_BIND" by simp_all
    show ?thesis
      unfolding eq if_not_P [OF \<open>?cmd \<noteq> CMD_CONN\<close>] if_not_P [OF \<open>?cmd \<noteq> CMD_BIND\<close>] if_P [OF udp] wp_bind
      by (rule logged) (use udp distinct os in \<open>auto intro!: wp_init_udpa refusal out
          simp: command_enabled_def command_log_def simp del: wp_bind\<close>)
  next
    case no
    with wf show ?thesis
      unfolding eq by (auto intro!: refusal simp: command_enabled_def command_log_def)
  qed
qed

section \<open>The filter and the command\<close>

text \<open>
  The outcome of a complete request on a connection that can be written to: the filter refuses it
  (one error reply), the command is not available (two error replies), or the command runs
  and an error reply follows when it failed.
\<close>

definition needs_reply :: "byte \<Rightarrow> bool" where
  "needs_reply rep \<longleftrightarrow> rep \<noteq> 0xFF \<and> rep \<noteq> REP_SUCCESS"

definition run_outcome :: "Configs \<Rightarrow> view \<Rightarrow> view \<Rightarrow> bool" where
  "run_outcome configs v v' \<longleftrightarrow>
    (if firewall (v_info v) configs
     then v' = error_replied (refusing REP_RULESET [Sys_log_access A_FIREWALLDROP (v_access v)] v)
     else if \<not> command_enabled configs (i_cmd (v_info v))
     then v' = error_replied (error_replied (refusing REP_BADCOMM (command_log (i_cmd (v_info v)) (v_access v)) v))
     else \<exists>w. command_outcome v w \<and> v' = (if needs_reply (v_rep w) then error_replied w else w))"

lemma error_replied_simps [simp]:
  "v_state (error_replied v) = STATE_SENDING_REPLY"
  "v_out (error_replied v) = v_out v @ err_reply (fix_rep (v_rep v))"
  "v_in (error_replied v) = v_in v" "v_client (error_replied v) = v_client v"
  "v_server (error_replied v) = v_server v" "v_access (error_replied v) = v_access v"
  "v_info (error_replied v) = (v_info v)\<lparr>i_rep := fix_rep (v_rep v)\<rparr>"
  "v_trace (error_replied v) = v_trace v @ waiting_send v"
  by (simp_all add: error_replied_def)

lemma replied_room:
  assumes "replied e d v c" and "mod_ok e" and "length (v_out v) + 10 \<le> OUTBUFFSIZE"
  shows "well_formed c" and "view c = error_replied v"
  using assms by (auto simp: replied_def)

lemma wp_run_command:
  assumes wf: "well_formed c" and d: "d = Client"
    and os: "os_ok e (v_client (view c))" and cf: "configs_ok configs" and ok: "mod_ok e"
    and room: "length (v_out (view c)) + 32 \<le> OUTBUFFSIZE"
    and Q: "\<And>c'. well_formed c' \<Longrightarrow> run_outcome configs (view c) (view c') \<Longrightarrow> Q (0, c')"
  shows "wp (run_command e d configs c) Q"
proof (cases "firewall (v_info (view c)) configs")
  case True
  have "Q (0, c')" if "replied e d (refusing REP_RULESET [Sys_log_access A_FIREWALLDROP (v_access (view c))] (view c)) c'" for c'
    using replied_room [OF that ok] room True by (intro Q) (simp_all add: run_outcome_def)
  with True wf d show ?thesis
    by (auto simp: run_command_def wf_simps refusing_def
        intro!: wp_log_access wp_reply_rep [where fd = "v_client (view c)"])
next
  case False
  have rest: "wp (do { info \<leftarrow> get_info c';
      if i_rep info \<noteq> 0xFF \<and> i_rep info \<noteq> REP_SUCCESS then do {
        c \<leftarrow> reply_with_err e d c';
        Some (0, c) }
      else Some (0, c') }) Q"
    if c': "well_formed c'"
      and r: "length (v_out (view c')) + 10 \<le> OUTBUFFSIZE"
      and goal: "\<And>c''. well_formed c'' \<Longrightarrow>
        view c'' = (if needs_reply (v_rep (view c')) then error_replied (view c') else view c') \<Longrightarrow> Q (0, c'')" for c'
  proof (cases "needs_reply (v_rep (view c'))")
    case True
    have "Q (0, c'')" if "replied e d (view c') c''" for c''
      using replied_room [OF that ok r] True by (intro goal) simp_all
    with c' d True show ?thesis
      by (auto simp: wf_simps needs_reply_def intro!: wp_reply_with_err [where fd = "v_client (view c')"])
  next
    case no: False
    with c' goal [OF c'] show ?thesis by (auto simp: wf_simps needs_reply_def)
  qed
  show ?thesis
    unfolding run_command_def wf_info [OF wf] bind.simps if_not_P [OF False]
  proof (subst wp_bind, rule wp_init_command [OF wf _ os cf, of d "v_client (view c)"])
    fix c'
    assume en: "command_enabled configs (i_cmd (v_info (view c)))" and c': "well_formed c'"
      and co: "command_outcome (view c) (view c')"
    with c' co False en room show "wp (do { info \<leftarrow> get_info c';
      if i_rep info \<noteq> 0xFF \<and> i_rep info \<noteq> REP_SUCCESS then do {
        c \<leftarrow> reply_with_err e d c';
        Some (0, c) }
      else Some (0, c') }) Q"
      by (intro rest Q) (auto simp: run_outcome_def command_outcome_def)
  next
    fix c'
    let ?r = "refusing REP_BADCOMM (command_log (i_cmd (v_info (view c))) (v_access (view c))) (view c)"
    assume en: "\<not> command_enabled configs (i_cmd (v_info (view c)))" and r: "replied e d ?r c'"
    have c': "well_formed c'" "view c' = error_replied ?r"
      using replied_room [OF r ok] room by simp_all
    have "needs_reply (v_rep (view c'))"
      unfolding c'(2) by (simp add: needs_reply_def rep_consts fix_rep_def)
    with c' False en room show "wp (do { info \<leftarrow> get_info c';
      if i_rep info \<noteq> 0xFF \<and> i_rep info \<noteq> REP_SUCCESS then do {
        c \<leftarrow> reply_with_err e d c';
        Some (0, c) }
      else Some (0, c') }) Q"
      by (intro rest [OF c'(1)] Q) (auto simp: run_outcome_def)
  qed (simp add: d)
qed

section \<open>Parsing the request\<close>

text \<open>The address of a complete request and the connection once it is stored.\<close>

definition request_sa :: "byte list \<Rightarrow> sockaddr" where
  "request_sa q =
    (if q ! 3 = ATYP_IPV4 then SIN (take 4 (drop 4 q)) (take 2 (drop 8 q))
     else SIN6 (take 16 (drop 4 q)) (take 2 (drop 20 q)))"

definition request_info :: "byte list \<Rightarrow> Info \<Rightarrow> Info" where
  "request_info q info = info\<lparr>i_cmd := q ! 1, i_atyp := q ! 3\<rparr>"

definition parsed :: "view \<Rightarrow> view" where
  "parsed v = v\<lparr>v_info := (request_info (v_in v) (v_info v))\<lparr>i_sa := Some (request_sa (v_in v))\<rparr>,
     v_trace := v_trace v @ [Sys_malloc True]\<rparr>"

text \<open>
  The outcome of a complete request for an address: the connection is closed on a wrong version,
  the allocation of the address fails (the only result other than \<open>0\<close>), or the request is run;
  \<open>R\<close> is what running it does to the connection.
\<close>

type_synonym result = "int \<times> conn"

definition ran :: "Configs \<Rightarrow> view \<Rightarrow> result \<Rightarrow> bool" where
  "ran configs v r \<longleftrightarrow> fst r = 0 \<and> well_formed (snd r) \<and> run_outcome configs v (view (snd r))"

definition handle_outcome :: "os \<Rightarrow> (view \<Rightarrow> result \<Rightarrow> bool) \<Rightarrow> view \<Rightarrow> result \<Rightarrow> bool" where
  "handle_outcome e R v r \<longleftrightarrow> (case r of (ret, c) \<Rightarrow>
    if v_in v ! 0 \<noteq> SOCKS5_VERSION then ret = 0 \<and> released Client v c
    else if \<not> os_malloc e (length (v_trace v))
    then ret = -1 \<and> well_formed c \<and>
      view c = v\<lparr>v_info := request_info (v_in v) (v_info v),
        v_trace := v_trace v @ [Sys_malloc False, Sys_log_error L_MALLOCERROR]\<rparr>
    else R (parsed v) r)"

lemma request_len_Some:
  assumes "\<not> allow_domains configs" and "request_len configs q = Some n"
  shows "q ! 3 = ATYP_IPV4 \<and> n = 10 \<or> q ! 3 = ATYP_IPV6 \<and> n = 22"
  using assms by (auto simp: request_len_def Let_def split: if_splits)

lemma request_len_cong:
  "q ! 3 = q' ! 3 \<Longrightarrow> q ! 4 = q' ! 4 \<Longrightarrow> request_len configs q = request_len configs q'"
  by (simp add: request_len_def Let_def)

text \<open>The local copy of the request agrees with the queue on the bytes that arrived.\<close>

lemma request_copy:
  assumes "n \<le> length q" and "i < n" and "n \<le> 300"
  shows "zero_filled 300 (take 300 q) ! i = q ! i"
  using assms by (simp add: zero_filled_nth)

lemma request_copy_slice:
  assumes "i + k \<le> length q" and "i + k \<le> 300"
  shows "take k (drop i (zero_filled 300 (take 300 q))) = take k (drop i q)"
proof -
  have "take k (drop i (zero_filled 300 (take 300 q))) = take k (drop i (take 300 q))"
    using assms by (intro take_drop_zero_filled) simp
  also have "\<dots> = take k (drop i q)"
    using assms by (simp add: drop_take)
  finally show ?thesis .
qed

lemma wp_handle_request:
  assumes wf: "well_formed c" and d: "d = Client" and q: "v_in (view c) = q"
    and len: "q ! 3 = ATYP_IPV4 \<and> 10 \<le> length q \<or> q ! 3 = ATYP_IPV6 \<and> 22 \<le> length q"
    and run: "\<And>c'. well_formed c' \<Longrightarrow> view c' = parsed (view c) \<Longrightarrow> wp (run_command e d configs c') (R (parsed (view c)))"
    and Q: "\<And>r. handle_outcome e R (view c) r \<Longrightarrow> Q r"
  shows "wp (handle_request e d configs (zero_filled 300 (take 300 q)) c) Q"
proof -
  define req where "req = zero_filled 300 (take 300 q)"
  let ?v = "view c"
  have l: "10 \<le> length q" using len by auto
  have bytes: "req ! 0 = q ! 0" "req ! 1 = q ! 1" "req ! 3 = q ! 3"
    using request_copy [OF l] unfolding req_def by simp_all
  have distinct: "ATYP_IPV6 \<noteq> ATYP_IPV4" "ATYP_DOMN \<noteq> ATYP_IPV4" "ATYP_IPV6 \<noteq> ATYP_DOMN"
    by (simp_all add: socks_consts)
  define sa where "sa = request_sa q"
  have sa4: "SIN (take 4 (drop 4 req)) (take 2 (drop 8 req)) = sa" if "q ! 3 = ATYP_IPV4"
    using that l request_copy_slice [of 4 4 q] request_copy_slice [of 8 2 q]
    by (simp add: sa_def request_sa_def req_def)
  have sa6: "SIN6 (take 16 (drop 4 req)) (take 2 (drop 20 req)) = sa" if "q ! 3 = ATYP_IPV6"
    using that len distinct request_copy_slice [of 4 16 q] request_copy_slice [of 20 2 q]
    by (auto simp: sa_def request_sa_def req_def)
  have eq: "handle_request e d configs req c = do {
      c \<leftarrow> upd_info (request_info q) c;
      if vercheck (q ! 0) then do {
        c \<leftarrow> log_access A_VERSIONFAIL c;
        c \<leftarrow> handshake_err e d c;
        Some (0, c) }
      else let (ok, c) = sys_malloc e c in
        if \<not> ok then Some (-1, log_error L_MALLOCERROR c)
        else do { c \<leftarrow> set_sa sa c; run_command e d configs c } }"
    using len distinct sa4 sa6 unfolding handle_request_def Let_def bytes
    by (auto simp: request_info_def [abs_def] split: prod.split intro!: Option.bind_cong)
  show ?thesis
    unfolding req_def [symmetric] eq
  proof (subst wp_bind, rule wp_upd_info [OF wf])
    fix c1
    assume 1: "well_formed c1" "view c1 = ?v\<lparr>v_info := request_info q (v_info ?v)\<rparr>"
    show "wp (if vercheck (q ! 0) then do {
        c \<leftarrow> log_access A_VERSIONFAIL c1;
        c \<leftarrow> handshake_err e d c;
        Some (0, c) }
      else let (ok, c) = sys_malloc e c1 in
        if \<not> ok then Some (-1, log_error L_MALLOCERROR c)
        else do { c \<leftarrow> set_sa sa c; run_command e d configs c }) Q"
    proof (cases "q ! 0 = SOCKS5_VERSION")
      case False
      with 1 d q show ?thesis
        by (auto simp: vercheck_def handle_outcome_def
            intro!: wp_log_access wp_handshake_err [where fd = "v_client ?v"] Q)
    next
      case True
      show ?thesis
      proof (cases "os_malloc e (length (v_trace ?v))")
        case False
        with True 1 q show ?thesis
          by (auto simp: vercheck_def handle_outcome_def sys_malloc_def now_view log_error_def Let_def intro!: Q)
      next
        case m: True
        have "wp (do { c \<leftarrow> set_sa sa (emit (Sys_malloc True) c1); run_command e d configs c }) Q"
          unfolding set_sa_def
        proof (subst wp_bind, rule wp_upd_info)
          fix c2
          assume 2: "well_formed c2" "view c2 = (view (emit (Sys_malloc True) c1))
              \<lparr>v_info := (v_info (view (emit (Sys_malloc True) c1)))\<lparr>i_sa := Some sa\<rparr>\<rparr>"
          have v2: "view c2 = parsed ?v" using 1(2) 2(2) q by (simp add: parsed_def sa_def)
          show "wp (run_command e d configs c2) Q"
            by (rule wp_mono [OF run [OF 2(1) v2]])
              (use True m q in \<open>auto intro!: Q simp: handle_outcome_def\<close>)
        qed (use 1 in simp)
        with True 1 m show ?thesis
          by (simp add: vercheck_def sys_malloc_def now_view Let_def)
      qed
    qed
  qed
qed

section \<open>waitingcommand\<close>

text \<open>What \<^verbatim>\<open>waitingcommand\<close> does with the bytes in the queue.\<close>

definition request_outcome :: "os \<Rightarrow> Configs \<Rightarrow> (view \<Rightarrow> result \<Rightarrow> bool) \<Rightarrow> view \<Rightarrow> result \<Rightarrow> bool" where
  "request_outcome e configs R v r \<longleftrightarrow>
    (if length (v_in v) < 5 then fst r = 0 \<and> well_formed (snd r) \<and> view (snd r) = v
     else case request_len configs (v_in v) of
       None \<Rightarrow> fst r = 0 \<and> well_formed (snd r) \<and> view (snd r) = error_replied (refusing REP_BADATYP [] v)
     | Some n \<Rightarrow>
       if length (v_in v) < n then fst r = 0 \<and> well_formed (snd r) \<and> view (snd r) = v
       else handle_outcome e R v r)"

definition waitcommand_outcome ::
  "os \<Rightarrow> side \<Rightarrow> Configs \<Rightarrow> (view \<Rightarrow> result \<Rightarrow> bool) \<Rightarrow> 32 word \<Rightarrow> view \<Rightarrow> result \<Rightarrow> bool" where
  "waitcommand_outcome e d configs R ev v r \<longleftrightarrow>
    (if ev AND EPOLLIN = 0 \<or> d \<noteq> Client then fst r = 0 \<and> well_formed (snd r) \<and> view (snd r) = v
     else case received e (v_client v) v of
       None \<Rightarrow> fst r = 0 \<and> released Client v (snd r)
     | Some bs \<Rightarrow>
       if bs = [] then fst r = 0 \<and> released Client v (snd r)
       else request_outcome e configs R (after_recv (v_client v) bs v) r)"

lemma wp_read_request:
  assumes wf: "well_formed c" and d: "d = Client"
    and ok: "mod_ok e" and dom: "\<not> allow_domains configs" and room: "length (v_out (view c)) + 10 \<le> OUTBUFFSIZE"
    and run: "\<And>c'. well_formed c' \<Longrightarrow> view c' = parsed (view c) \<Longrightarrow> wp (run_command e d configs c') (R (parsed (view c)))"
    and Q: "\<And>r. request_outcome e configs R (view c) r \<Longrightarrow> Q r"
  shows "wp (read_request e d configs c) Q"
proof -
  let ?v = "view c"
  define q where "q = v_in ?v"
  show ?thesis
  proof (cases "length q < 5")
    case True
    with wf show ?thesis
      by (auto simp: read_request_def wf_simps q_def request_outcome_def intro!: Q)
  next
    case False
    then have l: "5 \<le> length q" by simp
    have len: "request_len configs (zero_filled 300 (take 300 q)) = request_len configs q"
      using request_copy [OF l] by (intro request_len_cong) simp_all
    show ?thesis
    proof (cases "request_len configs q")
      case None
      have fin: "Q (0, c')" if "replied e d (refusing REP_BADATYP [] ?v) c'" for c'
        using replied_room [OF that ok] room False None
        by (intro Q) (simp add: request_outcome_def q_def)
      have "wp (do { c \<leftarrow> reply_rep e d REP_BADATYP c; Some (0, c) }) Q"
        unfolding wp_bind
        using wf d by (auto intro!: wp_reply_rep [where fd = "v_client ?v"] fin simp: refusing_def)
      with wf False None len q_def show ?thesis by (auto simp: read_request_def wf_simps Let_def)
    next
      case (Some n)
      note n = request_len_Some [OF dom Some]
      show ?thesis
      proof (cases "length q < n")
        case True
        with wf False Some len n q_def show ?thesis
          by (auto simp: read_request_def wf_simps Let_def request_outcome_def intro!: Q)
      next
        case no: False
        have "wp (handle_request e d configs (zero_filled 300 (take 300 q)) c) Q"
          using wf d q_def [symmetric]
        proof (rule wp_handle_request [where R = R])
          show "Q r" if "handle_outcome e R ?v r" for r
            using that False Some no by (intro Q) (simp add: request_outcome_def q_def)
        qed (use n no run in auto)
        with wf False Some len no n q_def show ?thesis by (auto simp: read_request_def wf_simps Let_def)
      qed
    qed
  qed
qed

lemma wp_waitingcommand:
  assumes wf: "well_formed c" and d: "side_fd d (view c) = Some fd"
    and ok: "mod_ok e" and dom: "\<not> allow_domains configs" and room: "length (v_out (view c)) + 10 \<le> OUTBUFFSIZE"
    and res: "i_resolver_ret (v_info (view c)) = -1"
    and run: "\<And>c' bs. d = Client \<Longrightarrow> received e (v_client (view c)) (view c) = Some bs \<Longrightarrow> well_formed c' \<Longrightarrow>
      view c' = parsed (after_recv (v_client (view c)) bs (view c)) \<Longrightarrow>
      wp (run_command e d configs c') (R (parsed (after_recv (v_client (view c)) bs (view c))))"
    and Q: "\<And>r. waitcommand_outcome e d configs R ev (view c) r \<Longrightarrow> Q r"
  shows "wp (waitingcommand e d configs ev c) Q"
proof (cases "not_for ev EPOLLIN (peer fd) (v_client (view c))")
  case True
  then have "ev AND EPOLLIN = 0 \<or> d \<noteq> Client"
    using d by (cases d) (auto simp: not_for_def)
  with True wf d show ?thesis
    by (auto simp: waitingcommand_def wf_simps waitcommand_outcome_def intro!: Q)
next
  case False
  from not_for_client [OF wf d False] have dc: "d = Client" "fd = v_client (view c)" by blast+
  from False have ev: "ev AND EPOLLIN \<noteq> 0" by (simp add: not_for_def)
  have eof: "Q (0, c')" if "received e (v_client (view c)) (view c) = None \<or>
      received e (v_client (view c)) (view c) = Some []" "released d (view c) c'" for c'
    using that ev dc by (auto simp: waitcommand_outcome_def intro!: Q)
  have data: "wp (case (True, c') of (go, c) \<Rightarrow> if \<not> go then Some (0, c) else read_request e d configs c) Q"
    if bs: "received e fd (view c) = Some bs" "bs \<noteq> []" and c': "well_formed c'" "view c' = after_recv fd bs (view c)"
    for c' bs
    unfolding case_prod_conv simp_thms if_False
  proof (rule wp_read_request [OF c'(1) dc(1) ok dom, where R = R])
    show "length (v_out (view c')) + 10 \<le> OUTBUFFSIZE"
      using room c'(2) by (simp add: after_recv_def)
    show "wp (run_command e d configs c'') (R (parsed (view c')))"
      if "well_formed c''" "view c'' = parsed (view c')" for c''
      using run [OF dc(1) _ that(1)] that(2) bs c'(2) dc by simp
    show "Q r" if "request_outcome e configs R (view c') r" for r
      using that bs ev dc c'(2) by (intro Q) (simp add: waitcommand_outcome_def)
  qed
  have "wp (do { (go, c) \<leftarrow> recv_handshake e d c;
      if \<not> go then Some (0, c) else read_request e d configs c }) Q"
  proof (subst wp_bind, rule wp_recv_handshake [OF wf d])
    show "wp (case (False, c') of (go, c) \<Rightarrow> if \<not> go then Some (0, c) else read_request e d configs c) Q"
      if "received e fd (view c) = None \<or> received e fd (view c) = Some []" "released d (view c) c'" for c'
      using that dc by (simp add: eof)
  qed (rule data)
  with wf d False res show ?thesis
    unfolding waitingcommand_def by (simp add: wf_simps Let_def)
qed

lemma wp_run_ran:
  assumes "well_formed c" and "d = Client" and "os_ok e (v_client (view c))" and "configs_ok configs"
    and "mod_ok e" and "length (v_out (view c)) + 32 \<le> OUTBUFFSIZE"
  shows "wp (run_command e d configs c) (ran configs (view c))"
  using assms by (intro wp_run_command) (simp_all add: ran_def)

end
