(* ===== verification/Replies.thy ===== *)
theory Replies
  imports Requests
begin

text \<open>
  The states after a command has started, on the view of a connection: \<^verbatim>\<open>sendingreply\<close>,
  \<^verbatim>\<open>connecting\<close> and \<^verbatim>\<open>bindlistening\<close> of \<^verbatim>\<open>src/socks.c\<close>.
\<close>

section \<open>sendingreply\<close>

text \<open>Where a connection goes once a success reply is out.\<close>

definition after_reply :: "view \<Rightarrow> view" where
  "after_reply v =
    (if i_cmd (v_info v) = CMD_CONN
     then v\<lparr>v_trace := v_trace v @ [Sys_log_access A_CONNECTED (v_access v)], v_state := STATE_FULL\<rparr>
     else if i_cmd (v_info v) = CMD_BIND then
       (if v_state v = STATE_SENDING_REPLY
        then v\<lparr>v_info := (v_info v)\<lparr>i_rep := 0xFF\<rparr>, v_state := STATE_BIND_LISTENING\<rparr>
        else if v_state v = STATE_SENDING_REPLY_2
        then v\<lparr>v_trace := v_trace v @ [Sys_log_access A_BINDCONNECTED (v_access v)], v_state := STATE_FULL\<rparr>
        else v)
     else if i_cmd (v_info v) = CMD_UDPA then v\<lparr>v_state := STATE_FULL_UDPA\<rparr>
     else v)"

lemma after_reply_client [simp]:
  "v_client (after_reply v) = v_client v" "v_server (after_reply v) = v_server v"
  by (simp_all add: after_reply_def)

definition sendreply_outcome :: "os \<Rightarrow> side \<Rightarrow> 32 word \<Rightarrow> view \<Rightarrow> conn \<Rightarrow> bool" where
  "sendreply_outcome e d ev v c \<longleftrightarrow>
    (if ev AND EPOLLOUT = 0 \<or> d \<noteq> Client then well_formed c \<and> view c = v
     else unsent e Client (v_client v) 300 v c \<or>
       sent e (v_client v) 300 v = Some (length (take 300 (v_out v))) \<and>
       (if v_rep v \<noteq> REP_SUCCESS then released Client v c
        else well_formed c \<and> view c = after_reply (flushed (v_client v) Client 300 v)))"

lemma wp_sendingreply:
  assumes wf: "well_formed c" and d: "side_fd d (view c) = Some fd"
    and Q: "\<And>c'. sendreply_outcome e d ev (view c) c' \<Longrightarrow> Q c'"
  shows "wp (sendingreply e d ev c) Q"
proof (cases "not_for ev EPOLLOUT (peer fd) (v_client (view c))")
  case True
  then have "ev AND EPOLLOUT = 0 \<or> d \<noteq> Client"
    using d by (cases d) (auto simp: not_for_def)
  with True wf d show ?thesis
    by (auto simp: sendingreply_def wf_simps sendreply_outcome_def intro!: Q)
next
  case False
  from not_for_client [OF wf d False] have dc: "d = Client" "fd = v_client (view c)" by blast+
  from False have ev: "ev AND EPOLLOUT \<noteq> 0" by (simp add: not_for_def)
  have early: "Q c'" if "unsent e d fd 300 (view c) c'" for c'
    using that ev dc by (auto simp: sendreply_outcome_def intro!: Q)
  have rest: "wp (reply_sent e d c') Q"
    if "well_formed c'" "view c' = flushed fd d 300 (view c)"
      "sent e fd 300 (view c) = Some (length (take 300 (v_out (view c))))" for c'
    using that ev dc
    by (auto simp: reply_sent_def wf_simps sendreply_outcome_def after_reply_def
        intro!: wp_log_access wp_set_rep wp_set_state wp_handshake_err [where fd = "v_client (view c)"] Q)
  show ?thesis
    unfolding sendingreply_def wp_bind
  proof (rule wp_get_data [OF wf d], simp only: wf_shared [OF wf] wp_Some wf_client_fd [OF wf] False if_False wp_bind,
      rule wp_send_handshake [OF wf d])
    fix c'
    assume "sent e fd 300 (view c) = Some (length (take 300 (v_out (view c))))" "well_formed c'"
      "view c' = (let v = after_send fd 300 (length (take 300 (v_out (view c)))) (view c)
        in v\<lparr>v_trace := v_trace v @ done_sending fd d\<rparr>)"
    then show "wp (case (True, c') of (go, c) \<Rightarrow> if \<not> go then Some c else reply_sent e d c) Q"
      using rest [of c'] by (simp add: flushed_def)
  qed (use early in simp)
qed

section \<open>connecting\<close>

text \<open>The view with the next address of the list chosen, when there is a list.\<close>

definition next_address :: "view \<Rightarrow> view" where
  "next_address v =
    (if length (i_ai (v_info v)) > 1
     then v\<lparr>v_info := (v_info v)\<lparr>i_ai_index := i_ai_index (v_info v) + 1\<rparr>\<rparr> else v)"

lemma next_address_simps [simp]:
  "v_state (next_address v) = v_state v" "v_out (next_address v) = v_out v"
  "v_in (next_address v) = v_in v" "v_client (next_address v) = v_client v"
  "v_server (next_address v) = v_server v" "v_rep (next_address v) = v_rep v"
  "i_ai (v_info (next_address v)) = i_ai (v_info v)"
  "i_method (v_info (next_address v)) = i_method (v_info v)"
  "i_cmd (v_info (next_address v)) = i_cmd (v_info v)" "v_trace (next_address v) = v_trace v"
  by (simp_all add: next_address_def)

definition connect_failed_outcome :: "os \<Rightarrow> side \<Rightarrow> int \<Rightarrow> view \<Rightarrow> conn \<Rightarrow> bool" where
  "connect_failed_outcome e d error v c \<longleftrightarrow>
    (if length (i_ai (v_info v)) > 1 \<and> i_ai_index (v_info v) + 1 < length (i_ai (v_info v))
     then well_formed c \<and> (\<exists>fd r. side_fd d v = Some fd \<and>
       view c = (next_address v)\<lparr>v_trace := v_trace v @
         [Sys_connect fd (ai_addr (i_ai (v_info v) ! (i_ai_index (v_info v) + 1))) r]\<rparr>)
     else replied e d (refusing (errno_rep error) [] (next_address v)) c)"

lemma wp_connect_failed:
  assumes wf: "well_formed c" and d: "side_fd d (view c) = Some fd"
    and Q: "\<And>c'. connect_failed_outcome e d error (view c) c' \<Longrightarrow> Q c'"
  shows "wp (connect_failed e d error c) Q"
  using wf d
  by (auto simp: connect_failed_def wf_simps sys_connect_def Let_def connect_failed_outcome_def
      next_address_def refusing_def now_view
      intro!: wp_upd_info wp_reply_rep [where fd = fd] Q)

text \<open>The view once the connection to the server is up and the reply is queued.\<close>

definition connected :: "fd \<Rightarrow> sockaddr \<Rightarrow> view \<Rightarrow> view" where
  "connected sfd ss v =
    v\<lparr>v_info := (v_info v)\<lparr>i_rep := REP_SUCCESS\<rparr>, v_access := (v_access v)\<lparr>al_server := Some ss\<rparr>,
      v_out := v_out v @ [SOCKS5_VERSION, REP_SUCCESS, SOCKS5_RESV] @ addr_bytes ss (the (sa_port ss)),
      v_state := STATE_SENDING_REPLY,
      v_trace := v_trace v @ [Sys_getsockopt sfd (Some 0), Sys_getsockname sfd (Some ss)] @
        waiting_send v @ done_sending sfd Server\<rparr>"

definition connecting_outcome :: "os \<Rightarrow> side \<Rightarrow> 32 word \<Rightarrow> view \<Rightarrow> conn \<Rightarrow> bool" where
  "connecting_outcome e d ev v c \<longleftrightarrow>
    (if ev AND EPOLLOUT = 0 \<or> d \<noteq> Server then well_formed c \<and> view c = v
     else \<exists>sfd. v_server v = Some sfd \<and>
       (let n = length (v_trace v) in
        case os_getsockopt e n sfd of
          None \<Rightarrow> replied e Server (refusing REP_GENFAIL [Sys_getsockopt sfd None, Sys_log_error L_GETSOCKOPTFAIL] v) c
        | Some error \<Rightarrow>
          if error = 0 then
            (case os_getsockname e (Suc n) sfd of
               None \<Rightarrow> replied e Server (refusing REP_GENFAIL
                 [Sys_getsockopt sfd (Some 0), Sys_getsockname sfd None, Sys_log_error L_GETSOCKNAMEFAIL] v) c
             | Some ss \<Rightarrow> well_formed c \<and> view c = connected sfd ss v)
          else connect_failed_outcome e Server error
            (v\<lparr>v_trace := v_trace v @ [Sys_getsockopt sfd (Some error)]\<rparr>) c))"

lemma not_for_server:
  assumes "well_formed c" and "side_fd d (view c) = Some fd" and sv: "v_server (view c) = Some sfd"
  shows "not_for ev flag (peer fd) (s_server_fd (the_shared c)) \<longleftrightarrow> ev AND flag = 0 \<or> d \<noteq> Server"
    and "d = Server \<Longrightarrow> fd = sfd"
  using assms wf_server_ne [OF assms(1)] wf_server_fd [OF assms(1) sv]
  by (cases d; auto simp: not_for_def)+

lemma queued_fits: "queued q xs q' \<Longrightarrow> length q + length xs \<le> OUTBUFFSIZE \<Longrightarrow> q' = q @ xs"
  by (simp add: queued_def)

lemma wp_wake_ok:
  assumes "well_formed c" and "mod_ok e"
    and "\<And>c'. well_formed c' \<Longrightarrow> view c' = (view c)\<lparr>v_trace := v_trace (view c) @ waiting_send (view c)\<rparr> \<Longrightarrow> Q (0, c')"
  shows "wp (wake_client e c) Q"
  using assms by (auto intro!: wp_wake_client)

lemma wp_connected_reply:
  assumes wf: "well_formed c" and ok: "mod_ok e" and sv: "v_server (view c) = Some sfd"
    and room: "length (v_out (view c)) + length (atyp # addr @ port) \<le> OUTBUFFSIZE"
    and Q: "\<And>c'. well_formed c' \<Longrightarrow> view c' = (view c)\<lparr>v_out := v_out (view c) @ atyp # addr @ port,
      v_trace := v_trace (view c) @ waiting_send (view c) @ done_sending sfd Server\<rparr> \<Longrightarrow> Q c'"
  shows "wp (connected_reply e Server atyp addr port c) Q"
  unfolding connected_reply_def
proof (subst wp_bind, rule wp_get_data [OF wf], simp add: sv,
    subst wp_bind, rule wp_write_rep_addr [OF wf], subst wp_bind, rule wp_wake_ok [OF _ ok])
  fix c1 q1 c2
  assume 1: "view c1 = (view c)\<lparr>v_out := q1\<rparr>" "queued (v_out (view c)) (atyp # addr @ port) q1"
    and 2: "well_formed c2" "view c2 = (view c1)\<lparr>v_trace := v_trace (view c1) @ waiting_send (view c1)\<rparr>"
  have "q1 = v_out (view c) @ atyp # addr @ port" using 1(2) room by (rule queued_fits)
  with 1 2 show "wp (case (0 :: int, c2) of (ret, c) \<Rightarrow>
      if ret = -1 then reply_rep e Server REP_GENFAIL c
      else do {
        let (ret, c) = ep_done_sending e (d_self_fd (peer sfd)) Server c;
        (if ret = -1 then reply_rep e Server REP_GENFAIL c else Some c) }) Q"
    using ok by (auto simp: ep_done_sending_def epoll_ctl_def Let_def mod_ok_def done_sending_def intro!: Q)
qed

lemma wp_connect_done:
  assumes wf: "well_formed c" and ok: "mod_ok e" and os: "os_ok e cfd" and sv: "v_server (view c) = Some sfd"
    and room: "length (v_out (view c)) + 22 \<le> OUTBUFFSIZE"
    and name: "os_getsockname e (length (v_trace (view c))) sfd = Some ss"
    and Q: "\<And>c'. well_formed c' \<Longrightarrow> view c' = (view c)\<lparr>v_info := (v_info (view c))\<lparr>i_rep := REP_SUCCESS\<rparr>,
      v_access := (v_access (view c))\<lparr>al_server := Some ss\<rparr>,
      v_out := v_out (view c) @ [SOCKS5_VERSION, REP_SUCCESS, SOCKS5_RESV] @ addr_bytes ss (the (sa_port ss)),
      v_state := STATE_SENDING_REPLY,
      v_trace := v_trace (view c) @ Sys_getsockname sfd (Some ss) # waiting_send (view c) @ done_sending sfd Server\<rparr> \<Longrightarrow>
      Q c'"
  shows "wp (connect_done e Server sfd c) Q"
  unfolding connect_done_def
proof (subst wp_bind, rule wp_set_rep [OF wf])
  fix c1
  assume 1: "well_formed c1" "view c1 = (view c)\<lparr>v_info := (v_info (view c))\<lparr>i_rep := REP_SUCCESS\<rparr>\<rparr>"
  let ?c1 = "emit (Sys_getsockname sfd (Some ss)) c1"
  have ev: "sys_getsockname e sfd c1 = (Some ss, ?c1)"
    using 1(2) name by (simp add: sys_getsockname_def now_view Let_def)
  obtain port where port: "sa_port ss = Some port" "length port = 2" using os_okD(5) [OF os name] by blast
  have len: "length (addr_bytes ss port) \<le> 19"
    using addr_bytes_le [OF os_okD(4) [OF os name], of port] port by simp
  have "wp (do {
          c \<leftarrow> set_server_addr ss ?c1;
          c \<leftarrow> write_rep_info REP_SUCCESS c;
          c \<leftarrow> set_state STATE_SENDING_REPLY c;
          case ss of
            SIN addr port \<Rightarrow> connected_reply e Server ATYP_IPV4 addr port c
          | SIN6 addr port \<Rightarrow> connected_reply e Server ATYP_IPV6 addr port c
          | SA_OTHER _ \<Rightarrow> connect_failed e Server 0 c }) Q"
    unfolding set_server_addr_def
  proof (subst wp_bind, rule wp_set_server_addr, simp add: 1(1),
      subst wp_bind, rule wp_write_rep_info, assumption, subst wp_bind, rule wp_set_state, assumption)
    fix c2 c3 c4 q
    assume 2: "view c2 = (view ?c1)\<lparr>v_access := (v_access (view ?c1))\<lparr>al_server := Some ss\<rparr>\<rparr>"
      and 3: "view c3 = (view c2)\<lparr>v_out := q\<rparr>" "queued (v_out (view c2)) [SOCKS5_VERSION, REP_SUCCESS, SOCKS5_RESV] q"
      and 4: "well_formed c4" "view c4 = (view c3)\<lparr>v_state := STATE_SENDING_REPLY\<rparr>"
    have q: "q = v_out (view c) @ [SOCKS5_VERSION, REP_SUCCESS, SOCKS5_RESV]"
      using queued_fits [OF 3(2)] room 1(2) 2 by simp
    have v4: "view c4 = (view c)\<lparr>v_info := (v_info (view c))\<lparr>i_rep := REP_SUCCESS\<rparr>,
      v_access := (v_access (view c))\<lparr>al_server := Some ss\<rparr>, v_out := q,
      v_state := STATE_SENDING_REPLY, v_trace := v_trace (view c) @ [Sys_getsockname sfd (Some ss)]\<rparr>"
      using 1 2 3(1) 4(2) by simp
    show "wp (case ss of
            SIN addr port \<Rightarrow> connected_reply e Server ATYP_IPV4 addr port c4
          | SIN6 addr port \<Rightarrow> connected_reply e Server ATYP_IPV6 addr port c4
          | SA_OTHER _ \<Rightarrow> connect_failed e Server 0 c4) Q"
      using port len 4(1) sv room
      by (cases ss) (auto intro!: wp_connected_reply [where sfd = sfd] ok Q simp: v4 q waiting_send_def)
  qed
  then show "wp (let (name, c) = sys_getsockname e sfd c1 in
      case name of
        None \<Rightarrow> reply_rep e Server REP_GENFAIL (log_error L_GETSOCKNAMEFAIL c)
      | Some ss \<Rightarrow> do {
          c \<leftarrow> set_server_addr ss c;
          c \<leftarrow> write_rep_info REP_SUCCESS c;
          c \<leftarrow> set_state STATE_SENDING_REPLY c;
          case ss of
            SIN addr port \<Rightarrow> connected_reply e Server ATYP_IPV4 addr port c
          | SIN6 addr port \<Rightarrow> connected_reply e Server ATYP_IPV6 addr port c
          | SA_OTHER _ \<Rightarrow> connect_failed e Server 0 c }) Q"
    by (simp only: ev Let_def case_prod_conv option.case)
qed

lemma wp_connecting:
  assumes wf: "well_formed c" and d: "side_fd d (view c) = Some fd" and ok: "mod_ok e"
    and os: "os_ok e cfd" and sv: "v_server (view c) = Some sfd"
    and room: "length (v_out (view c)) + 22 \<le> OUTBUFFSIZE"
    and Q: "\<And>c'. connecting_outcome e d ev (view c) c' \<Longrightarrow> Q c'"
  shows "wp (connecting e d ev c) Q"
proof (cases "ev AND EPOLLOUT = 0 \<or> d \<noteq> Server")
  case True
  with wf d not_for_server [OF wf d sv] show ?thesis
    by (auto simp: connecting_def wf_simps connecting_outcome_def intro!: Q)
next
  case False
  then have ev: "ev AND EPOLLOUT \<noteq> 0" and ds: "d = Server" by auto
  note out = Q [unfolded connecting_outcome_def]
  let ?n = "length (v_trace (view c))" and ?opt = "os_getsockopt e (length (v_trace (view c))) sfd"
  let ?c = "emit (Sys_getsockopt sfd ?opt) c"
  have sys: "sys_getsockopt e sfd c = (?opt, ?c)"
    by (simp add: sys_getsockopt_def now_view Let_def)
  have eq: "connecting e d ev c = (case ?opt of
        None \<Rightarrow> reply_rep e Server REP_GENFAIL (log_error L_GETSOCKOPTFAIL ?c)
      | Some error \<Rightarrow> if error = 0 then connect_done e Server sfd ?c else connect_failed e Server error ?c)"
    using ev ds wf d sv not_for_server [OF wf d sv] sys
    unfolding connecting_def by (simp add: wf_simps cong: option.case_cong if_cong)
  show ?thesis
  proof (cases ?opt)
    case None
    with wf sv ev ds show ?thesis
      unfolding eq by (auto simp: log_error_def refusing_def intro!: wp_reply_rep [where fd = sfd] out)
  next
    case (Some error)
    show ?thesis
    proof (cases "error = 0")
      case False
      have "wp (connect_failed e Server error ?c) Q"
        using wf sv Some False ev ds by (intro wp_connect_failed [where fd = sfd] out) simp_all
      with Some False show ?thesis unfolding eq by simp
    next
      case True
      have "wp (connect_done e Server sfd ?c) Q"
      proof (cases "os_getsockname e (Suc ?n) sfd")
        case None
        with wf sv Some True ev ds show ?thesis
          by (auto simp: connect_done_def log_error_def sys_getsockname_def now_view Let_def refusing_def
              intro!: wp_set_rep wp_reply_rep [where fd = sfd] out)
      next
        case name: (Some ss)
        show ?thesis
          using wf sv Some True ev ds room name
          by (intro wp_connect_done [OF _ ok os] out) (simp_all add: connected_def waiting_send_def)
      qed
      with Some True show ?thesis unfolding eq by simp
    qed
  qed
qed

section \<open>bindlistening\<close>

text \<open>The view once the peer has connected and the second reply is queued.\<close>

definition accepted :: "os \<Rightarrow> fd \<Rightarrow> fd \<Rightarrow> sockaddr \<Rightarrow> view \<Rightarrow> view \<Rightarrow> bool" where
  "accepted e sfd new_fd ss v v' \<longleftrightarrow> (\<exists>t.
     v' = v\<lparr>v_info := (v_info v)\<lparr>i_rep := REP_SUCCESS\<rparr>, v_access := (v_access v)\<lparr>al_server := Some ss\<rparr>,
       v_server := Some new_fd, v_state := STATE_SENDING_REPLY_2,
       v_out := v_out v @ [SOCKS5_VERSION, REP_SUCCESS, SOCKS5_RESV] @ addr_bytes ss (the (sa_port ss)),
       v_trace := v_trace v @ t\<rparr>)"

text \<open>
  An error in this phase: the reply with the code \<open>r\<close> is queued, whatever the server side is
  by then.
\<close>

definition bind_refused :: "byte \<Rightarrow> view \<Rightarrow> view \<Rightarrow> bool" where
  "bind_refused r v v' \<longleftrightarrow> (\<exists>s a q t. s \<noteq> None \<and> length q \<le> length (v_out v) + 3 \<and>
     v' = error_replied (refusing r t (v\<lparr>v_server := s, v_access := a, v_out := q\<rparr>)))"

definition bindlistening_outcome :: "os \<Rightarrow> side \<Rightarrow> 32 word \<Rightarrow> view \<Rightarrow> conn \<Rightarrow> bool" where
  "bindlistening_outcome e d ev v c \<longleftrightarrow> well_formed c \<and>
    (if ev AND EPOLLIN = 0 \<or> d \<noteq> Server then view c = v
     else \<exists>sfd. v_server v = Some sfd \<and>
       (case os_accept e (length (v_trace v)) sfd of
          None \<Rightarrow> bind_refused REP_GENFAIL v (view c)
        | Some (new_fd, ss) \<Rightarrow>
          (case peer_check (v_info v) ss of
             Some rep \<Rightarrow> bind_refused rep v (view c)
           | None \<Rightarrow> bind_refused REP_GENFAIL v (view c) \<or> accepted e sfd new_fd ss v (view c))))"

lemma bind_refusedI:
  assumes "replied e Server (refusing r t w) c" and "mod_ok e" and "w = v\<lparr>v_server := s, v_access := a, v_out := q, v_trace := u\<rparr>"
    and "s \<noteq> None" and "length q \<le> length (v_out v) + 3" and "length (v_out v) + 22 \<le> OUTBUFFSIZE"
    and "\<exists>t. u = v_trace v @ t"
  shows "well_formed c \<and> bind_refused r v (view c)"
proof -
  from assms(7) obtain t' where u: "u = v_trace v @ t'" by blast
  have "well_formed c" "view c = error_replied (refusing r t w)"
    using replied_room [OF assms(1,2)] assms(3,5,6) by simp_all
  moreover have "refusing r t w = refusing r (t' @ t) (v\<lparr>v_server := s, v_access := a, v_out := q\<rparr>)"
    unfolding assms(3) u by (simp add: refusing_def)
  ultimately show ?thesis using assms(4,5) unfolding bind_refused_def by metis
qed

lemma refusing_rep: "v\<lparr>v_info := (v_info v)\<lparr>i_rep := r\<rparr>\<rparr> = refusing r [] v"
  by (simp add: refusing_def)

lemma bind_refused_rep [simp]: "bind_refused r (v\<lparr>v_info := (v_info v)\<lparr>i_rep := x\<rparr>\<rparr>) v' = bind_refused r v v'"
  by (simp add: bind_refused_def refusing_def error_replied_def)

lemma wp_bind_refuse:
  assumes wf: "well_formed c" and ok: "mod_ok e" and sv: "v_server (view c) = Some fd"
    and c: "view c = v\<lparr>v_server := s, v_access := a, v_out := q, v_trace := v_trace v @ t\<rparr>"
    and q: "length q \<le> length (v_out v) + 3" and room: "length (v_out v) + 22 \<le> OUTBUFFSIZE"
    and Q: "\<And>c'. well_formed c' \<Longrightarrow> bind_refused r v (view c') \<Longrightarrow> Q c'"
  shows "wp (reply_rep e Server r c) Q"
proof (rule wp_reply_rep [OF wf, where fd = fd])
  fix c'
  assume r: "replied e Server ((view c)\<lparr>v_info := (v_info (view c))\<lparr>i_rep := r\<rparr>\<rparr>) c'"
  have "s \<noteq> None" using sv c by auto
  with bind_refusedI [OF r [unfolded refusing_rep] ok c _ q room] show "Q c'" by (auto intro: Q)
qed (simp add: sv)

lemma wp_peer_reply:
  assumes wf: "well_formed c" and ok: "mod_ok e" and sa: "sa_wf ss" and sv: "v_server (view c) = Some new_fd"
    and c: "view c = v\<lparr>v_info := (v_info v)\<lparr>i_rep := REP_SUCCESS\<rparr>, v_access := (v_access v)\<lparr>al_server := Some ss\<rparr>,
      v_server := Some new_fd, v_out := v_out v @ [SOCKS5_VERSION, REP_SUCCESS, SOCKS5_RESV], v_trace := v_trace v @ t\<rparr>"
    and room: "length (v_out v) + 22 \<le> OUTBUFFSIZE"
    and good: "\<And>c'. well_formed c' \<Longrightarrow> accepted e sfd new_fd ss v (view c') \<Longrightarrow> Q c'"
    and bad: "\<And>c'. well_formed c' \<Longrightarrow> bind_refused REP_GENFAIL v (view c') \<Longrightarrow> Q c'"
  shows "wp (peer_reply e Server ss c) Q"
proof -
  have addr: "wp (do { c \<leftarrow> write_rep_addr atyp addr port c; (ret, c) \<leftarrow> wake_client e c;
      if ret = -1 then reply_rep e Server REP_GENFAIL c else set_state STATE_SENDING_REPLY_2 c }) Q"
    if bytes: "addr_bytes ss (the (sa_port ss)) = atyp # addr @ port" and l: "length addr + length port \<le> 18"
    for atyp addr port
  proof (subst wp_bind, rule wp_write_rep_addr [OF wf], subst wp_bind, rule wp_wake_ok [OF _ ok], assumption)
    fix c1 q c2
    assume 1: "view c1 = (view c)\<lparr>v_out := q\<rparr>" "queued (v_out (view c)) (atyp # addr @ port) q"
      and 2: "well_formed c2" "view c2 = (view c1)\<lparr>v_trace := v_trace (view c1) @ waiting_send (view c1)\<rparr>"
    have "q = v_out (view c) @ atyp # addr @ port"
      using 1(2) by (rule queued_fits) (use room l c in simp)
    with 1 2 c show "wp (case (0 :: int, c2) of (ret, c) \<Rightarrow>
        if ret = -1 then reply_rep e Server REP_GENFAIL c else set_state STATE_SENDING_REPLY_2 c) Q"
      by (auto intro!: wp_set_state good exI [of _ "t @ waiting_send v"] simp: accepted_def bytes)
  qed
  show ?thesis
  proof (cases ss)
    case (SIN a p)
    with sa addr [of ATYP_IPV4 a p] show ?thesis by (simp add: peer_reply_def del: wp_bind)
  next
    case (SIN6 a p)
    with sa addr [of ATYP_IPV6 a p] show ?thesis by (simp add: peer_reply_def del: wp_bind)
  next
    case (SA_OTHER f)
    have "wp (reply_rep e Server REP_GENFAIL c) Q"
      by (rule wp_bind_refuse [OF wf ok sv, where v = "v\<lparr>v_info := (v_info v)\<lparr>i_rep := REP_SUCCESS\<rparr>\<rparr>"
            and s = "Some new_fd" and a = "(v_access v)\<lparr>al_server := Some ss\<rparr>" and t = t
            and q = "v_out v @ [SOCKS5_VERSION, REP_SUCCESS, SOCKS5_RESV]"])
        (use c room in \<open>simp_all add: bad\<close>)
    then show ?thesis by (simp add: peer_reply_def SA_OTHER)
  qed
qed

lemma wp_peer_accepted:
  assumes wf: "well_formed c" and ok: "mod_ok e" and sa: "sa_wf ss" and sv: "v_server (view c) = Some sfd"
    and c: "view c = v\<lparr>v_access := (v_access v)\<lparr>al_server := Some ss\<rparr>, v_trace := v_trace v @ t\<rparr>"
    and ne: "new_fd \<noteq> v_client v" and room: "length (v_out v) + 22 \<le> OUTBUFFSIZE"
    and good: "\<And>c'. well_formed c' \<Longrightarrow> accepted e sfd new_fd ss v (view c') \<Longrightarrow> Q c'"
    and bad: "\<And>c'. well_formed c' \<Longrightarrow> bind_refused REP_GENFAIL v (view c') \<Longrightarrow> Q c'"
  shows "wp (peer_accepted e Server new_fd ss c) Q"
proof -
  let ?c1 = "snd (epoll_ctl e EPOLL_CTL_DEL sfd 0 Null_ptr (close_fd sfd c))"
  have "well_formed ?c1" "view ?c1 = (view c)\<lparr>v_trace := v_trace (view c) @
      [Sys_close sfd, Sys_epoll_ctl EPOLL_CTL_DEL sfd 0 Null_ptr (os_epoll_ctl e (Suc (now c)) EPOLL_CTL_DEL sfd)]\<rparr>"
    using wf by (simp_all add: epoll_ctl_def close_fd_def Let_def now_def)
  then obtain t1 where 1: "well_formed ?c1" "view ?c1 = (view c)\<lparr>v_trace := v_trace (view c) @ t1\<rparr>"
    by blast
  have data: "(peer sfd)\<lparr>d_self_fd := new_fd\<rparr> = peer new_fd" by (simp add: peer_def)
  have eq: "peer_accepted e Server new_fd ss c = do {
      c \<leftarrow> upd_shared (s_server_fd_update (\<lambda>_. new_fd)) (?c1\<lparr>c_server := Some (peer new_fd)\<rparr>);
      let (ret, c) = ep_add_new_client e new_fd Server c;
      (if ret = -1 then reply_rep e Server REP_GENFAIL c
       else do {
         c \<leftarrow> set_rep REP_SUCCESS c;
         c \<leftarrow> write_rep_info REP_SUCCESS c;
         peer_reply e Server ss c }) }"
    unfolding peer_accepted_def using wf sv by (simp add: wf_simps ep_delete_fd_def data)
  show ?thesis
    unfolding eq
  proof (subst wp_bind, rule wp_set_server_fd [OF 1(1)])
    fix c2
    assume 2: "well_formed c2" "view c2 = (view ?c1)\<lparr>v_server := Some new_fd\<rparr>"
    let ?ok = "os_epoll_ctl e (length (v_trace (view c2))) EPOLL_CTL_ADD new_fd"
    let ?c3 = "emit (Sys_epoll_ctl EPOLL_CTL_ADD new_fd EPOLLIN (Peer Server) ?ok) c2"
    obtain tr where v3: "view ?c3 = v\<lparr>v_access := (v_access v)\<lparr>al_server := Some ss\<rparr>, v_server := Some new_fd,
        v_trace := v_trace v @ tr\<rparr>"
      using 1 2 c by (intro that [of "t @ t1 @ [Sys_epoll_ctl EPOLL_CTL_ADD new_fd EPOLLIN (Peer Server) ?ok]"]) simp
    show "wp (let (ret, c) = ep_add_new_client e new_fd Server c2 in
       if ret = -1 then reply_rep e Server REP_GENFAIL c
       else do {
         c \<leftarrow> set_rep REP_SUCCESS c;
         c \<leftarrow> write_rep_info REP_SUCCESS c;
         peer_reply e Server ss c }) Q"
    proof (cases ?ok)
      case False
      let ?c4 = "log_error L_EPOLLERRORADD ?c3"
      have same: "view ?c4 = v\<lparr>v_server := Some new_fd, v_access := (v_access v)\<lparr>al_server := Some ss\<rparr>,
          v_out := v_out v, v_trace := v_trace v @ (tr @ [Sys_log_error L_EPOLLERRORADD])\<rparr>"
        unfolding log_error_def view_emit [of _ ?c3] v3 by simp
      have "wp (reply_rep e Server REP_GENFAIL ?c4) Q"
        by (rule wp_bind_refuse [OF _ ok _ same])
          (use 2 same room in \<open>auto simp: log_error_def simp del: view_emit intro!: bad\<close>)
      with False show ?thesis by (simp add: ep_add_new_client_def epoll_ctl_def now_view Let_def)
    next
      case True
      have "wp (do { c \<leftarrow> set_rep REP_SUCCESS ?c3; c \<leftarrow> write_rep_info REP_SUCCESS c; peer_reply e Server ss c }) Q"
      proof (subst wp_bind, rule wp_set_rep, simp add: 2(1), subst wp_bind, rule wp_write_rep_info, assumption)
        fix c4 c5 q
        assume 4: "view c4 = (view ?c3)\<lparr>v_info := (v_info (view ?c3))\<lparr>i_rep := REP_SUCCESS\<rparr>\<rparr>"
          and 5: "well_formed c5" "view c5 = (view c4)\<lparr>v_out := q\<rparr>"
            "queued (v_out (view c4)) [SOCKS5_VERSION, REP_SUCCESS, SOCKS5_RESV] q"
        have "q = v_out v @ [SOCKS5_VERSION, REP_SUCCESS, SOCKS5_RESV]"
          using queued_fits [OF 5(3)] 4 [unfolded v3] room by simp
        with 4 [unfolded v3] 5 show "wp (peer_reply e Server ss c5) Q"
          by (intro wp_peer_reply [OF 5(1) ok sa _ _ room good bad, where t = tr]) simp_all
      qed
      with True show ?thesis by (simp add: ep_add_new_client_def epoll_ctl_def now_view Let_def)
    qed
  qed (use 1 ne sv c in simp_all)
qed

lemma wp_bindlistening:
  assumes wf: "well_formed c" and d: "side_fd d (view c) = Some fd" and ok: "mod_ok e"
    and os: "os_ok e (v_client (view c))" and sv: "v_server (view c) = Some sfd"
    and room: "length (v_out (view c)) + 22 \<le> OUTBUFFSIZE"
    and Q: "\<And>c'. bindlistening_outcome e d ev (view c) c' \<Longrightarrow> Q c'"
  shows "wp (bindlistening e d ev c) Q"
proof (cases "ev AND EPOLLIN = 0 \<or> d \<noteq> Server")
  case True
  with wf d not_for_server [OF wf d sv] show ?thesis
    by (auto simp: bindlistening_def wf_simps bindlistening_outcome_def intro!: Q)
next
  case False
  then have ev: "ev AND EPOLLIN \<noteq> 0" and ds: "d = Server" by auto
  note out = Q [unfolded bindlistening_outcome_def]
  let ?v = "view c" and ?acc = "os_accept e (length (v_trace (view c))) sfd"
  let ?c = "emit (Sys_accept sfd ?acc) c"
  have sys: "sys_accept e sfd c = (?acc, ?c)"
    by (simp add: sys_accept_def now_view Let_def)
  have eq: "bindlistening e d ev c = (case ?acc of
      None \<Rightarrow> reply_rep e Server REP_GENFAIL ?c
    | Some (new_fd, ss) \<Rightarrow> do {
        c \<leftarrow> set_server_addr ss ?c;
        info \<leftarrow> get_info c;
        case peer_check info ss of
          Some rep \<Rightarrow> reply_rep e Server rep c
        | None \<Rightarrow> peer_accepted e Server new_fd ss c })"
    using ev ds wf d sv not_for_server [OF wf d sv] sys
    unfolding bindlistening_def by (simp add: wf_simps cong: option.case_cong if_cong)
  show ?thesis
  proof (cases ?acc)
    case None
    have same: "view ?c = ?v\<lparr>v_server := v_server ?v, v_access := v_access ?v, v_out := v_out ?v,
        v_trace := v_trace ?v @ [Sys_accept sfd ?acc]\<rparr>" by simp
    have "wp (reply_rep e Server REP_GENFAIL ?c) Q"
      by (rule wp_bind_refuse [OF _ ok _ same]) (use wf sv room None ev ds in \<open>auto intro!: out\<close>)
    with None show ?thesis unfolding eq by simp
  next
    case (Some r)
    obtain new_fd ss where r: "r = (new_fd, ss)" by (cases r)
    note acc = Some [unfolded r]
    have "wp (do { c \<leftarrow> set_server_addr ss ?c; info \<leftarrow> get_info c;
        case peer_check info ss of
          Some rep \<Rightarrow> reply_rep e Server rep c
        | None \<Rightarrow> peer_accepted e Server new_fd ss c }) Q"
      unfolding set_server_addr_def
    proof (subst wp_bind, rule wp_set_server_addr, simp add: wf)
      fix c1
      assume 1: "well_formed c1" "view c1 = (view ?c)\<lparr>v_access := (v_access (view ?c))\<lparr>al_server := Some ss\<rparr>\<rparr>"
      have v1: "view c1 = ?v\<lparr>v_access := (v_access ?v)\<lparr>al_server := Some ss\<rparr>, v_trace := v_trace ?v @ [Sys_accept sfd ?acc]\<rparr>"
        using 1(2) by simp
      show "wp (do { info \<leftarrow> get_info c1;
          case peer_check info ss of
            Some rep \<Rightarrow> reply_rep e Server rep c1
          | None \<Rightarrow> peer_accepted e Server new_fd ss c1 }) Q"
      proof (cases "peer_check (v_info ?v) ss")
        case None
        have "wp (peer_accepted e Server new_fd ss c1) Q"
          by (rule wp_peer_accepted [OF 1(1) ok os_okD(3) [OF os acc] _ v1, where sfd = sfd])
            (use sv v1 os_okD(2) [OF os acc] room acc None ev ds in \<open>auto intro!: out\<close>)
        with None 1 v1 show ?thesis by (simp add: wf_simps)
      next
        case (Some rep)
        have same: "view c1 = ?v\<lparr>v_server := v_server ?v, v_access := (v_access ?v)\<lparr>al_server := Some ss\<rparr>,
            v_out := v_out ?v, v_trace := v_trace ?v @ [Sys_accept sfd ?acc]\<rparr>" using v1 by simp
        have "wp (reply_rep e Server rep c1) Q"
          by (rule wp_bind_refuse [OF 1(1) ok _ same])
            (use v1 sv room acc Some ev ds in \<open>auto intro!: out\<close>)
        with Some 1 v1 show ?thesis by (simp add: wf_simps)
      qed
    qed
    with acc show ?thesis unfolding eq by simp
  qed
qed

end
