(* ===== verification/Relay.thy ===== *)
theory Relay
  imports Replies
begin

text \<open>
  The relay of an established connection: \<^verbatim>\<open>send_traffic\<close> and \<^verbatim>\<open>read_traffic\<close> of \<^verbatim>\<open>src/net.c\<close> under
  the handler \<^verbatim>\<open>full\<close> of \<^verbatim>\<open>src/socks.c\<close>, as functions of the view. The queue of a side holds the
  bytes waiting to be sent to it.
\<close>

section \<open>The queues of the two sides\<close>

definition queue :: "side \<Rightarrow> view \<Rightarrow> byte list" where
  "queue d v = (case d of Client \<Rightarrow> v_out v | Server \<Rightarrow> v_in v)"

definition with_queue :: "side \<Rightarrow> byte list \<Rightarrow> view \<Rightarrow> view" where
  "with_queue d q v = (case d of Client \<Rightarrow> v\<lparr>v_out := q\<rparr> | Server \<Rightarrow> v\<lparr>v_in := q\<rparr>)"

lemma queue_simps [simp]:
  "queue Client v = v_out v" "queue Server v = v_in v"
  "with_queue Client q v = v\<lparr>v_out := q\<rparr>" "with_queue Server q v = v\<lparr>v_in := q\<rparr>"
  by (simp_all add: queue_def with_queue_def)

lemma queue_with_queue [simp]:
  "queue d (with_queue d q v) = q" "queue (other d) (with_queue d q v) = queue (other d) v"
  "queue d (with_queue (other d) q v) = queue d v"
  by (cases d; simp)+

lemma with_queue_simps [simp]:
  "v_state (with_queue d q v) = v_state v" "v_info (with_queue d q v) = v_info v"
  "v_client (with_queue d q v) = v_client v" "v_server (with_queue d q v) = v_server v"
  "v_trace (with_queue d q v) = v_trace v" "v_access (with_queue d q v) = v_access v"
  "v_flags (with_queue d q v) = v_flags v"
  by (cases d; simp)+

text \<open>Setting a flag of a side.\<close>

definition flagged :: "side \<Rightarrow> byte \<Rightarrow> view \<Rightarrow> view" where
  "flagged d f v = v\<lparr>v_flags := (case d of Client \<Rightarrow> (fst (v_flags v) OR f, snd (v_flags v))
                                     | Server \<Rightarrow> (fst (v_flags v), snd (v_flags v) OR f))\<rparr>"

lemma flagged_simps [simp]:
  "v_state (flagged d f v) = v_state v" "v_info (flagged d f v) = v_info v"
  "v_client (flagged d f v) = v_client v" "v_server (flagged d f v) = v_server v"
  "v_trace (flagged d f v) = v_trace v" "v_out (flagged d f v) = v_out v" "v_in (flagged d f v) = v_in v"
  by (simp_all add: flagged_def)

section \<open>One step of the relay\<close>

definition relay_send :: "os \<Rightarrow> side \<Rightarrow> fd \<Rightarrow> view \<Rightarrow> view" where
  "relay_send e d fd v =
    (case os_send e (length (v_trace v)) fd of
       None \<Rightarrow> (flagged d FLAG_WRITE_CLOSED v)\<lparr>v_state := STATE_HALF_CLOSE,
         v_trace := v_trace v @ [Sys_send fd (queue d v) None, Sys_shutdown fd True]\<rparr>
     | Some n \<Rightarrow>
         let k = min (length (queue d v)) n in
         (with_queue d (drop k (queue d v)) v)\<lparr>v_trace := v_trace v @ Sys_send fd (queue d v) (Some k) #
           (if k = length (queue d v) then done_sending fd d else [])\<rparr>)"

text \<open>A chunk that does not fit in the queue of the other side is dropped whole.\<close>

definition enqueue :: "byte list \<Rightarrow> byte list \<Rightarrow> byte list" where
  "enqueue q bs = (if length q + length bs \<le> OUTBUFFSIZE then q @ bs else q)"

definition waiting_peer :: "fd \<Rightarrow> side \<Rightarrow> sys list" where
  "waiting_peer fd d = [Sys_epoll_ctl EPOLL_CTL_MOD fd (EPOLLIN OR EPOLLOUT) (Peer d) True]"

definition relay_recv :: "os \<Rightarrow> side \<Rightarrow> fd \<Rightarrow> fd \<Rightarrow> view \<Rightarrow> view" where
  "relay_recv e d fd pfd v =
    (let r = map_option (take RELAY_CHUNK) (os_recv e (length (v_trace v)) fd) in
     if r = None \<or> r = Some []
     then (flagged (other d) FLAG_FLUSHING (flagged d FLAG_READ_CLOSED v))\<lparr>v_state := STATE_HALF_CLOSE,
       v_trace := v_trace v @ [Sys_recv fd RELAY_CHUNK r, Sys_shutdown fd False] @ waiting_peer pfd (other d)\<rparr>
     else (with_queue (other d) (enqueue (queue (other d) v) (the r)) v)\<lparr>
       v_trace := v_trace v @ Sys_recv fd RELAY_CHUNK r # waiting_peer pfd (other d)\<rparr>)"

definition relay_step :: "os \<Rightarrow> side \<Rightarrow> fd \<Rightarrow> fd \<Rightarrow> 32 word \<Rightarrow> view \<Rightarrow> view" where
  "relay_step e d fd pfd ev v =
    (if ev AND EPOLLOUT \<noteq> 0 then relay_send e d fd v
     else if ev AND EPOLLIN \<noteq> 0 then relay_recv e d fd pfd v
     else v)"

lemma relay_step_client [simp]:
  "v_client (relay_step e d fd pfd ev v) = v_client v" "v_server (relay_step e d fd pfd ev v) = v_server v"
  by (simp_all add: relay_step_def relay_send_def relay_recv_def Let_def split: option.split)

section \<open>The handler computes it\<close>

lemma side_fd_live:
  assumes "well_formed c" and "side_fd d (view c) = Some fd"
  shows "fd = s_client_fd (the_shared c) \<longleftrightarrow> d = Client"
    and "fd = s_server_fd (the_shared c) \<longleftrightarrow> d = Server"
proof -
  from assms(1) obtain sh where sh: "c_shared c = Some sh" "s_server_fd sh \<noteq> s_client_fd sh"
    by (rule wfE)
  then have "the_shared c = sh" by (simp add: the_shared_def)
  with assms sh wf_client_fd [OF assms(1)] wf_server_fd [OF assms(1)]
  show "fd = s_client_fd (the_shared c) \<longleftrightarrow> d = Client" "fd = s_server_fd (the_shared c) \<longleftrightarrow> d = Server"
    by (cases d; auto)+
qed

lemma wp_send_traffic:
  assumes wf: "well_formed c" and d: "side_fd d (view c) = Some fd"
    and fail: "\<And>c'. os_send e (length (v_trace (view c))) fd = None \<Longrightarrow> well_formed c' \<Longrightarrow>
      view c' = (flagged d FLAG_WRITE_CLOSED (view c))\<lparr>
        v_trace := v_trace (view c) @ [Sys_send fd (queue d (view c)) None, Sys_shutdown fd True]\<rparr> \<Longrightarrow> Q (-1, c')"
    and sent: "\<And>c' n k. os_send e (length (v_trace (view c))) fd = Some n \<Longrightarrow> k = min (length (queue d (view c))) n \<Longrightarrow>
      well_formed c' \<Longrightarrow> view c' = (with_queue d (drop k (queue d (view c))) (view c))\<lparr>
        v_trace := v_trace (view c) @ [Sys_send fd (queue d (view c)) (Some k)]\<rparr> \<Longrightarrow>
      Q (int (length (queue d (view c)) - k), c')"
  shows "wp (send_traffic e fd c) Q"
proof (cases d)
  case Client
  with d have fd: "fd = v_client (view c)" by simp
  have after: "wp (do { c \<leftarrow> consume_client_out k c1; sh \<leftarrow> c_shared c; Some (int (rb_used (s_client_out sh)), c) }) Q"
    if n: "os_send e (length (v_trace (view c))) fd = Some n" and k: "k = min (length (v_out (view c))) n"
      and c1: "well_formed c1" "view c1 = (view c)\<lparr>v_trace := v_trace (view c) @ [Sys_send fd (v_out (view c)) (Some k)]\<rparr>"
    for c1 n k
  proof (subst wp_bind, rule wp_consume_client_out [OF c1(1)])
    fix c2
    assume 2: "well_formed c2" "view c2 = (view c1)\<lparr>v_out := drop k (v_out (view c1))\<rparr>"
    have "Q (int (length (queue d (view c)) - k), c2)"
      using Client k c1 2 by (intro sent [OF n _ 2(1)]) simp_all
    with Client 2 c1 show "wp (do { sh \<leftarrow> c_shared c2; Some (int (rb_used (s_client_out sh)), c2) }) Q"
      by (simp add: wf_simps)
  qed
  show ?thesis
  proof (cases "os_send e (length (v_trace (view c))) fd")
    case None
    with wf Client fd show ?thesis
      by (auto simp: send_traffic_def wf_simps sys_send_def now_view Let_def flagged_def
          intro!: wp_set_flags fail)
  next
    case (Some n)
    with after [OF Some refl] wf fd show ?thesis
      by (simp add: send_traffic_def wf_simps sys_send_def now_view Let_def del: wp_bind)
  qed
next
  case Server
  with d have sv: "v_server (view c) = Some fd" by simp
  note live = side_fd_live [OF wf d]
  have used: "rb_used (s_server_out (the_shared c)) = length (v_in (view c))" using wf by (rule wf_in_used)
  have after: "wp (do { c \<leftarrow> consume_server_out k c1; sh \<leftarrow> c_shared c; Some (int (rb_used (s_server_out sh)), c) }) Q"
    if n: "os_send e (length (v_trace (view c))) fd = Some n" and k: "k = min (length (v_in (view c))) n"
      and c1: "well_formed c1" "view c1 = (view c)\<lparr>v_trace := v_trace (view c) @ [Sys_send fd (v_in (view c)) (Some k)]\<rparr>"
    for c1 n k
  proof (subst wp_bind, rule wp_consume_server_out [OF c1(1)])
    fix c2
    assume 2: "well_formed c2" "view c2 = (view c1)\<lparr>v_in := drop k (v_in (view c1))\<rparr>"
    have "Q (int (length (queue d (view c)) - k), c2)"
      using Server k c1 2 by (intro sent [OF n _ 2(1)]) simp_all
    with Server 2 c1 show "wp (do { sh \<leftarrow> c_shared c2; Some (int (rb_used (s_server_out sh)), c2) }) Q"
      by (simp add: wf_simps)
  qed
  show ?thesis
  proof (cases "os_send e (length (v_trace (view c))) fd")
    case None
    with wf Server sv live show ?thesis
      by (auto simp: send_traffic_def wf_simps sys_send_def now_view Let_def flagged_def
          intro!: wp_set_flags_server fail)
  next
    case (Some n)
    with after [OF Some refl] wf live Server show ?thesis
      by (simp add: send_traffic_def wf_simps sys_send_def now_view Let_def del: wp_bind)
  qed
qed

text \<open>The write of a received chunk to the queue of the other side.\<close>

lemma wp_enqueue_out:
  assumes "well_formed c"
    and "\<And>n c'. well_formed c' \<Longrightarrow> view c' = (view c)\<lparr>v_out := enqueue (v_out (view c)) xs\<rparr> \<Longrightarrow> Q (n, c')"
  shows "wp (write_client_out xs c) Q"
  using assms(1) by (rule wp_write_client_out) (auto intro!: assms(2) simp: enqueue_def)

lemma wp_enqueue_in:
  assumes "well_formed c"
    and "\<And>n c'. well_formed c' \<Longrightarrow> view c' = (view c)\<lparr>v_in := enqueue (v_in (view c)) xs\<rparr> \<Longrightarrow> Q (n, c')"
  shows "wp (write_server_out xs c) Q"
  using assms(1) by (rule wp_write_server_out) (auto intro!: assms(2) simp: enqueue_def)

lemma wp_read_traffic:
  assumes wf: "well_formed c" and d: "side_fd d (view c) = Some fd"
    and r: "r = map_option (take RELAY_CHUNK) (os_recv e (length (v_trace (view c))) fd)"
    and fail: "\<And>c'. r = None \<or> r = Some [] \<Longrightarrow> well_formed c' \<Longrightarrow>
      view c' = (flagged (other d) FLAG_FLUSHING (flagged d FLAG_READ_CLOSED (view c)))\<lparr>
        v_trace := v_trace (view c) @ [Sys_recv fd RELAY_CHUNK r, Sys_shutdown fd False]\<rparr> \<Longrightarrow> Q (-1, c')"
    and data: "\<And>c' bs. r = Some bs \<Longrightarrow> bs \<noteq> [] \<Longrightarrow> well_formed c' \<Longrightarrow>
      view c' = (with_queue (other d) (enqueue (queue (other d) (view c)) bs) (view c))\<lparr>
        v_trace := v_trace (view c) @ [Sys_recv fd RELAY_CHUNK r]\<rparr> \<Longrightarrow> Q (int (length bs), c')"
  shows "wp (read_traffic e fd c) Q"
proof -
  note live = side_fd_live [OF wf d]
  let ?c = "emit (Sys_recv fd RELAY_CHUNK r) c"
  have sys: "sys_recv e fd RELAY_CHUNK c = (r, ?c)"
    by (simp add: sys_recv_def now_view Let_def r)
  have eq: "read_traffic e fd c = (case d of
      Client \<Rightarrow> (case r of
        Some (b # bs) \<Rightarrow> do { (_, c) \<leftarrow> write_server_out (b # bs) ?c; Some (int (length (b # bs)), c) }
      | _ \<Rightarrow> do {
          c \<leftarrow> upd_shared (s_client_flags_update (\<lambda>f. f OR FLAG_READ_CLOSED)) ?c;
          c \<leftarrow> upd_shared (s_server_flags_update (\<lambda>f. f OR FLAG_FLUSHING)) c;
          Some (-1, emit (Sys_shutdown fd False) c) })
    | Server \<Rightarrow> (case r of
        Some (b # bs) \<Rightarrow> do { (_, c) \<leftarrow> write_client_out (b # bs) ?c; Some (int (length (b # bs)), c) }
      | _ \<Rightarrow> do {
          c \<leftarrow> upd_shared (s_server_flags_update (\<lambda>f. f OR FLAG_READ_CLOSED)) ?c;
          c \<leftarrow> upd_shared (s_client_flags_update (\<lambda>f. f OR FLAG_FLUSHING)) c;
          Some (-1, emit (Sys_shutdown fd False) c) }))"
    unfolding read_traffic_def wf_shared [OF wf] bind.simps live sys Let_def case_prod_conv
    by (cases d) simp_all
  show ?thesis
  proof (cases "r = None \<or> r = Some []")
    case True
    with wf show ?thesis
      unfolding eq
      by (cases d) (auto intro!: wp_set_flags wp_set_flags_server fail simp: flagged_def)
  next
    case False
    then obtain b bs where bs: "r = Some (b # bs)" by (cases r) (auto simp: neq_Nil_conv)
    have "wp (write_server_out (b # bs) ?c) (\<lambda>(_, c). Q (int (length (b # bs)), c))" if "d = Client"
      using that wf by (intro wp_enqueue_in) (auto intro!: data [OF bs, simplified])
    moreover have "wp (write_client_out (b # bs) ?c) (\<lambda>(_, c). Q (int (length (b # bs)), c))" if "d = Server"
      using that wf by (intro wp_enqueue_out) (auto intro!: data [OF bs, simplified])
    ultimately show ?thesis
      unfolding eq bs by (cases d) (simp_all add: case_prod_unfold)
  qed
qed

lemma wp_full:
  assumes wf: "well_formed c" and d: "side_fd d (view c) = Some fd"
    and p: "side_fd (other d) (view c) = Some pfd" and ok: "mod_ok e"
    and Q: "\<And>c'. well_formed c' \<Longrightarrow> view c' = relay_step e d fd pfd ev (view c) \<Longrightarrow> Q c'"
  shows "wp (full e d ev c) Q"
proof -
  let ?v = "view c"
  have data: "get_data d c = Some (peer fd)" using wf d by (simp add: wf_data)
  consider (out) "ev AND EPOLLOUT \<noteq> 0" | (inp) "ev AND EPOLLOUT = 0" "ev AND EPOLLIN \<noteq> 0"
    | (none) "ev AND EPOLLOUT = 0" "ev AND EPOLLIN = 0" by blast
  then show ?thesis
  proof cases
    case out
    have "wp (do { (ret, c) \<leftarrow> send_traffic e fd c;
        c \<leftarrow> (if ret = -1 then set_state STATE_HALF_CLOSE c else Some c);
        if ret = 0 then do {
          let (ret, c) = ep_done_sending e fd d c;
          (if ret = -1 then set_state STATE_CLOSED c else Some c) }
        else Some c }) Q"
    proof (subst wp_bind, rule wp_send_traffic [OF wf d], unfold case_prod_conv)
      fix c'
      assume "os_send e (length (v_trace ?v)) fd = None" "well_formed c'"
        "view c' = (flagged d FLAG_WRITE_CLOSED ?v)\<lparr>
          v_trace := v_trace ?v @ [Sys_send fd (queue d ?v) None, Sys_shutdown fd True]\<rparr>"
      then show "wp (do {
          c \<leftarrow> (if (-1 :: int) = -1 then set_state STATE_HALF_CLOSE c' else Some c');
          if (-1 :: int) = 0 then do {
            let (ret, c) = ep_done_sending e fd d c;
            (if ret = -1 then set_state STATE_CLOSED c else Some c) }
          else Some c }) Q"
        using out by (auto intro!: wp_set_state Q simp: relay_step_def relay_send_def)
    next
      fix c' n k
      assume n: "os_send e (length (v_trace ?v)) fd = Some n" and k: "k = min (length (queue d ?v)) n"
        and c': "well_formed c'" "view c' = (with_queue d (drop k (queue d ?v)) ?v)\<lparr>
          v_trace := v_trace ?v @ [Sys_send fd (queue d ?v) (Some k)]\<rparr>"
      have step: "relay_step e d fd pfd ev ?v = (view c')\<lparr>v_trace := v_trace (view c') @
          (if k = length (queue d ?v) then done_sending fd d else [])\<rparr>"
        using out n k c'(2) by (cases d) (simp_all add: relay_step_def relay_send_def Let_def)
      define m where "m = length (queue d ?v) - k"
      have m: "m = 0 \<longleftrightarrow> k = length (queue d ?v)" using k by (auto simp: m_def)
      show "wp (do {
          c \<leftarrow> (if int (length (queue d ?v) - k) = -1 then set_state STATE_HALF_CLOSE c' else Some c');
          if int (length (queue d ?v) - k) = 0 then do {
            let (ret, c) = ep_done_sending e fd d c;
            (if ret = -1 then set_state STATE_CLOSED c else Some c) }
          else Some c }) Q"
        unfolding m_def [symmetric]
        using c'(1) ok step m
        by (auto simp: ep_done_sending_def epoll_ctl_def Let_def mod_ok_def done_sending_def intro!: Q)
    qed
    with out show ?thesis
      unfolding full_def data bind.simps peer_simps by (simp del: wp_bind)
  next
    case inp
    define r where "r = map_option (take RELAY_CHUNK) (os_recv e (length (v_trace ?v)) fd)"
    have "wp (do { (ret, c) \<leftarrow> read_traffic e fd c;
        c \<leftarrow> (if ret = -1 then set_state STATE_HALF_CLOSE c else Some c);
        sh \<leftarrow> c_shared c;
        let (pfd, pdata) =
          (if fd = s_client_fd sh then (s_server_fd sh, Server) else (s_client_fd sh, Client));
        Some (snd (ep_waiting_send e pfd pdata c)) }) Q"
    proof (subst wp_bind, rule wp_read_traffic [OF wf d r_def], unfold case_prod_conv)
      have wake: "wp (do { sh \<leftarrow> c_shared c1;
          let (pfd, pdata) =
            (if fd = s_client_fd sh then (s_server_fd sh, Server) else (s_client_fd sh, Client));
          Some (snd (ep_waiting_send e pfd pdata c1)) }) Q"
        if c1: "well_formed c1" "v_client (view c1) = v_client ?v" "v_server (view c1) = v_server ?v"
          and step: "relay_step e d fd pfd ev ?v = (view c1)\<lparr>v_trace := v_trace (view c1) @ waiting_peer pfd (other d)\<rparr>" for c1
      proof -
        have side: "side_fd d (view c1) = Some fd" "side_fd (other d) (view c1) = Some pfd"
          using d p c1(2,3) by (cases d; simp)+
        have peer_fd: "(if fd = s_client_fd (the_shared c1) then (s_server_fd (the_shared c1), Server)
            else (s_client_fd (the_shared c1), Client)) = (pfd, other d)"
          using side_fd_live [OF c1(1) side(1)] side_fd_live [OF c1(1) side(2)] by (cases d) auto
        show ?thesis
          unfolding wf_shared [OF c1(1)] bind.simps peer_fd
          using c1(1) ok step
          by (auto simp: ep_waiting_send_def epoll_ctl_def Let_def mod_ok_def waiting_peer_def intro!: Q)
      qed
      show "wp (do {
          c \<leftarrow> (if (-1 :: int) = -1 then set_state STATE_HALF_CLOSE c' else Some c');
          sh \<leftarrow> c_shared c;
          let (pfd, pdata) =
            (if fd = s_client_fd sh then (s_server_fd sh, Server) else (s_client_fd sh, Client));
          Some (snd (ep_waiting_send e pfd pdata c)) }) Q"
        if "r = None \<or> r = Some []" "well_formed c'"
          "view c' = (flagged (other d) FLAG_FLUSHING (flagged d FLAG_READ_CLOSED ?v))\<lparr>
            v_trace := v_trace ?v @ [Sys_recv fd RELAY_CHUNK r, Sys_shutdown fd False]\<rparr>" for c'
        unfolding simp_thms if_True
      proof (subst wp_bind, rule wp_set_state [OF that(2)], rule wake)
        fix c1
        assume "well_formed c1" "view c1 = (view c')\<lparr>v_state := STATE_HALF_CLOSE\<rparr>"
        with that inp show "well_formed c1" "v_client (view c1) = v_client ?v" "v_server (view c1) = v_server ?v"
          "relay_step e d fd pfd ev ?v = (view c1)\<lparr>v_trace := v_trace (view c1) @ waiting_peer pfd (other d)\<rparr>"
          by (simp_all add: relay_step_def relay_recv_def Let_def r_def [symmetric])
      qed
      show "wp (do {
          c \<leftarrow> (if int (length bs) = -1 then set_state STATE_HALF_CLOSE c' else Some c');
          sh \<leftarrow> c_shared c;
          let (pfd, pdata) =
            (if fd = s_client_fd sh then (s_server_fd sh, Server) else (s_client_fd sh, Client));
          Some (snd (ep_waiting_send e pfd pdata c)) }) Q"
        if "r = Some bs" "bs \<noteq> []" "well_formed c'"
          "view c' = (with_queue (other d) (enqueue (queue (other d) ?v) bs) ?v)\<lparr>
            v_trace := v_trace ?v @ [Sys_recv fd RELAY_CHUNK r]\<rparr>" for c' bs
      proof -
        have "relay_step e d fd pfd ev ?v = (view c')\<lparr>v_trace := v_trace (view c') @ waiting_peer pfd (other d)\<rparr>"
          using that inp by (simp add: relay_step_def relay_recv_def Let_def r_def [symmetric])
        moreover have "v_client (view c') = v_client ?v" "v_server (view c') = v_server ?v"
          using that(4) by simp_all
        moreover have "int (length bs) \<noteq> -1" by simp
        ultimately show ?thesis
          by (simp only: if_False bind.simps) (rule wake [OF that(3)])
      qed
    qed
    with inp show ?thesis
      unfolding full_def data bind.simps peer_simps by (simp del: wp_bind)
  next
    case none
    with wf data show ?thesis by (auto simp: full_def relay_step_def intro!: Q)
  qed
qed

end
