(* ===== verification/Machine.thy ===== *)
theory Machine
  imports Negotiation Relay
begin

text \<open>
  The state machine of a connection: what holds of a live connection in each state, the
  transitions between the states, and the dispatcher \<open>socks5\<close> as a step of the machine. The
  main lemma says that the handler of every state is defined and keeps the invariant.
\<close>

section \<open>Transitions\<close>

inductive transition :: "conn_state \<Rightarrow> conn_state \<Rightarrow> bool" where
  stay: "transition s s"
| method_chosen: "transition STATE_WAITING_METHODS STATE_SENDING_METHOD"
| method_sent: "transition STATE_SENDING_METHOD STATE_WAITING_COMMAND"
| connect_started: "transition STATE_WAITING_COMMAND STATE_CONNECTING"
| request_answered: "transition STATE_WAITING_COMMAND STATE_SENDING_REPLY"
| connect_ended: "transition STATE_CONNECTING STATE_SENDING_REPLY"
| reply_connected: "transition STATE_SENDING_REPLY STATE_FULL"
| reply_bound: "transition STATE_SENDING_REPLY STATE_BIND_LISTENING"
| reply_associated: "transition STATE_SENDING_REPLY STATE_FULL_UDPA"
| peer_arrived: "transition STATE_BIND_LISTENING STATE_SENDING_REPLY_2"
| peer_refused: "transition STATE_BIND_LISTENING STATE_SENDING_REPLY"
| second_reply: "transition STATE_SENDING_REPLY_2 STATE_FULL"
| half_closed: "transition STATE_FULL STATE_HALF_CLOSE"
| all_closed: "transition STATE_HALF_CLOSE STATE_CLOSED"

code_pred transition .

inductive_simps transition_simps:
  "transition STATE_WAITING_METHODS s" "transition STATE_SENDING_METHOD s"
  "transition STATE_WAITING_COMMAND s" "transition STATE_CONNECTING s"
  "transition STATE_SENDING_REPLY s" "transition STATE_SENDING_REPLY_2 s"
  "transition STATE_BIND_LISTENING s" "transition STATE_FULL s"
  "transition STATE_FULL_UDPA s" "transition STATE_HALF_CLOSE s" "transition STATE_CLOSED s"

inductive_cases enter_fullE: "transition s STATE_FULL"
inductive_cases enter_waiting_commandE: "transition s STATE_WAITING_COMMAND"

section \<open>The invariant of a live connection\<close>

text \<open>
  Without name resolution the result of the resolver is never set and the address list stays
  empty. After the method negotiation the selected method is \<^verbatim>\<open>METH_NOAUTH\<close>. \<open>64\<close> bounds the
  replies that can be queued together (two error replies, or a success reply and an error).
\<close>

definition authorised :: "view \<Rightarrow> bool" where
  "authorised v \<longleftrightarrow> i_method (v_info v) = METH_NOAUTH"

definition phase :: "view \<Rightarrow> bool" where
  "phase v \<longleftrightarrow> i_resolver_ret (v_info v) = -1 \<and> i_ai (v_info v) = [] \<and>
    (case v_state v of
       STATE_WAITING_METHODS \<Rightarrow> v_server v = None \<and> v_out v = [] \<and> v_rep v = 0xFF
     | STATE_SENDING_METHOD \<Rightarrow> v_server v = None \<and> length (v_out v) \<le> 2 \<and> v_rep v = 0xFF
     | STATE_WAITING_COMMAND \<Rightarrow> authorised v \<and> v_server v = None \<and> v_out v = [] \<and> v_rep v = 0xFF
     | STATE_CONNECTING \<Rightarrow> authorised v \<and> v_server v \<noteq> None \<and> v_out v = []
     | STATE_SENDING_REPLY \<Rightarrow> authorised v \<and> length (v_out v) \<le> 64 \<and>
         (v_rep v = REP_SUCCESS \<longrightarrow> v_server v \<noteq> None)
     | STATE_BIND_LISTENING \<Rightarrow> authorised v \<and> v_server v \<noteq> None \<and> v_out v = [] \<and> i_cmd (v_info v) = CMD_BIND
     | STATE_SENDING_REPLY_2 \<Rightarrow> authorised v \<and> v_server v \<noteq> None \<and> length (v_out v) \<le> 64 \<and>
         i_cmd (v_info v) = CMD_BIND
     | STATE_FULL \<Rightarrow> authorised v \<and> v_server v \<noteq> None
     | STATE_FULL_UDPA \<Rightarrow> authorised v \<and> v_server v \<noteq> None
     | STATE_HALF_CLOSE \<Rightarrow> authorised v \<and> v_server v \<noteq> None
     | STATE_CLOSED \<Rightarrow> authorised v \<and> v_server v \<noteq> None
     | _ \<Rightarrow> False)"

lemma phase_trace [simp]: "phase (v\<lparr>v_trace := t\<rparr>) = phase v"
  by (simp add: phase_def authorised_def split: conn_state.split)

text \<open>
  A connection is live, or one side is released and the other still has its \<^verbatim>\<open>Data\<close>, or nothing
  is left.
\<close>

definition conn_inv :: "conn \<Rightarrow> bool" where
  "conn_inv c \<longleftrightarrow> well_formed c \<and> phase (view c) \<or> (\<exists>d fd. remains d fd c) \<or> gone c"

lemma released_inv: "released d v c \<Longrightarrow> conn_inv c"
  by (auto simp: released_def conn_inv_def split: option.splits)

text \<open>
  A step only adds to the trace, and during the method negotiation it makes no call that
  opens a connection or a socket of its own. The log entry for \<^verbatim>\<open>METH_NOAUTH\<close> marks the end of
  the negotiation.
\<close>

fun outbound :: "sys \<Rightarrow> bool" where
  "outbound (Sys_socket af ty r) = True"
| "outbound (Sys_connect fd sa r) = True"
| "outbound (Sys_bind fd sa r) = True"
| "outbound (Sys_listen fd r) = True"
| "outbound a = False"

definition negotiating :: "view \<Rightarrow> bool" where
  "negotiating v \<longleftrightarrow> v_state v = STATE_WAITING_METHODS \<or> v_state v = STATE_SENDING_METHOD"

definition new_actions :: "view \<Rightarrow> view \<Rightarrow> sys list" where
  "new_actions v w = drop (length (v_trace v)) (v_trace w)"

definition extends :: "view \<Rightarrow> view \<Rightarrow> bool" where
  "extends v w \<longleftrightarrow> take (length (v_trace v)) (v_trace w) = v_trace v \<and>
     (negotiating v \<longrightarrow> (\<forall>a \<in> set (new_actions v w). \<not> outbound a) \<and>
       (v_state w = STATE_WAITING_COMMAND \<longrightarrow> (\<exists>acc. Sys_log_access A_METHNOAUTH acc \<in> set (new_actions v w))))"

lemmas extends_defs = extends_def new_actions_def negotiating_def

lemma extends_append: "\<exists>t. v_trace w = v_trace v @ t \<Longrightarrow> \<not> negotiating v \<Longrightarrow> extends v w"
  by (auto simp: extends_def)

lemma extends_refl: "v_trace w = v_trace v \<Longrightarrow> v_state w = v_state v \<Longrightarrow> extends v w"
  by (auto simp: extends_def new_actions_def negotiating_def)

text \<open>What one step of a live connection with view \<open>v\<close>, on an event for side \<open>d\<close>, can lead to.\<close>

definition next_ok :: "side \<Rightarrow> view \<Rightarrow> conn \<Rightarrow> bool" where
  "next_ok d v c \<longleftrightarrow>
    well_formed c \<and> phase (view c) \<and> transition (v_state v) (v_state (view c)) \<and> extends v (view c) \<and>
      v_client (view c) = v_client v \<and> (v_server v \<noteq> None \<longrightarrow> v_server (view c) \<noteq> None) \<or>
    released d v c"

lemma next_inv: "next_ok d v c \<Longrightarrow> conn_inv c"
  by (auto simp: next_ok_def conn_inv_def dest: released_inv [unfolded conn_inv_def])

lemma next_same: "well_formed c \<Longrightarrow> phase v \<Longrightarrow> view c = v \<Longrightarrow> next_ok d v c"
  by (simp add: next_ok_def transition.stay extends_refl)

section \<open>The environment\<close>

text \<open>
  The conditions on one step: descriptors the program has registered can be modified, the
  system calls behave, names are not resolved, and no client offers the method \<open>0xFF\<close>, which
  would make the lookup of \<^verbatim>\<open>waitingmethods\<close> leave \<^verbatim>\<open>configs->methods\<close>.
\<close>

definition offers_ok :: "os \<Rightarrow> view \<Rightarrow> bool" where
  "offers_ok e v \<longleftrightarrow> (\<forall>bs. v_state v = STATE_WAITING_METHODS \<and> received e (v_client v) v = Some bs \<and>
     methods_complete (v_in v @ bs) \<longrightarrow> 0xFF \<notin> set (offered (v_in v @ bs)))"

definition env_ok :: "os \<Rightarrow> Configs \<Rightarrow> conn \<Rightarrow> bool" where
  "env_ok e configs c \<longleftrightarrow> mod_ok e \<and> os_ok e (v_client (view c)) \<and> offers_ok e (view c) \<and>
     configs_ok configs \<and> \<not> allow_domains configs"

lemma env_okD:
  assumes "env_ok e configs c"
  shows "mod_ok e" and "os_ok e (v_client (view c))" and "offers_ok e (view c)" and "configs_ok configs"
    and "\<not> allow_domains configs"
  using assms by (simp_all add: env_ok_def)

section \<open>The handlers keep the invariant\<close>

lemma OUTBUFFSIZE_ge: "n \<le> 100 \<Longrightarrow> n \<le> OUTBUFFSIZE"
  by (simp add: OUTBUFFSIZE_def)

lemma step_waitingmethods:
  assumes wf: "well_formed c" and ph: "phase (view c)" and st: "v_state (view c) = STATE_WAITING_METHODS"
    and d: "side_fd d (view c) = Some fd" and env: "env_ok e configs c"
  shows "wp (waitingmethods e d configs ev c) (next_ok d (view c))"
proof (rule wp_waitingmethods [OF wf d])
  let ?v = "view c"
  note inv = ph [unfolded phase_def st conn_state.case]
  have cf: "length (cf_methods configs) = 255" using env_okD(4) [OF env] by (simp add: configs_ok_def)
  show "length (v_out ?v) + 2 \<le> OUTBUFFSIZE" using inv by (simp add: OUTBUFFSIZE_def)
  show "select_method (cf_methods configs) (offered (v_in ?v @ bs)) \<noteq> None"
    if "received e (v_client ?v) ?v = Some bs" "methods_complete (v_in ?v @ bs)" for bs
  proof -
    have "0xFF \<notin> set (offered (v_in ?v @ bs))"
      using env_okD(3) [OF env] that st by (simp add: offers_ok_def)
    from select_method_find [OF cf this] show ?thesis by simp
  qed
  show "next_ok d ?v c'" if "methods_outcome e d configs ev ?v c'" for c'
  proof (cases "ev AND EPOLLIN = 0 \<or> d \<noteq> Client")
    case True
    with that ph show ?thesis by (auto simp: methods_outcome_def intro: next_same)
  next
    case False
    then have dc: "d = Client" by simp
    show ?thesis
    proof (cases "received e (v_client ?v) ?v")
      case None
      with that False show ?thesis by (simp add: methods_outcome_def next_ok_def)
    next
      case (Some bs)
      let ?w = "after_recv (v_client ?v) bs ?v"
      have w: "phase ?w" "v_state ?w = STATE_WAITING_METHODS" "v_info ?w = v_info ?v" "v_server ?w = None"
        "v_out ?w = []"
        using inv st by (simp_all add: phase_def after_recv_def)
      consider (eof) "bs = []" | (part) "bs \<noteq> []" "\<not> methods_complete (v_in ?w)"
        | (all) "bs \<noteq> []" "methods_complete (v_in ?w)" by blast
      then show ?thesis
      proof cases
        case eof
        with that False Some show ?thesis by (simp add: methods_outcome_def next_ok_def)
      next
        case part
        with that False Some have "well_formed c'" "view c' = ?w" by (simp_all add: methods_outcome_def Let_def)
        with w st show ?thesis by (simp add: next_ok_def transition.stay extends_defs after_recv_def)
      next
        case all
        with that False Some have neg: "negotiated e configs ?w c'" by (simp add: methods_outcome_def Let_def)
        show ?thesis
        proof (cases "v_in ?w ! 0 = SOCKS5_VERSION")
          case True
          with neg env_okD(1) [OF env] obtain m where "well_formed c'" "view c' = selected m Client ?w"
            by (auto simp: negotiated_def)
          with w inv st show ?thesis
            by (simp add: next_ok_def phase_def selected_def transition_simps extends_defs after_recv_def waiting_send_def)
        next
          case no: False
          with neg dc show ?thesis by (simp add: negotiated_def next_ok_def after_recv_def)
        qed
      qed
    qed
  qed
qed

lemma unsent_next:
  assumes "unsent e Client fd n v c" and "mod_ok e" and "\<And>k. phase (after_send fd n k v)"
  shows "next_ok Client v c"
  using assms
  by (auto simp: unsent_def next_ok_def after_send_def extends_defs intro: transition.stay)

lemma step_sendingmethod:
  assumes wf: "well_formed c" and ph: "phase (view c)" and st: "v_state (view c) = STATE_SENDING_METHOD"
    and d: "side_fd d (view c) = Some fd" and env: "env_ok e configs c"
  shows "wp (sendingmethod e d ev c) (next_ok d (view c))"
proof (rule wp_sendingmethod [OF wf d])
  fix c'
  let ?v = "view c"
  note inv = ph [unfolded phase_def st conn_state.case]
  assume out: "sendmethod_outcome e d ev ?v c'"
  have phase_send: "phase (after_send fd' 2 k ?v)" for fd' k
    using inv st by (auto simp: phase_def after_send_def)
  show "next_ok d ?v c'"
  proof (cases "ev AND EPOLLOUT = 0 \<or> d \<noteq> Client")
    case True
    with out ph show ?thesis by (auto simp: sendmethod_outcome_def intro: next_same)
  next
    case False
    with out consider (un) "unsent e Client (v_client ?v) 2 ?v c'"
      | (on) "i_method (v_info ?v) = METH_NOAUTH" "well_formed c'"
          "view c' = negotiation_done (flushed (v_client ?v) Client 2 ?v)"
      | (off) "released Client ?v c'"
      by (auto simp: sendmethod_outcome_def split: if_splits)
    then show ?thesis
    proof cases
      case un
      with False env_okD(1) [OF env] phase_send show ?thesis by (auto intro: unsent_next)
    next
      case on
      with inv st show ?thesis
        by (auto simp: next_ok_def negotiation_done_def phase_def authorised_def transition_simps extends_defs
            flushed_def after_send_def done_sending_def Let_def)
    next
      case off
      with False show ?thesis by (simp add: next_ok_def)
    qed
  qed
qed

lemma error_replied_phase:
  assumes "i_resolver_ret (v_info v) = -1" "i_ai (v_info v) = []" "authorised v" "length (v_out v) \<le> 54"
  shows "phase (error_replied v)"
proof -
  have "fix_rep (v_rep v) \<noteq> REP_SUCCESS" using fix_rep_range [of "v_rep v"] by (auto simp: REP_SUCCESS_def)
  with assms show ?thesis by (simp add: phase_def authorised_def)
qed

lemma command_outcome_phase:
  assumes ph: "phase v" and st: "v_state v = STATE_WAITING_COMMAND" and co: "command_outcome v w"
    and w: "w' = (if needs_reply (v_rep w) then error_replied w else w)"
  shows "phase w' \<and> (v_state w' = STATE_SENDING_REPLY \<or> v_state w' = STATE_CONNECTING)"
proof -
  note inv = ph [unfolded phase_def st conn_state.case]
  have keep: "i_resolver_ret (v_info w) = -1" "i_ai (v_info w) = []" "authorised w" "length (v_out w) \<le> 22"
    using inv co by (simp_all add: command_outcome_def keeps_def authorised_def)
  show ?thesis
  proof (cases "needs_reply (v_rep w)")
    case True
    with w keep error_replied_phase [of w] show ?thesis by simp
  next
    case False
    then have "v_rep w \<noteq> REP_GENFAIL" "v_rep w \<noteq> REP_BADATYP"
      by (auto simp: needs_reply_def rep_consts)
    with co inv st have "v_state w = STATE_CONNECTING \<and> v_server w \<noteq> None \<and> v_out w = [] \<or>
        v_state w = STATE_SENDING_REPLY \<and> v_server w \<noteq> None"
      by (auto simp: command_outcome_def)
    with False w keep show ?thesis by (auto simp: phase_def)
  qed
qed

lemma run_outcome_phase:
  assumes ph: "phase v" and st: "v_state v = STATE_WAITING_COMMAND" and out: "run_outcome configs v v'"
  shows "phase v' \<and> (v_state v' = STATE_SENDING_REPLY \<or> v_state v' = STATE_CONNECTING)"
proof -
  note inv = ph [unfolded phase_def st conn_state.case authorised_def]
  show ?thesis
  proof (cases "firewall (v_info v) configs")
    case True
    with out inv show ?thesis
      by (auto simp: run_outcome_def authorised_def intro!: error_replied_phase)
  next
    case fw: False
    show ?thesis
    proof (cases "command_enabled configs (i_cmd (v_info v))")
      case True
      with out fw obtain w where "command_outcome v w" "v' = (if needs_reply (v_rep w) then error_replied w else w)"
        by (auto simp: run_outcome_def)
      then show ?thesis by (rule command_outcome_phase [OF ph st])
    next
      case False
      with out fw inv show ?thesis
        by (auto simp: run_outcome_def authorised_def intro!: error_replied_phase)
    qed
  qed
qed

lemma run_outcome_trace:
  "run_outcome configs v v' \<Longrightarrow> (\<exists>t. v_trace v' = v_trace v @ t) \<and> v_client v' = v_client v"
  by (auto simp: run_outcome_def command_outcome_def keeps_def split: if_splits)

lemma step_waitingcommand:
  assumes wf: "well_formed c" and ph: "phase (view c)" and st: "v_state (view c) = STATE_WAITING_COMMAND"
    and d: "side_fd d (view c) = Some fd" and env: "env_ok e configs c"
  shows "wp (waitingcommand e d configs ev c) (\<lambda>r. next_ok d (view c) (snd r))"
proof (rule wp_waitingcommand [OF wf d env_okD(1,5) [OF env], where R = "ran configs"])
  let ?v = "view c"
  note inv = ph [unfolded phase_def st conn_state.case]
  show "length (v_out ?v) + 10 \<le> OUTBUFFSIZE" using inv by (simp add: OUTBUFFSIZE_def)
  show "wp (run_command e d configs c') (ran configs (parsed (after_recv (v_client ?v) bs ?v)))"
    if "d = Client" "well_formed c'" "view c' = parsed (after_recv (v_client ?v) bs ?v)" for c' bs
    using wp_run_ran [OF that(2,1)] that(3) env_okD [OF env] inv
    by (simp add: parsed_def after_recv_def OUTBUFFSIZE_def)
  show "i_resolver_ret (v_info ?v) = -1" using inv by simp
  fix r assume out: "waitcommand_outcome e d configs (ran configs) ev ?v r"
  show "next_ok d ?v (snd r)"
  proof (cases "ev AND EPOLLIN = 0 \<or> d \<noteq> Client")
    case True
    with out ph show ?thesis by (auto simp: waitcommand_outcome_def intro: next_same)
  next
    case False
    then have dc: "d = Client" by simp
    show ?thesis
    proof (cases "received e (v_client ?v) ?v = None \<or> received e (v_client ?v) ?v = Some []")
      case True
      with out False show ?thesis by (auto simp: waitcommand_outcome_def next_ok_def)
    next
      case no: False
      then obtain bs where bs: "received e (v_client ?v) ?v = Some bs" "bs \<noteq> []" by auto
      define w where "w = after_recv (v_client ?v) bs ?v"
      have w: "phase w" "v_state w = STATE_WAITING_COMMAND" "v_out w = []"
        "i_resolver_ret (v_info w) = -1" "i_ai (v_info w) = []" "authorised w" "v_client w = v_client ?v"
        "\<And>c. released Client w c = released Client ?v c"
        using inv st by (simp_all add: phase_def after_recv_def authorised_def w_def)
      from out False bs have req: "request_outcome e configs (ran configs) w r"
        by (simp add: waitcommand_outcome_def w_def)
      have nn: "\<not> negotiating ?v" using st by (simp add: negotiating_def)
      have trace: "extends ?v u" if "\<exists>t. v_trace u = v_trace w @ t" for u
        using that nn by (intro extends_append) (auto simp: w_def after_recv_def)
      have same: ?thesis if "well_formed (snd r)" "view (snd r) = w"
        using that w st trace inv by (simp add: next_ok_def transition.stay)
      have moved: ?thesis if "well_formed (snd r)" "phase (view (snd r))"
          "v_state (view (snd r)) = STATE_SENDING_REPLY \<or> v_state (view (snd r)) = STATE_CONNECTING"
          "\<exists>t. v_trace (view (snd r)) = v_trace w @ t" "v_client (view (snd r)) = v_client w"
        using that st trace w inv by (auto simp: next_ok_def transition_simps)
      have handled: ?thesis if "handle_outcome e (ran configs) w r"
      proof -
        have info: "phase (parsed w)" "v_state (parsed w) = STATE_WAITING_COMMAND"
          "phase (w\<lparr>v_info := request_info (v_in w) (v_info w), v_trace := tr\<rparr>)" for tr
          using w by (simp_all add: phase_def parsed_def request_info_def authorised_def)
        from that consider (closed) "released Client w (snd r)"
          | (nomem) "well_formed (snd r)"
              "\<exists>tr. view (snd r) = w\<lparr>v_info := request_info (v_in w) (v_info w), v_trace := v_trace w @ tr\<rparr>"
          | (run) "well_formed (snd r)" "run_outcome configs (parsed w) (view (snd r))"
          by (auto simp: handle_outcome_def ran_def split: if_splits prod.splits)
        then show ?thesis
        proof cases
          case closed
          with w dc show ?thesis by (simp add: next_ok_def)
        next
          case nomem
          with w info st trace inv show ?thesis by (auto simp: next_ok_def transition.stay)
        next
          case run
          then have "\<exists>t. v_trace (view (snd r)) = v_trace w @ t" "v_client (view (snd r)) = v_client w"
            using run_outcome_trace [OF run(2)] by (auto simp: parsed_def)
          with run run_outcome_phase [OF info(1,2)] moved show ?thesis by blast
        qed
      qed
      show ?thesis
      proof (cases "length (v_in w) < 5")
        case True
        with req same show ?thesis by (simp add: request_outcome_def)
      next
        case l: False
        show ?thesis
        proof (cases "request_len configs (v_in w)")
          case None
          have "phase (error_replied (refusing REP_BADATYP [] w))"
            using w by (intro error_replied_phase) (simp_all add: authorised_def)
          with None l req moved show ?thesis by (auto simp: request_outcome_def)
        next
          case (Some n)
          with l req same handled show ?thesis by (auto simp: request_outcome_def split: if_splits)
        qed
      qed
    qed
  qed
qed

lemma step_sendingreply:
  assumes wf: "well_formed c" and ph: "phase (view c)"
    and st: "v_state (view c) = STATE_SENDING_REPLY \<or> v_state (view c) = STATE_SENDING_REPLY_2"
    and d: "side_fd d (view c) = Some fd" and env: "env_ok e configs c"
  shows "wp (sendingreply e d ev c) (next_ok d (view c))"
proof (rule wp_sendingreply [OF wf d])
  fix c'
  let ?v = "view c"
  assume out: "sendreply_outcome e d ev ?v c'"
  have phase_send: "phase (after_send fd' 300 k ?v)" for fd' k
    using ph st by (auto simp: phase_def after_send_def authorised_def)
  show "next_ok d ?v c'"
  proof (cases "ev AND EPOLLOUT = 0 \<or> d \<noteq> Client")
    case True
    with out ph show ?thesis by (auto simp: sendreply_outcome_def intro: next_same)
  next
    case False
    with out consider (un) "unsent e Client (v_client ?v) 300 ?v c'"
      | (on) "v_rep ?v = REP_SUCCESS" "well_formed c'"
          "view c' = after_reply (flushed (v_client ?v) Client 300 ?v)"
      | (off) "released Client ?v c'"
      by (auto simp: sendreply_outcome_def split: if_splits)
    then show ?thesis
    proof cases
      case un
      with False env_okD(1) [OF env] phase_send show ?thesis by (auto intro: unsent_next)
    next
      case on
      from ph st have "length (v_out ?v) \<le> 64" by (auto simp: phase_def)
      then have "drop 300 (v_out ?v) = []" by simp
      moreover have "CMD_BIND \<noteq> CMD_CONN" "CMD_UDPA \<noteq> CMD_BIND" by (simp_all add: socks_consts)
      ultimately have "phase (view c') \<and> transition (v_state ?v) (v_state (view c'))"
        using on ph st
        by (auto simp: phase_def authorised_def after_reply_def transition_simps)
      moreover have "extends ?v (view c')"
        using on st by (intro extends_append) (auto simp: negotiating_def after_reply_def flushed_def after_send_def Let_def)
      ultimately show ?thesis using on by (simp add: next_ok_def)
    next
      case off
      with False show ?thesis by (simp add: next_ok_def)
    qed
  qed
qed

text \<open>An error reply that fits, from any state of an authorised connection.\<close>

lemma replied_next:
  assumes r: "replied e d (refusing rep t w) c'" and ok: "mod_ok e"
    and w: "i_resolver_ret (v_info w) = -1" "i_ai (v_info w) = []" "authorised w" "length (v_out w) \<le> 54"
    and tr: "transition (v_state v) STATE_SENDING_REPLY" and nn: "\<not> negotiating v" "\<exists>u. v_trace w = v_trace v @ u"
    and cl: "v_client w = v_client v" and sv: "v_server v \<noteq> None \<longrightarrow> v_server w \<noteq> None"
  shows "next_ok d' v c'"
proof -
  have "well_formed c'" "view c' = error_replied (refusing rep t w)"
    using replied_room [OF r ok] w(4) OUTBUFFSIZE_ge [of 64] by (simp_all add: OUTBUFFSIZE_def)
  moreover have "phase (error_replied (refusing rep t w))"
    using w by (intro error_replied_phase) (simp_all add: authorised_def)
  moreover have "extends v (error_replied (refusing rep t w))"
    using nn by (intro extends_append) auto
  ultimately show ?thesis using tr cl sv by (simp add: next_ok_def)
qed

lemma step_connecting:
  assumes wf: "well_formed c" and ph: "phase (view c)" and st: "v_state (view c) = STATE_CONNECTING"
    and d: "side_fd d (view c) = Some fd" and env: "env_ok e configs c"
  shows "wp (connecting e d ev c) (next_ok d (view c))"
proof -
  let ?v = "view c"
  note inv = ph [unfolded phase_def st conn_state.case]
  from inv obtain sfd where sv: "v_server ?v = Some sfd" by auto
  have move: "transition (v_state ?v) STATE_SENDING_REPLY" by (simp add: st transition_simps)
  have nn: "\<not> negotiating ?v" using st by (simp add: negotiating_def)
  have refused: "next_ok d ?v c'" if "replied e Server (refusing rep t w) c'"
    "v_info w = v_info ?v" "v_out w = v_out ?v" "\<exists>u. v_trace w = v_trace ?v @ u"
    "v_client w = v_client ?v" "v_server w = v_server ?v" for rep t w c'
    using that inv move nn by (intro replied_next [OF that(1) env_okD(1) [OF env]]) (simp_all add: authorised_def)
  show ?thesis
  proof (rule wp_connecting [OF wf d env_okD(1,2) [OF env] sv])
    show "length (v_out ?v) + 22 \<le> OUTBUFFSIZE" using inv by (simp add: OUTBUFFSIZE_def)
    fix c' assume out: "connecting_outcome e d ev ?v c'"
    show "next_ok d ?v c'"
    proof (cases "ev AND EPOLLOUT = 0 \<or> d \<noteq> Server")
      case True
      with out ph show ?thesis by (auto simp: connecting_outcome_def intro: next_same)
    next
      case False
      let ?n = "length (v_trace ?v)"
      have done_ok: ?thesis if c': "well_formed c'" "view c' = connected sfd ss ?v"
        and name: "os_getsockname e (Suc ?n) sfd = Some ss" for ss
      proof -
        note os = env_okD(2) [OF env]
        have "length (addr_bytes ss (the (sa_port ss))) \<le> 19"
          by (rule sa_port_bytes_le [OF os name os_okD(4) [OF os name]])
        with c' inv sv move show ?thesis
          by (simp add: next_ok_def phase_def connected_def authorised_def extends_append [OF _ nn])
      qed
      have failed: ?thesis if "connect_failed_outcome e Server error (?v\<lparr>v_trace := v_trace ?v @ tr\<rparr>) c'" for error tr
      proof -
        let ?w = "?v\<lparr>v_trace := v_trace ?v @ tr\<rparr>"
        have "next_address ?w = ?w" using inv by (simp add: next_address_def)
        then have "replied e Server (refusing (errno_rep error) [] ?w) c'"
          using that inv by (simp add: connect_failed_outcome_def)
        then show ?thesis by (rule refused) simp_all
      qed
      have refused_now: ?thesis if "replied e Server (refusing rep t ?v) c'" for rep t
        using that by (rule refused) simp_all
      from out False sv have "case os_getsockopt e ?n sfd of
          None \<Rightarrow> replied e Server (refusing REP_GENFAIL [Sys_getsockopt sfd None, Sys_log_error L_GETSOCKOPTFAIL] ?v) c'
        | Some error \<Rightarrow>
          if error = 0 then
            (case os_getsockname e (Suc ?n) sfd of
               None \<Rightarrow> replied e Server (refusing REP_GENFAIL
                 [Sys_getsockopt sfd (Some 0), Sys_getsockname sfd None, Sys_log_error L_GETSOCKNAMEFAIL] ?v) c'
             | Some ss \<Rightarrow> well_formed c' \<and> view c' = connected sfd ss ?v)
          else connect_failed_outcome e Server error
            (?v\<lparr>v_trace := v_trace ?v @ [Sys_getsockopt sfd (Some error)]\<rparr>) c'"
        by (simp add: connecting_outcome_def Let_def)
      then show ?thesis
        by (auto split: option.splits if_splits dest: refused_now done_ok failed)
    qed
  qed
qed

lemma bind_refused_next:
  assumes "bind_refused rep v (view c')" and "well_formed c'" and "phase v" and "v_state v = STATE_BIND_LISTENING"
  shows "next_ok d v c'"
proof -
  from assms(1) obtain s a q t where q: "s \<noteq> None" "length q \<le> length (v_out v) + 3"
    and c': "view c' = error_replied (refusing rep t (v\<lparr>v_server := s, v_access := a, v_out := q\<rparr>))"
    unfolding bind_refused_def by blast
  have "phase (view c')"
    unfolding c' using assms(3,4) q by (intro error_replied_phase) (auto simp: phase_def authorised_def)
  moreover have "extends v (view c')"
    using assms(4) unfolding c' by (intro extends_append) (simp_all add: negotiating_def)
  ultimately show ?thesis using assms(2,4) c' q(1) by (simp add: next_ok_def transition_simps)
qed

lemma step_bindlistening:
  assumes wf: "well_formed c" and ph: "phase (view c)" and st: "v_state (view c) = STATE_BIND_LISTENING"
    and d: "side_fd d (view c) = Some fd" and env: "env_ok e configs c"
  shows "wp (bindlistening e d ev c) (next_ok d (view c))"
proof -
  let ?v = "view c"
  note inv = ph [unfolded phase_def st conn_state.case]
  from inv obtain sfd where sv: "v_server ?v = Some sfd" by auto
  show ?thesis
  proof (rule wp_bindlistening [OF wf d env_okD(1,2) [OF env] sv])
    show "length (v_out ?v) + 22 \<le> OUTBUFFSIZE" using inv by (simp add: OUTBUFFSIZE_def)
    fix c' assume out: "bindlistening_outcome e d ev ?v c'"
    then have c': "well_formed c'" by (simp add: bindlistening_outcome_def)
    note refused = bind_refused_next [OF _ c' ph st]
    have acc: "next_ok d ?v c'" if a: "accepted e sfd new_fd ss ?v (view c')"
      and os: "os_accept e (length (v_trace ?v)) sfd = Some (new_fd, ss)" for new_fd ss
    proof -
      have sa: "sa_wf ss" using os_okD(3) [OF env_okD(2) [OF env] os] .
      have "length (addr_bytes ss (the (sa_port ss))) \<le> 19" using sa by (cases ss) auto
      with a inv c' st show ?thesis
        by (auto simp: accepted_def next_ok_def phase_def authorised_def transition_simps extends_defs)
    qed
    show "next_ok d ?v c'"
    proof (cases "ev AND EPOLLIN = 0 \<or> d \<noteq> Server")
      case True
      with out ph c' show ?thesis by (auto simp: bindlistening_outcome_def intro: next_same)
    next
      case False
      with out sv show ?thesis
        by (auto simp: bindlistening_outcome_def split: option.splits prod.splits dest: refused acc)
    qed
  qed
qed

lemma step_full:
  assumes wf: "well_formed c" and ph: "phase (view c)" and st: "v_state (view c) = STATE_FULL"
    and d: "side_fd d (view c) = Some fd" and env: "env_ok e configs c"
  shows "wp (full e d ev c) (next_ok d (view c))"
proof -
  let ?v = "view c"
  note inv = ph [unfolded phase_def st conn_state.case]
  from inv d obtain pfd where p: "side_fd (other d) ?v = Some pfd" by (cases d) auto
  have "phase (relay_step e d fd pfd ev ?v) \<and> transition (v_state ?v) (v_state (relay_step e d fd pfd ev ?v))"
    using inv st
    by (auto simp: relay_step_def relay_send_def relay_recv_def Let_def phase_def authorised_def
        transition_simps split: option.split)
  moreover have "extends ?v (relay_step e d fd pfd ev ?v)"
    using st
    by (auto simp: relay_step_def relay_send_def relay_recv_def Let_def extends_defs split: option.split)
  ultimately show ?thesis
    by (intro wp_full [OF wf d p env_okD(1) [OF env]]) (simp add: next_ok_def)
qed

section \<open>The dispatcher\<close>

lemma wp_ret0: "wp (ret0 m) Q \<longleftrightarrow> wp m (\<lambda>c. Q (0, c))"
  by (cases m) (simp_all add: ret0_def)

lemma wp_closed:
  assumes wf: "well_formed c" and d: "side_fd d (view c) = Some fd" and st: "v_state (view c) = STATE_CLOSED"
    and Q: "\<And>c'. released d (view c) c' \<Longrightarrow> Q c'"
  shows "wp (closed e d c) Q"
  using assms
  by (auto simp: closed_def wf_data close_fd_def ep_delete_fd_def epoll_ctl_def Let_def
      intro!: wp_free_data [where fd = fd] Q)

lemma step_live:
  assumes wf: "well_formed c" and ph: "phase (view c)" and d: "side_fd d (view c) = Some fd"
    and env: "env_ok e configs c"
  shows "wp (socks5 e d ev configs c) (\<lambda>r. next_ok d (view c) (snd r))"
proof -
  let ?v = "view c"
  have dispatch: "socks5 e d ev configs c = do {
      (ret, c) \<leftarrow> (case v_state ?v of
            STATE_NO_STATE \<Rightarrow> Some (0, c)
          | STATE_WAITING_METHODS \<Rightarrow> ret0 (waitingmethods e d configs ev c)
          | STATE_SENDING_METHOD \<Rightarrow> ret0 (sendingmethod e d ev c)
          | STATE_AUTHENTICATING \<Rightarrow> Some (0, c)
          | STATE_WAITING_COMMAND \<Rightarrow> waitingcommand e d configs ev c
          | STATE_ASYNC_DNS \<Rightarrow> Some (0, c)
          | STATE_SENDING_REPLY \<Rightarrow> ret0 (sendingreply e d ev c)
          | STATE_SENDING_REPLY_2 \<Rightarrow> ret0 (sendingreply e d ev c)
          | STATE_CONNECTING \<Rightarrow> ret0 (connecting e d ev c)
          | STATE_BIND_LISTENING \<Rightarrow> ret0 (bindlistening e d ev c)
          | STATE_FULL \<Rightarrow> ret0 (full e d ev c)
          | STATE_FULL_UDPA \<Rightarrow> full_udpa c
          | STATE_HALF_CLOSE \<Rightarrow> ret0 (half_close c)
          | STATE_CLOSED \<Rightarrow> ret0 (closed e d c));
      Some (word_of_int ret, c) }"
    using wf d by (simp add: socks5_def wf_data wf_shared wf_state)
  have half: "wp (half_close c) (next_ok d ?v)" if "v_state ?v = STATE_HALF_CLOSE"
    unfolding half_close_def
    by (rule wp_set_state [OF wf])
      (use that ph in \<open>auto simp: next_ok_def phase_def authorised_def transition_simps extends_defs\<close>)
  have closing: "wp (closed e d c) (next_ok d ?v)" if "v_state ?v = STATE_CLOSED"
    by (rule wp_closed [OF wf d that]) (simp add: next_ok_def)
  have same: "next_ok d ?v c" using wf ph by (auto intro: next_same)
  note steps = step_waitingmethods [OF wf ph _ d env] step_sendingmethod [OF wf ph _ d env]
    step_sendingreply [OF wf ph _ d env] step_connecting [OF wf ph _ d env]
    step_bindlistening [OF wf ph _ d env] step_full [OF wf ph _ d env]
  have waiting: "wp (waitingcommand e d configs ev c) (\<lambda>r. next_ok d ?v (snd r))"
    if "v_state ?v = STATE_WAITING_COMMAND"
    by (rule step_waitingcommand [OF wf ph that d env])
  show ?thesis
    unfolding dispatch
    using ph half closing same steps waiting
    by (cases "v_state ?v") (simp_all add: wp_ret0 full_udpa_def phase_def case_prod_unfold)
qed

lemma step_remains:
  assumes "remains d fd c"
  shows "wp (socks5 e d ev configs c) (\<lambda>r. gone (snd r))"
proof -
  let ?c = "snd (epoll_ctl e EPOLL_CTL_DEL fd 0 Null_ptr (close_fd fd c))"
  have "socks5 e d ev configs c = do { c \<leftarrow> free_data d ?c; Some (0, c) }"
    using assms
    by (auto simp: remains_def socks5_def closed_def ep_delete_fd_def ret0_def map_conv_bind_option
        intro!: Option.bind_cong)
  moreover have "remains d fd ?c" using assms by (simp add: epoll_ctl_def close_fd_def Let_def)
  ultimately show ?thesis by (auto intro: wp_free_last)
qed

text \<open>The result of the dispatcher on a connection of which side \<open>d\<close> still has its \<^verbatim>\<open>Data\<close>.\<close>

lemma socks5_step:
  assumes inv: "conn_inv c" and d: "get_data d c \<noteq> None" and env: "well_formed c \<longrightarrow> env_ok e configs c"
  shows "wp (socks5 e d ev configs c) (\<lambda>r. conn_inv (snd r))"
proof -
  consider (live) "well_formed c" "phase (view c)" | (half) d' fd where "remains d' fd c" | (none) "gone c"
    using inv unfolding conn_inv_def by blast
  then show ?thesis
  proof cases
    case live
    then obtain fd where "side_fd d (view c) = Some fd" using d by (cases "side_fd d (view c)") (simp_all add: wf_data)
    with live env show ?thesis by (auto intro: wp_mono [OF step_live] next_inv)
  next
    case half
    then have "d' = d" using d by (cases d'; cases d) (auto simp: remains_def)
    with half show ?thesis by (auto simp: conn_inv_def intro: wp_mono [OF step_remains])
  next
    case none
    with d show ?thesis by (cases d) (simp_all add: gone_def)
  qed
qed

end
