(* ===== verification/Reachability.thy ===== *)
theory Reachability
  imports Machine
begin

text \<open>
  The life of a connection: the connections reachable from an accepted client by events, what
  holds of all of them, and how they end.
\<close>

section \<open>A new connection\<close>

text \<open>\<^verbatim>\<open>accept\<close> returns a descriptor or \<open>-1\<close>, which the model reads as \<open>None\<close>.\<close>

definition accept_ok :: "os \<Rightarrow> bool" where
  "accept_ok e \<longleftrightarrow> (\<forall>k l s ss. os_accept e k l = Some (s, ss) \<longrightarrow> 0 \<le> s)"

fun sends :: "sys \<Rightarrow> bool" where
  "sends (Sys_send fd bs r) = True"
| "sends a = False"

lemma accept_new_client_result:
  assumes "accept_new_client e fd = (0, c)" and "accept_ok e"
  shows "well_formed c" and "v_state (view c) = STATE_WAITING_METHODS" and "v_out (view c) = []"
    and "v_in (view c) = []" and "v_info (view c) = new_info" and "v_server (view c) = None"
    and "\<forall>a \<in> set (c_trace c). \<not> outbound a \<and> \<not> sends a"
proof -
  have ring: "ring_ok (new_ring OUTBUFFSIZE (heap_bytes e OUTBUFFSIZE c))" for c
    by (simp add: ring_ok_def OUTBUFFSIZE_def) (simp add: new_ring_def)
  from assms(1) obtain new_fd ss mem1 mem2 t where acc: "os_accept e 0 fd = Some (new_fd, ss)"
    and c: "c = \<lparr>c_shared = Some (new_shared new_fd ss mem1 mem2), c_client = Some (peer new_fd),
      c_server = None, c_trace = t\<rparr>"
    and mem: "ring_ok (new_ring OUTBUFFSIZE mem1)" "ring_ok (new_ring OUTBUFFSIZE mem2)"
    and t: "\<forall>a \<in> set t. \<not> outbound a \<and> \<not> sends a"
    using ring
    by (auto simp: accept_new_client_def no_conn_def sys_defs ep_add_new_client_def Let_def now_def emit_def
        peer_def split: option.splits prod.splits if_splits)
  have "0 \<le> new_fd" using assms(2) acc unfolding accept_ok_def by blast
  with mem show "well_formed c" by (simp add: c well_formed_def new_shared_def)
  show "v_state (view c) = STATE_WAITING_METHODS" "v_out (view c) = []" "v_in (view c) = []"
    "v_info (view c) = new_info" "v_server (view c) = None"
    by (simp_all add: c view_def the_shared_def new_shared_def Let_def)
  show "\<forall>a \<in> set (c_trace c). \<not> outbound a \<and> \<not> sends a" using t by (simp add: c)
qed

lemma accept_new_client_view:
  assumes "accept_new_client e fd = (0, c)" and "accept_ok e"
  shows "well_formed c \<and> phase (view c) \<and> negotiating (view c) \<and>
    (\<forall>a \<in> set (c_trace c). \<not> outbound a)"
  using accept_new_client_result [OF assms] by (simp add: phase_def negotiating_def new_info_def)

section \<open>Reachable connections\<close>

inductive reachable :: "Configs \<Rightarrow> conn \<Rightarrow> bool" for configs where
  accept: "accept_new_client e fd = (0, c) \<Longrightarrow> accept_ok e \<Longrightarrow> reachable configs c"
| event: "reachable configs c \<Longrightarrow> get_data d c \<noteq> None \<Longrightarrow> (well_formed c \<longrightarrow> env_ok e configs c) \<Longrightarrow>
    socks5 e d ev configs c = Some (r, c') \<Longrightarrow> reachable configs c'"

lemma not_wf_remains: "remains d fd c \<Longrightarrow> \<not> well_formed c"
  by (auto simp: remains_def well_formed_def)

lemma not_wf_gone: "gone c \<Longrightarrow> \<not> well_formed c"
  by (auto simp: gone_def well_formed_def)

lemma not_wf_released: "released d v c \<Longrightarrow> \<not> well_formed c"
  by (auto simp: released_def not_wf_remains not_wf_gone split: option.splits)

lemma conn_inv_phase: "conn_inv c \<Longrightarrow> well_formed c \<Longrightarrow> phase (view c)"
  by (auto simp: conn_inv_def not_wf_remains not_wf_gone)

lemma reachable_inv: "reachable configs c \<Longrightarrow> conn_inv c"
proof (induction rule: reachable.induct)
  case (accept e fd c)
  then show ?case using accept_new_client_view by (simp add: conn_inv_def)
next
  case (event c d e ev r c')
  then show ?case using wp_SomeD [OF socks5_step] by fastforce
qed

text \<open>A step from a live connection to a live connection.\<close>

lemma live_step:
  assumes "conn_inv c" and "get_data d c \<noteq> None" and env: "well_formed c \<longrightarrow> env_ok e configs c"
    and step: "socks5 e d ev configs c = Some (r, c')"
  shows "if well_formed c then next_ok d (view c) c' else gone c'"
proof (cases "well_formed c")
  case True
  then obtain fd where "side_fd d (view c) = Some fd"
    using assms(2) by (cases "side_fd d (view c)") (simp_all add: wf_data)
  with True env wp_SomeD [OF step_live step] conn_inv_phase [OF assms(1)] show ?thesis by simp
next
  case False
  with assms(1,2) obtain d' fd where "remains d' fd c"
    by (cases d) (auto simp: conn_inv_def gone_def)
  moreover from this have "d' = d" using assms(2) by (cases d'; cases d) (auto simp: remains_def)
  ultimately show ?thesis using False wp_SomeD [OF step_remains step] by simp
qed

section \<open>The history of a connection\<close>

definition history_ok :: "conn \<Rightarrow> bool" where
  "history_ok c \<longleftrightarrow>
    (if negotiating (view c) then \<forall>a \<in> set (c_trace c). \<not> outbound a
     else \<exists>pre acc post. c_trace c = pre @ Sys_log_access A_METHNOAUTH acc # post \<and>
       (\<forall>a \<in> set pre. \<not> outbound a))"

lemma transition_negotiating:
  assumes "transition s s'"
  shows "s' \<in> {STATE_WAITING_METHODS, STATE_SENDING_METHOD} \<Longrightarrow> s \<in> {STATE_WAITING_METHODS, STATE_SENDING_METHOD}"
    and "s \<in> {STATE_WAITING_METHODS, STATE_SENDING_METHOD} \<Longrightarrow>
      s' \<in> {STATE_WAITING_METHODS, STATE_SENDING_METHOD, STATE_WAITING_COMMAND}"
  using assms by (induction rule: transition.induct) auto

lemma split_at:
  assumes "x \<in> set ys"
  shows "\<exists>pre post. ys = pre @ x # post"
  using assms by (rule split_list)

lemma reachable_history: "reachable configs c \<Longrightarrow> well_formed c \<Longrightarrow> history_ok c"
proof (induction rule: reachable.induct)
  case (accept e fd c)
  then show ?case using accept_new_client_view by (simp add: history_ok_def)
next
  case (event c d e ev r c')
  from live_step [OF reachable_inv [OF event(1)] event(2-4)] event.prems
  have wf: "well_formed c" and tr: "transition (v_state (view c)) (v_state (view c'))"
    and ext: "extends (view c) (view c')"
    by (auto simp: next_ok_def not_wf_released not_wf_gone split: if_splits)
  from event.IH wf have hist: "history_ok c" by blast
  define new where "new = new_actions (view c) (view c')"
  have trace: "c_trace c' = c_trace c @ new"
    using ext append_take_drop_id [of "length (v_trace (view c))" "v_trace (view c')"]
    by (simp add: new_def extends_def new_actions_def view_trace)
  show ?case
  proof (cases "negotiating (view c)")
    case True
    with hist ext have quiet: "\<forall>a \<in> set (c_trace c'). \<not> outbound a"
      by (auto simp: history_ok_def trace extends_def new_def)
    show ?thesis
    proof (cases "negotiating (view c')")
      case True
      with quiet show ?thesis by (simp add: history_ok_def)
    next
      case False
      with True transition_negotiating(2) [OF tr] have "v_state (view c') = STATE_WAITING_COMMAND"
        by (auto simp: negotiating_def)
      with ext True obtain acc where "Sys_log_access A_METHNOAUTH acc \<in> set new"
        by (auto simp: extends_def new_def)
      then obtain pre post where "new = pre @ Sys_log_access A_METHNOAUTH acc # post"
        by (blast dest: split_at)
      with trace quiet False show ?thesis
        by (auto simp: history_ok_def intro!: exI [of _ "c_trace c @ pre"])
    qed
  next
    case False
    with transition_negotiating(1) [OF tr] have still: "\<not> negotiating (view c')" by (auto simp: negotiating_def)
    from False hist obtain pre acc post where "c_trace c = pre @ Sys_log_access A_METHNOAUTH acc # post"
      and pre: "\<forall>a \<in> set pre. \<not> outbound a" by (auto simp: history_ok_def)
    with trace have "c_trace c' = pre @ Sys_log_access A_METHNOAUTH acc # post @ new" by simp
    with pre show ?thesis unfolding history_ok_def if_not_P [OF still] by blast
  qed
qed

section \<open>A concrete environment\<close>

text \<open>
  A system in which every call succeeds and every \<^verbatim>\<open>accept\<close> returns
  \<open>new_fd\<close> and every \<^verbatim>\<open>recv\<close> returns \<open>bs\<close>, a configuration that
  allows everything but names, and the connection of a client it accepts.
\<close>

definition demo_os :: "fd \<Rightarrow> byte list \<Rightarrow> os" where
  "demo_os new_fd bs = \<lparr>os_recv = \<lambda>_ _. Some bs, os_send = \<lambda>_ _. Some 10000, os_epoll_ctl = \<lambda>_ _ _. True,
    os_socket = \<lambda>_. Some 7, os_connect = \<lambda>_ _. 0, os_bind = \<lambda>_ _. True, os_listen = \<lambda>_ _. True,
    os_accept = \<lambda>_ _. Some (new_fd, SIN [127, 0, 0, 1] [0, 80]),
    os_getsockname = \<lambda>_ _. Some (SIN [10, 0, 0, 1] [0, 99]), os_getsockopt = \<lambda>_ _. Some 0,
    os_setsockopt = \<lambda>_ _. True, os_malloc = \<lambda>_. True, os_heap = \<lambda>_. [], os_shared_ptr = replicate 8 0,
    os_node_mem = \<lambda>_. replicate 24 0\<rparr>"

definition demo_configs :: Configs where
  "demo_configs = \<lparr>listen_head = [], a_log = [], e_log = [], max_conns = 100, allow_domains = False,
    allow_connect = True, allow_bind = True, allow_udpassoc = True, cf_methods = 1 # replicate 254 0,
    bind_advertise = [], bind_listen = [], udpa_advertise = [], udpa_listen = [], block_head = []\<rparr>"

definition demo_conn :: conn where
  "demo_conn = snd (accept_new_client (demo_os 5 []) 3)"

lemma demo_accept: "accept_new_client (demo_os 5 []) 3 = (0, demo_conn)"
  by (simp add: demo_conn_def accept_new_client_def demo_os_def sys_defs ep_add_new_client_def Let_def)

lemma demo_accept_ok: "accept_ok (demo_os 5 bs)"
  by (simp add: accept_ok_def demo_os_def)

lemma demo_reachable: "reachable demo_configs demo_conn"
  by (rule reachable.accept [OF demo_accept demo_accept_ok])

lemma demo_wf: "well_formed demo_conn"
  using accept_new_client_view [OF demo_accept demo_accept_ok] by simp

lemma demo_state: "v_state (view demo_conn) = STATE_WAITING_METHODS" "v_in (view demo_conn) = []"
  "v_client (view demo_conn) = 5" "get_data Client demo_conn \<noteq> None"
  by (simp_all add: demo_conn_def accept_new_client_def demo_os_def sys_defs ep_add_new_client_def Let_def
      view_def the_shared_def new_shared_def)

lemma demo_env:
  assumes "0xFF \<notin> set (drop 2 bs)"
  shows "env_ok (demo_os 6 bs) demo_configs demo_conn"
proof -
  have "mod_ok (demo_os 6 bs)" "os_ok (demo_os 6 bs) 5"
    by (simp_all add: mod_ok_def os_ok_def demo_os_def)
  moreover have "offers_ok (demo_os 6 bs) (view demo_conn)"
  proof -
    have "0xFF \<notin> set (offered (take n bs))" for n
    proof -
      have "set (offered (take n bs)) \<subseteq> set (drop 2 (take n bs))"
        unfolding offered_def by (rule set_take_subset)
      also have "\<dots> \<subseteq> set (drop 2 bs)" unfolding drop_take by (rule set_take_subset)
      finally show ?thesis using assms by blast
    qed
    then show ?thesis by (simp add: offers_ok_def demo_state received_def demo_os_def)
  qed
  ultimately show ?thesis by (simp add: env_ok_def demo_state configs_ok_def demo_configs_def)
qed

lemma demo_step:
  assumes "0xFF \<notin> set (drop 2 bs)"
  shows "\<exists>r c'. socks5 (demo_os 6 bs) Client EPOLLIN demo_configs demo_conn = Some (r, c')"
  using socks5_step [OF reachable_inv [OF demo_reachable] demo_state(4), of "demo_os 6 bs" demo_configs EPOLLIN]
    demo_env [OF assms] unfolding wp_iff by force

section \<open>Properties\<close>





end
