(* ===== verification/Handshake.thy ===== *)
theory Handshake
  imports Reachability
begin

text \<open>
  The handshake as a client sees it: the dispatcher on each state, the negotiation of a method
  from a message that arrives in any chunks, and the CONNECT command from the request to the
  relay, with the bytes that go out.
\<close>

section \<open>The dispatcher by state\<close>

lemma socks5_by_state:
  assumes wf: "well_formed c" and d: "side_fd d (view c) = Some fd"
  shows "v_state (view c) = STATE_WAITING_METHODS \<Longrightarrow>
      socks5 e d ev configs c = do { c \<leftarrow> waitingmethods e d configs ev c; Some (0, c) }"
    and "v_state (view c) = STATE_SENDING_METHOD \<Longrightarrow>
      socks5 e d ev configs c = do { c \<leftarrow> sendingmethod e d ev c; Some (0, c) }"
    and "v_state (view c) = STATE_WAITING_COMMAND \<Longrightarrow>
      socks5 e d ev configs c = do { (r, c) \<leftarrow> waitingcommand e d configs ev c; Some (word_of_int r, c) }"
    and "v_state (view c) = STATE_CONNECTING \<Longrightarrow>
      socks5 e d ev configs c = do { c \<leftarrow> connecting e d ev c; Some (0, c) }"
    and "v_state (view c) = STATE_SENDING_REPLY \<Longrightarrow>
      socks5 e d ev configs c = do { c \<leftarrow> sendingreply e d ev c; Some (0, c) }"
    and "v_state (view c) = STATE_FULL \<Longrightarrow>
      socks5 e d ev configs c = do { c \<leftarrow> full e d ev c; Some (0, c) }"
    and "v_state (view c) = STATE_HALF_CLOSE \<Longrightarrow>
      socks5 e d ev configs c = do { c \<leftarrow> half_close c; Some (0, c) }"
    and "v_state (view c) = STATE_CLOSED \<Longrightarrow>
      socks5 e d ev configs c = do { c \<leftarrow> closed e d c; Some (0, c) }"
    and "v_state (view c) = STATE_SENDING_REPLY_2 \<Longrightarrow>
      socks5 e d ev configs c = do { c \<leftarrow> sendingreply e d ev c; Some (0, c) }"
  using wf d
  by (simp_all add: socks5_def wf_data wf_shared wf_state ret0_def map_conv_bind_option Option.bind_assoc
      bind_map_option o_def)

section \<open>A message in chunks\<close>

text \<open>The same system, except that the next \<^verbatim>\<open>recv\<close> returns \<open>bs\<close>.\<close>

definition deliver :: "os \<Rightarrow> byte list \<Rightarrow> os" where
  "deliver e bs = e\<lparr>os_recv := \<lambda>_ _. Some bs\<rparr>"

lemma deliver_simps [simp]:
  "os_recv (deliver e bs) k fd = Some bs" "os_send (deliver e bs) = os_send e"
  "os_epoll_ctl (deliver e bs) = os_epoll_ctl e" "os_malloc (deliver e bs) = os_malloc e"
  "os_socket (deliver e bs) = os_socket e" "os_connect (deliver e bs) = os_connect e"
  "os_getsockopt (deliver e bs) = os_getsockopt e" "os_getsockname (deliver e bs) = os_getsockname e"
  "mod_ok (deliver e bs) = mod_ok e" "os_ok (deliver e bs) = os_ok e"
  by (simp_all add: deliver_def mod_ok_def os_ok_def fun_eq_iff)

text \<open>A client whose bytes arrive in the chunks \<open>css\<close>.\<close>

fun feed :: "os \<Rightarrow> Configs \<Rightarrow> byte list list \<Rightarrow> conn \<Rightarrow> conn option" where
  "feed e configs [] c = Some c"
| "feed e configs (bs # css) c = do {
     (_, c) \<leftarrow> socks5 (deliver e bs) Client EPOLLIN configs c;
     feed e configs css c }"

lemma received_deliver:
  "length (v_in v) + length bs \<le> OUTBUFFSIZE \<Longrightarrow> received (deliver e bs) fd v = Some bs"
  by (simp add: received_def)

lemma events_nonzero [simp]: "EPOLLIN \<noteq> 0" "EPOLLOUT \<noteq> 0"
  by (simp_all add: EPOLLIN_def EPOLLOUT_def)

lemma after_recv_simps [simp]:
  "v_in (after_recv fd bs v) = v_in v @ bs" "v_out (after_recv fd bs v) = v_out v"
  "v_state (after_recv fd bs v) = v_state v" "v_info (after_recv fd bs v) = v_info v"
  "v_client (after_recv fd bs v) = v_client v" "v_server (after_recv fd bs v) = v_server v"
  "v_access (after_recv fd bs v) = v_access v"
  by (simp_all add: after_recv_def)

lemma wp_step_methods:
  assumes wf: "well_formed c" and st: "v_state (view c) = STATE_WAITING_METHODS" and out: "v_out (view c) = []"
    and bs: "bs \<noteq> []" and fits: "length (v_in (view c)) + length bs \<le> OUTBUFFSIZE" and ok: "mod_ok e"
    and part: "\<And>c'. \<not> methods_complete (v_in (view c) @ bs) \<Longrightarrow> well_formed c' \<Longrightarrow>
      view c' = after_recv (v_client (view c)) bs (view c) \<Longrightarrow> Q (0, c')"
    and all: "methods_complete (v_in (view c) @ bs) \<Longrightarrow>
      (v_in (view c) @ bs) ! 0 = SOCKS5_VERSION \<and>
      select_method (cf_methods configs) (offered (v_in (view c) @ bs)) = Some m \<and>
      (\<forall>c'. well_formed c' \<longrightarrow> view c' = selected m Client (after_recv (v_client (view c)) bs (view c)) \<longrightarrow> Q (0, c'))"
  shows "wp (socks5 (deliver e bs) Client EPOLLIN configs c) Q"
proof -
  let ?v = "view c"
  have "wp (waitingmethods (deliver e bs) Client configs EPOLLIN c) (\<lambda>c. Q (0, c))"
  proof (rule wp_waitingmethods [OF wf])
    show "side_fd Client ?v = Some (v_client ?v)" by simp
    show "length (v_out ?v) + 2 \<le> OUTBUFFSIZE" using out by (simp add: OUTBUFFSIZE_def)
    show "select_method (cf_methods configs) (offered (v_in ?v @ bs')) \<noteq> None"
      if "received (deliver e bs) (v_client ?v) ?v = Some bs'" "methods_complete (v_in ?v @ bs')" for bs'
      using that all received_deliver [OF fits] by auto
    show "Q (0, c')" if "methods_outcome (deliver e bs) Client configs EPOLLIN ?v c'" for c'
    proof (cases "methods_complete (v_in ?v @ bs)")
      case True
      with all that bs received_deliver [OF fits] ok show ?thesis
        by (auto simp: methods_outcome_def negotiated_def Let_def)
    next
      case False
      with part that bs received_deliver [OF fits] show ?thesis
        by (auto simp: methods_outcome_def Let_def)
    qed
  qed
  then show ?thesis by (simp add: socks5_by_state(1) [OF wf _ st, of Client])
qed

lemma methods_complete_append: "methods_complete p \<Longrightarrow> methods_complete (p @ q)"
  by (auto simp: methods_complete_def nth_append)

lemma methods_in_chunks_wp:
  assumes "well_formed c" and "v_state (view c) = STATE_WAITING_METHODS" and "v_out (view c) = []" and "mod_ok e"
    and "css \<noteq> []" and "[] \<notin> set css" and "msg = v_in (view c) @ concat css"
    and "methods_complete msg" and "\<not> methods_complete (v_in (view c) @ concat (butlast css))"
    and "msg ! 0 = SOCKS5_VERSION" and "length msg \<le> OUTBUFFSIZE"
    and "select_method (cf_methods configs) (offered msg) = Some m"
  shows "wp (feed e configs css c) (\<lambda>c'. well_formed c' \<and> v_state (view c') = STATE_SENDING_METHOD \<and>
    v_out (view c') = [SOCKS5_VERSION, m] \<and> v_in (view c') = drop (2 + unat (msg ! 1)) msg \<and>
    v_info (view c') = (v_info (view c))\<lparr>i_method := m\<rparr>)"
  using assms
proof (induction css arbitrary: c)
  case (Cons bs css)
  let ?q = "v_in (view c) @ bs"
  have fits: "length (v_in (view c)) + length bs \<le> OUTBUFFSIZE" using Cons.prems(7,11) by simp
  show ?case
  proof (cases "css = []")
    case True
    then have msg: "msg = ?q" using Cons.prems(7) by simp
    show ?thesis
      unfolding True feed.simps wp_bind
      by (rule wp_step_methods [OF Cons.prems(1-3) _ fits Cons.prems(4), where m = m])
        (use Cons.prems msg in \<open>auto simp: selected_def\<close>)
  next
    case False
    have part: "\<not> methods_complete ?q"
      using Cons.prems(9) False methods_complete_append [of ?q "concat (butlast css)"] by auto
    show ?thesis
      unfolding feed.simps wp_bind
    proof (rule wp_step_methods [OF Cons.prems(1-3) _ fits Cons.prems(4), where m = m])
      show "bs \<noteq> []" using Cons.prems(6) by auto
      fix c1
      assume c1: "well_formed c1" "view c1 = after_recv (v_client (view c)) bs (view c)"
      have "wp (feed e configs css c1) (\<lambda>c'. well_formed c' \<and> v_state (view c') = STATE_SENDING_METHOD \<and>
          v_out (view c') = [SOCKS5_VERSION, m] \<and> v_in (view c') = drop (2 + unat (msg ! 1)) msg \<and>
          v_info (view c') = (v_info (view c1))\<lparr>i_method := m\<rparr>)"
        using Cons.prems False c1 by (intro Cons.IH) simp_all
      with c1(2) show "wp (case (0, c1) of (_, c) \<Rightarrow> feed e configs css c) (\<lambda>c'. well_formed c' \<and>
          v_state (view c') = STATE_SENDING_METHOD \<and> v_out (view c') = [SOCKS5_VERSION, m] \<and>
          v_in (view c') = drop (2 + unat (msg ! 1)) msg \<and>
          v_info (view c') = (v_info (view c))\<lparr>i_method := m\<rparr>)"
        by simp
    qed (use part in simp)
  qed
qed simp

section \<open>A CONNECT request\<close>

text \<open>The system gives the descriptor \<open>sfd\<close> to the socket and starts the connection.\<close>

definition connect_works :: "os \<Rightarrow> fd \<Rightarrow> fd \<Rightarrow> bool" where
  "connect_works e cfd sfd \<longleftrightarrow> mod_ok e \<and> sfd \<noteq> cfd \<and>
    (\<forall>k. os_socket e k = Some sfd \<and> os_connect e k sfd \<in> {0, EAGAIN, EINPROGRESS} \<and> os_malloc e k \<and>
      os_epoll_ctl e k EPOLL_CTL_ADD sfd)"

text \<open>The system calls of a CONNECT to the address \<open>sa\<close>; \<open>r\<close> is the result of \<^verbatim>\<open>connect\<close>.\<close>

definition connect_calls :: "fd \<Rightarrow> sockaddr \<Rightarrow> int \<Rightarrow> sys list" where
  "connect_calls sfd sa r = [Sys_socket (sa_family sa) SOCK_STREAM (Some sfd), Sys_nonblock sfd,
     Sys_connect sfd sa r, Sys_malloc True, Sys_epoll_ctl EPOLL_CTL_ADD sfd EPOLLOUT (Peer Server) True]"

lemma wp_init_connect_ok:
  assumes wf: "well_formed c" and sa: "i_sa (v_info (view c)) = Some sa" "sa_wf sa" "sa_family sa \<in> {AF_INET, AF_INET6}"
    and os: "connect_works e (v_client (view c)) sfd"
    and Q: "\<And>c' r. well_formed c' \<Longrightarrow> view c' = (view c)\<lparr>v_server := Some sfd, v_in := [],
      v_state := STATE_CONNECTING, v_trace := v_trace (view c) @ connect_calls sfd sa r\<rparr> \<Longrightarrow> Q c'"
  shows "wp (init_connect e c) Q"
proof -
  let ?v = "view c"
  let ?r = "os_connect e (Suc (Suc (length (v_trace ?v)))) sfd"
  let ?c1 = "emit (Sys_connect sfd sa ?r) (emit (Sys_nonblock sfd) (emit (Sys_socket (sa_family sa) SOCK_STREAM (Some sfd)) c))"
  have r: "?r = 0 \<or> ?r = EAGAIN \<or> ?r = EINPROGRESS" using os by (auto simp: connect_works_def)
  have "open_and_connect e (sa_family sa) SOCK_STREAM sa c = Some (Some sfd, ?c1)"
    using os r
    by (auto simp: open_and_connect_def sys_socket_def sys_connect_def fd_nonblocking_def now_view Let_def
        connect_works_def)
  then have target: "connect_target e (v_info ?v) c = Some (Some sfd, ?c1)"
    using sa by (cases sa) (auto simp: connect_target_def)
  have empty: "drop OUTBUFFSIZE (v_in ?v) = []" using wf_in_le [OF wf] by simp
  show ?thesis
    unfolding init_connect_def wp_bind [of "get_info c"] wf_info [OF wf] bind.simps target
    using wf os sa empty
    by (auto simp: sys_malloc_def log_error_def Let_def link_server_def ep_connecting_def epoll_ctl_def
        connect_works_def connect_calls_def
        intro!: wp_link_server_socket wp_consume_server_out wp_set_state Q [of _ ?r])
qed

lemma wp_run_connect:
  assumes wf: "well_formed c" and d: "d = Client" and fw: "\<not> firewall (v_info (view c)) configs"
    and cmd: "i_cmd (v_info (view c)) = CMD_CONN" "allow_connect configs" and rep: "v_rep (view c) = 0xFF"
    and sa: "i_sa (v_info (view c)) = Some sa" "sa_wf sa" "sa_family sa \<in> {AF_INET, AF_INET6}"
    and os: "connect_works e (v_client (view c)) sfd"
    and Q: "\<And>c' r. well_formed c' \<Longrightarrow> view c' = (view c)\<lparr>v_server := Some sfd, v_in := [],
      v_state := STATE_CONNECTING, v_trace := v_trace (view c) @
        Sys_log_access A_COMMCONN (v_access (view c)) # connect_calls sfd sa r\<rparr> \<Longrightarrow> Q (0, c')"
  shows "wp (run_command e d configs c) Q"
proof -
  have init: "wp (init_command e d configs c) (\<lambda>c'. wp (do {
      info \<leftarrow> get_info c';
      if i_rep info \<noteq> 0xFF \<and> i_rep info \<noteq> REP_SUCCESS then do {
        c \<leftarrow> reply_with_err e d c';
        Some (0, c) }
      else Some (0, c') }) Q)"
    unfolding init_command_def wp_bind wf_info [OF wf] wp_Some if_P [OF cmd(1)] d
    using wf
  proof (intro wp_get_data_client wp_log_access, simp_all only: cmd(2) not_True_eq_False if_False)
    fix c1
    assume c1: "well_formed c1" "view c1 = (view c)\<lparr>v_trace := v_trace (view c) @
        [Sys_log_access A_COMMCONN (v_access (view c))]\<rparr>"
    show "wp (init_connect e c1) (\<lambda>c'. wp (get_info c') (\<lambda>info. wp (
        if i_rep info \<noteq> 0xFF \<and> i_rep info \<noteq> REP_SUCCESS then do {
          c \<leftarrow> reply_with_err e Client c';
          Some (0, c) }
        else Some (0, c')) Q))"
      by (rule wp_init_connect_ok [OF c1(1), where sa = sa and sfd = sfd])
        (use c1 sa os rep in \<open>auto simp: wf_info intro!: Q\<close>)
  qed
  show ?thesis
    unfolding run_command_def wf_info [OF wf] bind.simps if_not_P [OF fw]
    by (subst wp_bind, rule init)
qed

text \<open>The request of a client: version, command, reserved byte, address and port.\<close>

definition request_msg :: "byte \<Rightarrow> sockaddr \<Rightarrow> byte list" where
  "request_msg cmd sa = SOCKS5_VERSION # cmd # SOCKS5_RESV # addr_bytes sa (the (sa_port sa))"

definition inet :: "sockaddr \<Rightarrow> bool" where
  "inet sa \<longleftrightarrow> sa_wf sa \<and> sa_family sa \<in> {AF_INET, AF_INET6}"

lemma request_msg_parses:
  assumes "inet sa"
  shows "request_sa (request_msg cmd sa) = sa" and "request_msg cmd sa ! 0 = SOCKS5_VERSION"
    and "request_msg cmd sa ! 1 = cmd" and "5 \<le> length (request_msg cmd sa)"
    and "request_len configs (request_msg cmd sa) = Some (length (request_msg cmd sa))"
    and "length (request_msg cmd sa) \<le> 22"
proof -
  have "ATYP_IPV4 \<noteq> ATYP_IPV6" "ATYP_IPV6 \<noteq> ATYP_DOMN" by (simp_all add: socks_consts)
  with assms show "request_sa (request_msg cmd sa) = sa" "request_msg cmd sa ! 0 = SOCKS5_VERSION"
    "request_msg cmd sa ! 1 = cmd" "5 \<le> length (request_msg cmd sa)"
    "request_len configs (request_msg cmd sa) = Some (length (request_msg cmd sa))"
    "length (request_msg cmd sa) \<le> 22"
    unfolding inet_def
    by (cases sa; simp add: request_msg_def request_sa_def request_len_def Let_def)+
qed

abbreviation connect_request :: "sockaddr \<Rightarrow> byte list" where
  "connect_request \<equiv> request_msg CMD_CONN"

text \<open>The view once the request is parsed.\<close>

definition requested :: "byte \<Rightarrow> sockaddr \<Rightarrow> view \<Rightarrow> view" where
  "requested cmd sa v = parsed (after_recv (v_client v) (request_msg cmd sa) v)"

lemma requested_simps [simp]:
  "v_out (requested cmd sa v) = v_out v" "v_server (requested cmd sa v) = v_server v"
  "v_client (requested cmd sa v) = v_client v" "v_access (requested cmd sa v) = v_access v"
  "v_state (requested cmd sa v) = v_state v"
  by (simp_all add: requested_def parsed_def)

lemma requested_info:
  assumes "v_in v = []" and "inet sa"
  shows "i_cmd (v_info (requested cmd sa v)) = cmd" and "i_sa (v_info (requested cmd sa v)) = Some sa"
  using assms request_msg_parses [OF assms(2), where cmd = cmd]
  by (simp_all add: requested_def parsed_def request_info_def)

lemma requested_trace:
  "v_trace (requested cmd sa v) = v_trace v @
    [Sys_recv (v_client v) (OUTBUFFSIZE - length (v_in v)) (Some (request_msg cmd sa)), Sys_malloc True]"
  by (simp add: requested_def parsed_def after_recv_def)

text \<open>
  The bytes of a request arrive at once on a connection that waits for it; \<open>R\<close> is what running a
  complete request for an address does.
\<close>

lemma wp_step_waitcommand:
  assumes wf: "well_formed c" and st: "v_state (view c) = STATE_WAITING_COMMAND" and ph: "phase (view c)"
    and inq: "v_in (view c) = []" and ok: "mod_ok e" and dom: "\<not> allow_domains configs"
    and bs: "bs \<noteq> []" "length bs \<le> OUTBUFFSIZE"
    and run: "\<And>c'. well_formed c' \<Longrightarrow> view c' = parsed (after_recv (v_client (view c)) bs (view c)) \<Longrightarrow>
      wp (run_command (deliver e bs) Client configs c') (R (parsed (after_recv (v_client (view c)) bs (view c))))"
    and Q: "\<And>r. request_outcome (deliver e bs) configs R (after_recv (v_client (view c)) bs (view c)) r \<Longrightarrow>
      Q (word_of_int (fst r), snd r)"
  shows "wp (socks5 (deliver e bs) Client EPOLLIN configs c) Q"
proof -
  note inv = ph [unfolded phase_def st conn_state.case]
  have rec: "received (deliver e bs) (v_client (view c)) (view c) = Some bs"
    using bs inq by (intro received_deliver) simp
  have "wp (waitingcommand (deliver e bs) Client configs EPOLLIN c) (\<lambda>(r, c). Q (word_of_int r, c))"
  proof (rule wp_waitingcommand [OF wf _ _ dom, where R = R])
    show "length (v_out (view c)) + 10 \<le> OUTBUFFSIZE"
      using inv by (simp add: OUTBUFFSIZE_def)
    show "case r of (r, c) \<Rightarrow> Q (word_of_int r, c)"
      if "waitcommand_outcome (deliver e bs) Client configs R EPOLLIN (view c) r" for r
      using that rec bs Q [of r] by (cases r) (simp add: waitcommand_outcome_def)
  qed (use ok rec run inv in auto)
  then show ?thesis by (simp add: socks5_by_state(3) [OF wf _ st, of Client] case_prod_unfold)
qed

text \<open>A complete request for an address is run.\<close>

lemma wp_step_run:
  assumes wf: "well_formed c" and st: "v_state (view c) = STATE_WAITING_COMMAND" and ph: "phase (view c)"
    and inq: "v_in (view c) = []" and ok: "mod_ok e" and dom: "\<not> allow_domains configs"
    and sa: "inet sa" and mem: "\<forall>k. os_malloc e k"
    and run: "\<And>c'. well_formed c' \<Longrightarrow> view c' = requested cmd sa (view c) \<Longrightarrow>
      wp (run_command (deliver e (request_msg cmd sa)) Client configs c') (\<lambda>(r, c). Q (word_of_int r, c))"
  shows "wp (socks5 (deliver e (request_msg cmd sa)) Client EPOLLIN configs c) Q"
proof -
  note req = request_msg_parses [OF sa, where cmd = cmd]
  show ?thesis
  proof (rule wp_step_waitcommand [OF wf st ph inq ok dom, where R = "\<lambda>_ (r, c). Q (word_of_int r, c)"])
    show "length (request_msg cmd sa) \<le> OUTBUFFSIZE" using req(6) by (simp add: OUTBUFFSIZE_def)
    show "Q (word_of_int (fst r), snd r)"
      if "request_outcome (deliver e (request_msg cmd sa)) configs (\<lambda>_ (r, c). Q (word_of_int r, c))
        (after_recv (v_client (view c)) (request_msg cmd sa) (view c)) r" for r
      using that inq req mem by (auto simp: request_outcome_def handle_outcome_def split: prod.splits)
  qed (use req(4) run in \<open>auto simp: requested_def\<close>)
qed

text \<open>The connection once the socket for the request is connecting.\<close>

definition connect_running :: "fd \<Rightarrow> sockaddr \<Rightarrow> view \<Rightarrow> view \<Rightarrow> bool" where
  "connect_running sfd sa v v' \<longleftrightarrow> (\<exists>r t.
     v' = v\<lparr>v_info := (request_info (connect_request sa) (v_info v))\<lparr>i_sa := Some sa\<rparr>, v_server := Some sfd, v_in := [],
       v_state := STATE_CONNECTING, v_trace := v_trace v @ t @ connect_calls sfd sa r\<rparr> \<and>
     (\<forall>a \<in> set t. \<not> outbound a \<and> \<not> sends a))"

lemma wp_step_connect:
  assumes wf: "well_formed c" and st: "v_state (view c) = STATE_WAITING_COMMAND" and ph: "phase (view c)"
    and inq: "v_in (view c) = []" and dom: "\<not> allow_domains configs" and allow: "allow_connect configs"
    and sa: "sa_wf sa" "sa_family sa \<in> {AF_INET, AF_INET6}"
    and fw: "\<not> firewall ((request_info (connect_request sa) (v_info (view c)))\<lparr>i_sa := Some sa\<rparr>) configs"
    and os: "connect_works e (v_client (view c)) sfd"
    and Q: "\<And>c'. well_formed c' \<Longrightarrow> connect_running sfd sa (view c) (view c') \<Longrightarrow> Q (0, c')"
  shows "wp (socks5 (deliver e (connect_request sa)) Client EPOLLIN configs c) Q"
proof -
  have inet: "inet sa" using sa by (simp add: inet_def)
  note req = request_msg_parses [OF inet, where cmd = CMD_CONN]
  have rep: "v_rep (view c) = 0xFF" using ph by (simp add: phase_def st)
  show ?thesis
  proof (rule wp_step_run [OF wf st ph inq _ dom inet])
    fix c'
    assume c': "well_formed c'" "view c' = requested CMD_CONN sa (view c)"
    show "wp (run_command (deliver e (connect_request sa)) Client configs c') (\<lambda>(r, c). Q (word_of_int r, c))"
    proof (rule wp_run_connect [OF c'(1) refl _ _ allow, where sa = sa and sfd = sfd])
      fix c1 r
      assume 1: "well_formed c1" "view c1 = (view c')\<lparr>v_server := Some sfd, v_in := [], v_state := STATE_CONNECTING,
          v_trace := v_trace (view c') @ Sys_log_access A_COMMCONN (v_access (view c')) # connect_calls sfd sa r\<rparr>"
      have "connect_running sfd sa (view c) (view c1)"
        unfolding connect_running_def 1(2) c'(2)
        by (intro exI [of _ r] exI [of _ "[Sys_recv (v_client (view c)) (OUTBUFFSIZE - length (v_in (view c)))
              (Some (connect_request sa)), Sys_malloc True, Sys_log_access A_COMMCONN (v_access (view c))]"])
          (simp add: requested_def parsed_def after_recv_def inq req)
      with 1(1) Q show "case (0, c1) of (r, c) \<Rightarrow> Q (word_of_int r, c)" by simp
    qed (use c' sa os fw rep req requested_info [OF inq inet, of CMD_CONN] inq in
        \<open>simp_all add: requested_def parsed_def request_info_def connect_works_def\<close>)
  qed (use os in \<open>simp_all add: connect_works_def\<close>)
qed

section \<open>From the first byte to the relay\<close>

text \<open>The bytes a trace has sent to a descriptor, and a series of events, each under its own system.\<close>

fun sent_by :: "fd \<Rightarrow> sys \<Rightarrow> byte list" where
  "sent_by fd (Sys_send f bs (Some k)) = (if f = fd then take k bs else [])"
| "sent_by fd a = []"

definition sent_bytes :: "fd \<Rightarrow> sys list \<Rightarrow> byte list" where
  "sent_bytes fd t = concat (map (sent_by fd) t)"

lemma sent_bytes_simps [simp]:
  "sent_bytes fd [] = []" "sent_bytes fd (a # t) = sent_by fd a @ sent_bytes fd t"
  "sent_bytes fd (t @ u) = sent_bytes fd t @ sent_bytes fd u"
  by (simp_all add: sent_bytes_def)

lemma sent_bytes_quiet: "\<forall>a \<in> set t. \<not> sends a \<Longrightarrow> sent_bytes fd t = []"
proof (induction t)
  case (Cons a t)
  then show ?case by (cases a) simp_all
qed simp

lemma sent_bytes_calls [simp]:
  "sent_bytes fd (waiting_send v) = []" "sent_bytes fd (done_sending f d) = []"
  "sent_bytes fd (connect_calls sfd sa r) = []"
  by (simp_all add: waiting_send_def done_sending_def connect_calls_def)

fun drive :: "Configs \<Rightarrow> (os \<times> side \<times> 32 word) list \<Rightarrow> conn \<Rightarrow> conn option" where
  "drive configs [] c = Some c"
| "drive configs ((e, d, ev) # evs) c = do { (_, c) \<leftarrow> socks5 e d ev configs c; drive configs evs c }"

definition sends_all :: "os \<Rightarrow> bool" where
  "sends_all e \<longleftrightarrow> (\<forall>k fd. \<exists>n. os_send e k fd = Some n \<and> 300 \<le> n)"

lemma sent_all:
  assumes "sends_all e" and "n \<le> 300"
  shows "sent e fd n v = Some (length (take n (v_out v)))"
proof -
  from assms(1) obtain k where "os_send e (length (v_trace v)) fd = Some k" "300 \<le> k"
    unfolding sends_all_def by blast
  with assms(2) show ?thesis by (simp add: sent_def min_def)
qed

lemma unsent_not:
  assumes "sends_all e" and "mod_ok e" and "n \<le> 300"
  shows "\<not> unsent e d fd n v c"
  using sent_all [OF assms(1,3)] assms(2) by (auto simp: unsent_def)

lemma wp_step_method_sent:
  assumes wf: "well_formed c" and st: "v_state (view c) = STATE_SENDING_METHOD"
    and meth: "i_method (v_info (view c)) = METH_NOAUTH" and os: "sends_all e" "mod_ok e"
    and Q: "\<And>c'. well_formed c' \<Longrightarrow> view c' = negotiation_done (flushed (v_client (view c)) Client 2 (view c)) \<Longrightarrow> Q (0, c')"
  shows "wp (socks5 e Client EPOLLOUT configs c) Q"
proof -
  have "wp (sendingmethod e Client EPOLLOUT c) (\<lambda>c. Q (0, c))"
    using wf
  proof (rule wp_sendingmethod)
    show "Q (0, c')" if "sendmethod_outcome e Client EPOLLOUT (view c) c'" for c'
      using that meth unsent_not [OF os, of 2] by (auto simp: sendmethod_outcome_def intro!: Q)
  qed simp
  then show ?thesis by (simp add: socks5_by_state(2) [OF wf _ st, of Client])
qed

lemma wp_step_connected:
  assumes wf: "well_formed c" and st: "v_state (view c) = STATE_CONNECTING" and sv: "v_server (view c) = Some sfd"
    and out: "v_out (view c) = []" and os: "mod_ok e" "os_ok e cfd"
    and net: "\<And>k. os_getsockopt e k sfd = Some 0" "\<And>k. os_getsockname e k sfd = Some name"
    and Q: "\<And>c'. well_formed c' \<Longrightarrow> view c' = connected sfd name (view c) \<Longrightarrow> Q (0, c')"
  shows "wp (socks5 e Server EPOLLOUT configs c) Q"
proof -
  have "wp (connecting e Server EPOLLOUT c) (\<lambda>c. Q (0, c))"
    using wf _ os sv
  proof (rule wp_connecting)
    show "Q (0, c')" if "connecting_outcome e Server EPOLLOUT (view c) c'" for c'
      using that sv net by (auto simp: connecting_outcome_def Let_def intro!: Q)
  qed (use sv out in \<open>simp_all add: OUTBUFFSIZE_def\<close>)
  then show ?thesis by (simp add: socks5_by_state(4) [OF wf _ st, of Server] sv)
qed

lemma wp_step_reply_sent:
  assumes wf: "well_formed c" and st: "v_state (view c) \<in> {STATE_SENDING_REPLY, STATE_SENDING_REPLY_2}"
    and rep: "v_rep (view c) = REP_SUCCESS" and os: "sends_all e" "mod_ok e"
    and Q: "\<And>c'. well_formed c' \<Longrightarrow> view c' = after_reply (flushed (v_client (view c)) Client 300 (view c)) \<Longrightarrow> Q (0, c')"
  shows "wp (socks5 e Client EPOLLOUT configs c) Q"
proof -
  have "wp (sendingreply e Client EPOLLOUT c) (\<lambda>c. Q (0, c))"
    using wf
  proof (rule wp_sendingreply)
    show "Q (0, c')" if "sendreply_outcome e Client EPOLLOUT (view c) c'" for c'
      using that rep unsent_not [OF os, of 300] by (auto simp: sendreply_outcome_def intro!: Q)
  qed simp
  then show ?thesis using st by (auto simp: socks5_by_state(5,9) [OF wf, of Client])
qed

text \<open>The request as the filter sees it, and a configuration that lets it through.\<close>

definition session_info :: "sockaddr \<Rightarrow> Info" where
  "session_info sa = (request_info (connect_request sa) (new_info\<lparr>i_method := METH_NOAUTH\<rparr>))\<lparr>i_sa := Some sa\<rparr>"

definition session_configs :: "Configs \<Rightarrow> sockaddr \<Rightarrow> bool" where
  "session_configs configs sa \<longleftrightarrow> length (cf_methods configs) = 255 \<and> cf_methods configs ! 0 = 1 \<and>
     allow_connect configs \<and> \<not> allow_domains configs \<and> \<not> firewall (session_info sa) configs"

definition session_os :: "os \<Rightarrow> fd \<Rightarrow> fd \<Rightarrow> sockaddr \<Rightarrow> bool" where
  "session_os e cfd sfd name \<longleftrightarrow> connect_works e cfd sfd \<and> os_ok e cfd \<and> sends_all e \<and>
     (\<forall>k. os_getsockopt e k sfd = Some 0 \<and> os_getsockname e k sfd = Some name)"

definition greeting :: "byte list" where
  "greeting = [SOCKS5_VERSION, 1, METH_NOAUTH]"

lemma greeting_complete:
  "methods_complete greeting" "offered greeting = [METH_NOAUTH]" "greeting ! 0 = SOCKS5_VERSION" "greeting \<noteq> []"
  "length greeting = 3" "drop (2 + unat (greeting ! 1)) greeting = []"
  by (simp_all add: greeting_def methods_complete_def offered_def)

definition session_events :: "os \<Rightarrow> sockaddr \<Rightarrow> (os \<times> side \<times> 32 word) list" where
  "session_events e sa = [(deliver e greeting, Client, EPOLLIN), (e, Client, EPOLLOUT),
     (deliver e (connect_request sa), Client, EPOLLIN), (e, Server, EPOLLOUT), (e, Client, EPOLLOUT)]"

lemma wp_drive:
  "wp (drive configs ((e, d, ev) # evs) c) Q = wp (socks5 e d ev configs c) (\<lambda>(r, c). wp (drive configs evs c) Q)"
  by (simp add: case_prod_unfold)

text \<open>The facts a connection carries through the session.\<close>

definition session_view :: "conn_state \<Rightarrow> Info \<Rightarrow> byte list \<Rightarrow> fd option \<Rightarrow> byte list \<Rightarrow> sys list \<Rightarrow> fd \<Rightarrow> view \<Rightarrow> bool" where
  "session_view st info out sv bytes calls cfd v \<longleftrightarrow>
     v_state v = st \<and> v_info v = info \<and> v_out v = out \<and> v_in v = [] \<and> v_server v = sv \<and> v_client v = cfd \<and>
     sent_bytes cfd (v_trace v) = bytes \<and> filter outbound (v_trace v) = calls"

text \<open>The negotiation: the client's greeting and the reply to it.\<close>

lemma session_negotiated:
  assumes acc: "accept_new_client e0 fd = (0, c)" "accept_ok e0" and cfd: "v_client (view c) = cfd"
    and cf: "length (cf_methods configs) = 255" "cf_methods configs ! 0 = 1" and ok: "mod_ok e" "sends_all e"
    and Q: "\<And>c'. well_formed c' \<Longrightarrow> session_view STATE_WAITING_COMMAND (new_info\<lparr>i_method := METH_NOAUTH\<rparr>) [] None
      [SOCKS5_VERSION, METH_NOAUTH] [] cfd (view c') \<Longrightarrow> wp (drive configs evs c') Q"
  shows "wp (drive configs ((deliver e greeting, Client, EPOLLIN) # (e, Client, EPOLLOUT) # evs) c) Q"
proof -
  let ?info = "new_info\<lparr>i_method := METH_NOAUTH\<rparr>" and ?hello = "[SOCKS5_VERSION, METH_NOAUTH]"
  note new = accept_new_client_result [OF acc]
  have step_two: "wp (drive configs ((e, Client, EPOLLOUT) # evs) c1) Q"
    if c1: "well_formed c1" and v1: "session_view STATE_SENDING_METHOD ?info ?hello None [] [] cfd (view c1)" for c1
    unfolding wp_drive [of _ e]
  proof (rule wp_step_method_sent [OF c1 _ _ ok(2,1)])
    fix c2
    assume c2: "well_formed c2" "view c2 = negotiation_done (flushed (v_client (view c1)) Client 2 (view c1))"
    then have "session_view STATE_WAITING_COMMAND ?info [] None ?hello [] cfd (view c2)"
      using v1 by (simp add: session_view_def negotiation_done_def flushed_def after_send_def done_sending_def Let_def)
    from Q [OF c2(1) this] show "case (0, c2) of (r, c) \<Rightarrow> wp (drive configs evs c) Q" by simp
  qed (use v1 in \<open>simp_all add: session_view_def\<close>)
  have sel: "select_method (cf_methods configs) [METH_NOAUTH] = Some METH_NOAUTH"
    using cf by (simp add: mem_get_def METH_NOAUTH_def)
  have fresh: "sent_bytes f (v_trace (view c)) = []" "filter outbound (v_trace (view c)) = []" for f
    using new(7) by (simp_all add: sent_bytes_quiet view_trace filter_empty_conv)
  show ?thesis
    unfolding wp_drive [of _ "deliver e greeting"]
  proof (rule wp_step_methods [OF new(1-3) _ _ ok(1), where m = METH_NOAUTH], safe)
    fix c1
    assume c1: "well_formed c1" "view c1 = selected METH_NOAUTH Client (after_recv (v_client (view c)) greeting (view c))"
    then have "session_view STATE_SENDING_METHOD ?info ?hello None [] [] cfd (view c1)"
      using new(3-6) cfd greeting_complete fresh
      by (simp add: session_view_def selected_def after_recv_def waiting_send_def)
    from step_two [OF c1(1) this] show "wp (drive configs ((e, Client, EPOLLOUT) # evs) c1) Q" .
  qed (use new(4) greeting_complete sel in \<open>simp_all add: OUTBUFFSIZE_def\<close>)
qed

lemma session_phase:
  "session_view STATE_WAITING_COMMAND (new_info\<lparr>i_method := METH_NOAUTH\<rparr>) [] None bytes calls cfd v \<Longrightarrow> phase v"
  by (simp add: session_view_def phase_def authorised_def new_info_def)

lemma session_first_half:
  assumes acc: "accept_new_client e0 fd = (0, c)" "accept_ok e0" and cfd: "v_client (view c) = cfd"
    and cf: "session_configs configs sa" and sa: "sa_wf sa" "sa_family sa \<in> {AF_INET, AF_INET6}"
    and os: "session_os e cfd sfd name"
    and Q: "\<And>c' r. well_formed c' \<Longrightarrow> session_view STATE_CONNECTING (session_info sa) [] (Some sfd)
      [SOCKS5_VERSION, METH_NOAUTH] [Sys_socket (sa_family sa) SOCK_STREAM (Some sfd), Sys_connect sfd sa r] cfd (view c') \<Longrightarrow>
      wp (drive configs evs c') Q"
  shows "wp (drive configs ((deliver e greeting, Client, EPOLLIN) # (e, Client, EPOLLOUT) #
     (deliver e (connect_request sa), Client, EPOLLIN) # evs) c) Q"
proof -
  note cfg = cf [unfolded session_configs_def]
  have ok: "mod_ok e" "connect_works e cfd sfd" "sends_all e"
    using os by (simp_all add: session_os_def connect_works_def)
  show ?thesis
  proof (rule session_negotiated [OF acc cfd _ _ ok(1,3)])
    fix c2
    assume c2: "well_formed c2"
      and v2: "session_view STATE_WAITING_COMMAND (new_info\<lparr>i_method := METH_NOAUTH\<rparr>) [] None
        [SOCKS5_VERSION, METH_NOAUTH] [] cfd (view c2)"
    show "wp (drive configs ((deliver e (connect_request sa), Client, EPOLLIN) # evs) c2) Q"
      unfolding wp_drive
    proof (rule wp_step_connect [OF c2 _ session_phase [OF v2] _ _ _ sa, where sfd = sfd])
      fix c3
      assume c3: "well_formed c3" "connect_running sfd sa (view c2) (view c3)"
      then obtain r where "session_view STATE_CONNECTING (session_info sa) [] (Some sfd) [SOCKS5_VERSION, METH_NOAUTH]
          [Sys_socket (sa_family sa) SOCK_STREAM (Some sfd), Sys_connect sfd sa r] cfd (view c3)"
        using v2
        by (auto simp: session_view_def connect_running_def session_info_def sent_bytes_quiet connect_calls_def
            filter_empty_conv)
      from Q [OF c3(1) this] show "case (0, c3) of (r, c) \<Rightarrow> wp (drive configs evs c) Q" by simp
    qed (use v2 cfg ok in \<open>simp_all add: session_view_def session_info_def [symmetric]\<close>)
  qed (use cfg in simp_all)
qed

lemma session_second_half:
  assumes wf: "well_formed c" and v: "session_view STATE_CONNECTING info [] (Some sfd) bytes calls cfd (view c)"
    and info: "i_cmd info = CMD_CONN" and os: "session_os e cfd sfd name"
    and Q: "\<And>c'. well_formed c' \<Longrightarrow> session_view STATE_FULL (info\<lparr>i_rep := REP_SUCCESS\<rparr>) [] (Some sfd)
      (bytes @ [SOCKS5_VERSION, REP_SUCCESS, SOCKS5_RESV] @ addr_bytes name (the (sa_port name))) calls cfd (view c') \<Longrightarrow> Q c'"
  shows "wp (drive configs [(e, Server, EPOLLOUT), (e, Client, EPOLLOUT)] c) Q"
proof -
  let ?reply = "[SOCKS5_VERSION, REP_SUCCESS, SOCKS5_RESV] @ addr_bytes name (the (sa_port name))"
  have ok: "mod_ok e" "os_ok e cfd" "sends_all e"
    "os_getsockopt e k sfd = Some 0" "os_getsockname e k sfd = Some name" for k
    using os by (simp_all add: session_os_def connect_works_def)
  have len: "length (addr_bytes name (the (sa_port name))) \<le> 19"
    by (rule sa_port_bytes_le [OF ok(2,5) os_okD(4) [OF ok(2,5)]])
  have reply: "wp (drive configs [(e, Client, EPOLLOUT)] c1) Q"
    if c1: "well_formed c1"
      and v1: "session_view STATE_SENDING_REPLY (info\<lparr>i_rep := REP_SUCCESS\<rparr>) ?reply (Some sfd) bytes calls cfd (view c1)" for c1
    unfolding wp_drive
  proof (rule wp_step_reply_sent [OF c1 _ _ ok(3,1)])
    fix c2
    assume c2: "well_formed c2" "view c2 = after_reply (flushed (v_client (view c1)) Client 300 (view c1))"
    have "session_view STATE_FULL (info\<lparr>i_rep := REP_SUCCESS\<rparr>) [] (Some sfd) (bytes @ ?reply) calls cfd (view c2)"
      using c2 v1 len info
      by (simp add: session_view_def after_reply_def flushed_def after_send_def done_sending_def Let_def)
    from Q [OF c2(1) this] show "case (0, c2) of (r, c) \<Rightarrow> wp (drive configs [] c) Q" by simp
  qed (use v1 in \<open>simp_all add: session_view_def\<close>)
  show ?thesis
    unfolding wp_drive [of _ _ Server]
  proof (rule wp_step_connected [OF wf _ _ _ ok(1,2) ok(4,5)])
    fix c1
    assume c1: "well_formed c1" "view c1 = connected sfd name (view c)"
    then have "session_view STATE_SENDING_REPLY (info\<lparr>i_rep := REP_SUCCESS\<rparr>) ?reply (Some sfd) bytes calls cfd (view c1)"
      using v by (simp add: session_view_def connected_def waiting_send_def done_sending_def)
    from reply [OF c1(1) this] show "case (0, c1) of (r, c) \<Rightarrow> wp (drive configs [(e, Client, EPOLLOUT)] c) Q" by simp
  qed (use v in \<open>simp_all add: session_view_def\<close>)
qed

lemma connect_session_wp:
  assumes acc: "accept_new_client e0 fd = (0, c)" "accept_ok e0" and cfd: "v_client (view c) = cfd"
    and cf: "session_configs configs sa" and sa: "sa_wf sa" "sa_family sa \<in> {AF_INET, AF_INET6}"
    and os: "session_os e cfd sfd name"
  shows "wp (drive configs (session_events e sa) c) (\<lambda>c'. well_formed c' \<and> (\<exists>r. session_view STATE_FULL
    ((session_info sa)\<lparr>i_rep := REP_SUCCESS\<rparr>) [] (Some sfd)
    ([SOCKS5_VERSION, METH_NOAUTH] @ [SOCKS5_VERSION, REP_SUCCESS, SOCKS5_RESV] @ addr_bytes name (the (sa_port name)))
    [Sys_socket (sa_family sa) SOCK_STREAM (Some sfd), Sys_connect sfd sa r] cfd (view c')))"
  unfolding session_events_def
proof (rule session_first_half [OF assms])
  fix c1 r
  assume c1: "well_formed c1" "session_view STATE_CONNECTING (session_info sa) [] (Some sfd)
      [SOCKS5_VERSION, METH_NOAUTH] [Sys_socket (sa_family sa) SOCK_STREAM (Some sfd), Sys_connect sfd sa r] cfd (view c1)"
  have "i_cmd (session_info sa) = CMD_CONN"
    using request_msg_parses(3) [unfolded inet_def, OF conjI [OF sa], where cmd = CMD_CONN] by (simp add: session_info_def request_info_def)
  then show "wp (drive configs [(e, Server, EPOLLOUT), (e, Client, EPOLLOUT)] c1) (\<lambda>c'. well_formed c' \<and> (\<exists>r. session_view STATE_FULL
    ((session_info sa)\<lparr>i_rep := REP_SUCCESS\<rparr>) [] (Some sfd)
    ([SOCKS5_VERSION, METH_NOAUTH] @ [SOCKS5_VERSION, REP_SUCCESS, SOCKS5_RESV] @ addr_bytes name (the (sa_port name)))
    [Sys_socket (sa_family sa) SOCK_STREAM (Some sfd), Sys_connect sfd sa r] cfd (view c')))"
    by (rule session_second_half [OF c1 _ os]) auto
qed

section \<open>Reachability of a session\<close>

text \<open>The environment of a connection past the first message.\<close>

definition env_later :: "os \<Rightarrow> Configs \<Rightarrow> fd \<Rightarrow> bool" where
  "env_later e configs cfd \<longleftrightarrow> mod_ok e \<and> os_ok e cfd \<and> configs_ok configs \<and> \<not> allow_domains configs"

lemma env_later_ok:
  "env_later e configs (v_client (view c)) \<Longrightarrow> v_state (view c) \<noteq> STATE_WAITING_METHODS \<Longrightarrow> env_ok e configs c"
  by (simp add: env_later_def env_ok_def offers_ok_def)

lemma socks5_data: "socks5 e d ev configs c = Some r \<Longrightarrow> get_data d c \<noteq> None"
  by (auto simp: socks5_def Option.bind_eq_Some_conv)

lemma drive_reachable:
  assumes "reachable configs c"
    and "well_formed c \<longrightarrow> v_client (view c) = cfd \<and> v_state (view c) \<noteq> STATE_WAITING_METHODS"
    and "\<forall>(e, d, ev) \<in> set evs. env_later e configs cfd" and "drive configs evs c = Some c'"
  shows "reachable configs c'"
  using assms
proof (induction evs arbitrary: c)
  case (Cons x evs)
  obtain e d ev where x: "x = (e, d, ev)" by (cases x)
  from Cons.prems(4) obtain r c1 where step: "socks5 e d ev configs c = Some (r, c1)"
    and rest: "drive configs evs c1 = Some c'" by (auto simp: x Option.bind_eq_Some_conv)
  have env: "well_formed c \<longrightarrow> env_ok e configs c"
    using Cons.prems(2,3) by (auto simp: x intro: env_later_ok)
  have r1: "reachable configs c1"
    by (rule reachable.event [OF Cons.prems(1) socks5_data [OF step] env step])
  from live_step [OF reachable_inv [OF Cons.prems(1)] socks5_data [OF step] env step]
  have "well_formed c1 \<longrightarrow> v_client (view c1) = cfd \<and> v_state (view c1) \<noteq> STATE_WAITING_METHODS"
    using Cons.prems(2)
    by (auto simp: next_ok_def not_wf_released not_wf_gone split: if_splits elim: transition.cases)
  with Cons.IH [OF r1 _ _ rest] Cons.prems(3) show ?case by simp
qed simp

section \<open>Properties\<close>

text \<open>
  C14: the method a client gets does not depend on how its message is cut into chunks. When the
  chunks \<open>css\<close> make up a complete message and the last chunk completes it, the negotiation ends
  with the reply and the leftover bytes that the whole message determines.
\<close>

theorem methods_in_chunks:
  assumes "well_formed c" and "v_state (view c) = STATE_WAITING_METHODS" and "v_out (view c) = []"
    and "v_in (view c) = []" and "mod_ok e" and "css \<noteq> []" and "[] \<notin> set css"
    and "methods_complete (concat css)" and "\<not> methods_complete (concat (butlast css))"
    and "concat css ! 0 = SOCKS5_VERSION" and "length (concat css) \<le> OUTBUFFSIZE"
    and "select_method (cf_methods configs) (offered (concat css)) = Some m"
  shows "\<exists>c'. feed e configs css c = Some c' \<and> well_formed c' \<and> v_state (view c') = STATE_SENDING_METHOD \<and>
    v_out (view c') = [SOCKS5_VERSION, m] \<and> v_in (view c') = drop (2 + unat (concat css ! 1)) (concat css) \<and>
    v_info (view c') = (v_info (view c))\<lparr>i_method := m\<rparr>"
  using methods_in_chunks_wp [of c e css "concat css" configs m] assms by (auto simp: wp_iff)

lemma methods_in_chunks_witness:
  "\<exists>c'. feed (demo_os 6 []) demo_configs [[5], [2, 1], [0, 5]] demo_conn = Some c' \<and> well_formed c' \<and>
    v_state (view c') = STATE_SENDING_METHOD \<and> v_out (view c') = [SOCKS5_VERSION, 0] \<and> v_in (view c') = [5] \<and>
    v_info (view c') = (v_info (view demo_conn))\<lparr>i_method := 0\<rparr>"
proof -
  have new: "v_out (view demo_conn) = []" by (rule accept_new_client_result(3) [OF demo_accept demo_accept_ok])
  have env: "mod_ok (demo_os 6 [])" by (simp add: mod_ok_def demo_os_def)
  show ?thesis
    using methods_in_chunks [OF demo_wf demo_state(1) new demo_state(2) env, of "[[5], [2, 1], [0, 5]]" demo_configs 0]
    by (simp add: methods_complete_def offered_def SOCKS5_VERSION_def OUTBUFFSIZE_def demo_configs_def mem_get_def)
qed

text \<open>
  C8: a cooperative client reaches the relay. From the accepted connection, a client that offers
  no authentication and asks to CONNECT to an address the filter lets through, with a system whose
  calls succeed, is relayed after five events; it has been sent the method, then the success
  reply with the address of the server socket, and nothing else, and the only socket opened was
  connected to the address it asked for.
\<close>

theorem connect_session:
  assumes "accept_new_client e0 fd = (0, c)" and "accept_ok e0" and "session_configs configs sa"
    and "sa_wf sa" and "sa_family sa \<in> {AF_INET, AF_INET6}" and "session_os e (v_client (view c)) sfd name"
  shows "\<exists>c' r. drive configs (session_events e sa) c = Some c' \<and> well_formed c' \<and> v_state (view c') = STATE_FULL \<and>
    v_server (view c') = Some sfd \<and> v_out (view c') = [] \<and> v_in (view c') = [] \<and>
    sent_bytes (v_client (view c)) (c_trace c') = [SOCKS5_VERSION, METH_NOAUTH] @
      [SOCKS5_VERSION, REP_SUCCESS, SOCKS5_RESV] @ addr_bytes name (the (sa_port name)) \<and>
    filter outbound (c_trace c') = [Sys_socket (sa_family sa) SOCK_STREAM (Some sfd), Sys_connect sfd sa r]"
  using connect_session_wp [OF assms(1,2) refl assms(3-6)]
  by (auto simp: wp_iff session_view_def view_trace)

definition demo_sa :: sockaddr where
  "demo_sa = SIN [93, 184, 216, 34] [1, 187]"

lemma demo_session:
  "session_configs demo_configs demo_sa" "sa_wf demo_sa" "sa_family demo_sa \<in> {AF_INET, AF_INET6}"
  "session_os (demo_os 6 []) (v_client (view demo_conn)) 7 (SIN [10, 0, 0, 1] [0, 99])"
proof -
  show "session_configs demo_configs demo_sa"
    by (simp add: session_configs_def demo_configs_def demo_sa_def firewall_def udpa_unspec_def session_info_def
        request_info_def request_msg_def new_info_def socks_consts)
  show "session_os (demo_os 6 []) (v_client (view demo_conn)) 7 (SIN [10, 0, 0, 1] [0, 99])"
    by (simp add: session_os_def connect_works_def mod_ok_def os_ok_def sends_all_def demo_os_def demo_state)
qed (simp_all add: demo_sa_def)

lemma connect_session_witness:
  "\<exists>c' r. drive demo_configs (session_events (demo_os 6 []) demo_sa) demo_conn = Some c' \<and> well_formed c' \<and>
    v_state (view c') = STATE_FULL \<and> v_server (view c') = Some 7 \<and> v_out (view c') = [] \<and> v_in (view c') = [] \<and>
    sent_bytes (v_client (view demo_conn)) (c_trace c') = [SOCKS5_VERSION, METH_NOAUTH] @
      [SOCKS5_VERSION, REP_SUCCESS, SOCKS5_RESV] @ addr_bytes (SIN [10, 0, 0, 1] [0, 99]) (the (sa_port (SIN [10, 0, 0, 1] [0, 99]))) \<and>
    filter outbound (c_trace c') = [Sys_socket (sa_family demo_sa) SOCK_STREAM (Some 7), Sys_connect 7 demo_sa r]"
  by (rule connect_session [OF demo_accept demo_accept_ok demo_session])

text \<open>The session of the witness above, reachable.\<close>

lemma demo_session_reachable:
  "\<exists>c r. reachable demo_configs c \<and> well_formed c \<and> v_state (view c) = STATE_FULL \<and>
    v_client (view c) = 5 \<and> v_server (view c) = Some 7 \<and> v_out (view c) = [] \<and> v_in (view c) = [] \<and>
    filter outbound (c_trace c) = [Sys_socket (sa_family demo_sa) SOCK_STREAM (Some 7), Sys_connect 7 demo_sa r]"
proof -
  let ?e = "demo_os 6 []"
  have later: "env_later e demo_configs 5" if "e = ?e \<or> (\<exists>bs. e = deliver ?e bs)" for e
    using that by (auto simp: env_later_def mod_ok_def os_ok_def demo_os_def configs_ok_def demo_configs_def deliver_def)
  have os: "session_os ?e 5 7 (SIN [10, 0, 0, 1] [0, 99])" using demo_session(4) by (simp add: demo_state)
  from connect_session_wp [OF demo_accept demo_accept_ok demo_state(3) demo_session(1-3) os]
  obtain c r where run: "drive demo_configs (session_events ?e demo_sa) demo_conn = Some c"
    and c: "well_formed c" "v_state (view c) = STATE_FULL" "v_client (view c) = 5" "v_server (view c) = Some 7"
      "v_out (view c) = []" "v_in (view c) = []"
      "filter outbound (c_trace c) = [Sys_socket (sa_family demo_sa) SOCK_STREAM (Some 7), Sys_connect 7 demo_sa r]"
    by (auto simp: wp_iff session_view_def view_trace)
  from run obtain k c1 where step: "socks5 (deliver ?e greeting) Client EPOLLIN demo_configs demo_conn = Some (k, c1)"
    and rest: "drive demo_configs (tl (session_events ?e demo_sa)) c1 = Some c"
    by (auto simp: session_events_def Option.bind_eq_Some_conv)
  have env: "env_ok (deliver ?e greeting) demo_configs demo_conn"
  proof -
    have "deliver ?e greeting = demo_os 6 greeting" by (simp add: deliver_def demo_os_def)
    moreover have "0xFF \<notin> set (drop 2 greeting)" by (simp add: greeting_def METH_NOAUTH_def)
    ultimately show ?thesis by (simp add: demo_env)
  qed
  have r1: "reachable demo_configs c1"
    by (rule reachable.event [OF demo_reachable socks5_data [OF step] _ step]) (simp add: env)
  have "wp (socks5 (deliver ?e greeting) Client EPOLLIN demo_configs demo_conn)
      (\<lambda>x. v_client (view (snd x)) = 5 \<and> v_state (view (snd x)) \<noteq> STATE_WAITING_METHODS)"
    using accept_new_client_result(3) [OF demo_accept demo_accept_ok] greeting_complete demo_state
    by (intro wp_step_methods [OF demo_wf demo_state(1), where m = METH_NOAUTH])
      (auto simp: selected_def OUTBUFFSIZE_def mod_ok_def demo_os_def demo_configs_def mem_get_def METH_NOAUTH_def)
  from wp_SomeD [OF this step] have c1: "v_client (view c1) = 5" "v_state (view c1) \<noteq> STATE_WAITING_METHODS"
    by simp_all
  have "reachable demo_configs c"
    by (rule drive_reachable [OF r1 _ _ rest, of 5]) (use c1 later in \<open>auto simp: session_events_def\<close>)
  with c show ?thesis by blast
qed



end
