(* ===== verification/Config.thy ===== *)
theory Config
  imports Firewall
begin

text \<open>
  The configuration parser of \<^verbatim>\<open>src/config.c\<close>. A \<^verbatim>\<open>char *\<close> into an object is the list of the cells
  from it to the end of the object, so that reading at the empty list is an access outside the
  object and undefined (\<open>None\<close>). \<^verbatim>\<open>malloc\<close> and \<^verbatim>\<open>getaddrinfo\<close> are fields of the environment.
  The messages the parser prints are not part of the model, only that it prints one.
\<close>

type_synonym mem = "char list"

abbreviation nul :: char where "nul \<equiv> CHR 0x00"
abbreviation tab :: char where "tab \<equiv> CHR 0x09"
abbreviation newline :: char where "newline \<equiv> CHR 0x0A"
abbreviation cr :: char where "cr \<equiv> CHR 0x0D"
abbreviation space :: char where "space \<equiv> CHR '' ''"

section \<open>The string functions of the C library\<close>

text \<open>The string at a pointer: up to the terminator, which must be inside the object.\<close>

fun c_string :: "mem \<Rightarrow> char list option" where
  "c_string [] = None"
| "c_string (m # ms) = (if m = nul then Some [] else map_option (Cons m) (c_string ms))"

text \<open>\<^verbatim>\<open>strcmp(m, lit) == 0\<close> for a literal; it reads up to the first difference.\<close>

fun strcmp_eq :: "mem \<Rightarrow> char list \<Rightarrow> bool option" where
  "strcmp_eq [] ls = None"
| "strcmp_eq (m # ms) [] = Some (m = nul)"
| "strcmp_eq (m # ms) (l # ls) = (if m \<noteq> l then Some False else strcmp_eq ms ls)"

text \<open>\<^verbatim>\<open>atoi\<close>: blanks, a sign, digits. A value outside \<^verbatim>\<open>int\<close> is undefined.\<close>

definition is_space :: "char \<Rightarrow> bool" where
  "is_space c \<longleftrightarrow> c = space \<or> (9 \<le> (of_char c :: nat) \<and> (of_char c :: nat) \<le> 13)"

definition is_digit :: "char \<Rightarrow> bool" where
  "is_digit c \<longleftrightarrow> 48 \<le> (of_char c :: nat) \<and> (of_char c :: nat) \<le> 57"

definition digits_value :: "char list \<Rightarrow> int" where
  "digits_value = foldl (\<lambda>n c. 10 * n + (of_char c - 48)) 0"

definition int_range :: "int \<Rightarrow> int option" where
  "int_range n = (if - (2 ^ 31) \<le> n \<and> n < 2 ^ 31 then Some n else None)"

definition atoi :: "mem \<Rightarrow> int option" where
  "atoi m = do {
     s \<leftarrow> c_string m;
     let s = dropWhile is_space s;
     let (neg, s) = (case s of CHR ''-'' # r \<Rightarrow> (True, r) | CHR ''+'' # r \<Rightarrow> (False, r) | _ \<Rightarrow> (False, s));
     let n = digits_value (takeWhile is_digit s);
     int_range (if neg then - n else n) }"

text \<open>
  \<^verbatim>\<open>fgets\<close>: at most \<open>n\<close> characters up to and with the end of the line; what it read and the
  rest of the file.
\<close>

fun fgets :: "nat \<Rightarrow> char list \<Rightarrow> char list \<times> char list" where
  "fgets 0 input = ([], input)"
| "fgets (Suc n) [] = ([], [])"
| "fgets (Suc n) (x # input) =
    (if x = newline then ([x], input) else let (l, rest) = fgets n input in (x # l, rest))"

section \<open>Values\<close>

definition yes_check :: "mem \<Rightarrow> bool option" where
  "yes_check val = strcmp_eq val ''yes''"

definition yesno :: "byte \<Rightarrow> char list" where
  "yesno val = (if val = 1 then ''yes'' else ''no'')"

definition method_parse :: "mem \<Rightarrow> int option" where
  "method_parse val = do {
     b \<leftarrow> strcmp_eq val ''no-auth'';
     if b then Some (uint METH_NOAUTH)
     else do {
       b \<leftarrow> strcmp_eq val ''gssapi'';
       if b then Some (uint METH_GSSAPI)
       else do {
         b \<leftarrow> strcmp_eq val ''username-password'';
         Some (if b then uint METH_USERPW else -1) } } }"

section \<open>The check of a configuration\<close>

datatype conf_error =
  No_addresses | No_access_log | No_error_log | Bad_max_conns | No_commands | No_bind_advertise
| No_bind_listen | No_udpa_advertise | No_udpa_listen | No_methods

text \<open>The messages in the order they are printed; the C result is 1 if there is one.\<close>

definition conf_errors :: "Configs \<Rightarrow> conf_error list" where
  "conf_errors configs =
    (if listen_head configs = [] then [No_addresses] else []) @
    (if a_log configs ! 0 = nul then [No_access_log] else []) @
    (if e_log configs ! 0 = nul then [No_error_log] else []) @
    (if max_conns configs < 1 then [Bad_max_conns] else []) @
    (if \<not> allow_connect configs \<and> \<not> allow_bind configs \<and> \<not> allow_udpassoc configs
     then [No_commands] else []) @
    (if allow_bind configs then
       (if bind_advertise configs = [] then [No_bind_advertise] else []) @
       (if bind_listen configs = [] then [No_bind_listen] else [])
     else []) @
    (if allow_udpassoc configs then
       (if udpa_advertise configs = [] then [No_udpa_advertise] else []) @
       (if udpa_listen configs = [] then [No_udpa_listen] else [])
     else []) @
    (if (\<Sum>m \<leftarrow> cf_methods configs. uint m) = 0 then [No_methods] else [])"

definition conf_error_check :: "Configs \<Rightarrow> int" where
  "conf_error_check configs = (if conf_errors configs = [] then 0 else 1)"

section \<open>The line\<close>

fun skip_whitespace :: "mem \<Rightarrow> mem option" where
  "skip_whitespace [] = None"
| "skip_whitespace (x # c) = (if x = space \<or> x = tab then skip_whitespace c else Some (x # c))"

fun line_comment :: "mem \<Rightarrow> bool option" where
  "line_comment [] = None"
| "line_comment (x # c) =
    Some (x = newline \<or> x = cr \<or> x = nul \<or> x = CHR ''#'' \<or> x = CHR '';'')"

text \<open>
  The loop of \<^verbatim>\<open>get_key\<close> and \<^verbatim>\<open>get_val\<close>: a character is copied before the next one is looked at,
  and the terminator goes behind the last copied one. The loop ends without a terminator
  when \<open>sz\<close> characters were copied.
\<close>

fun copy_word :: "(char \<Rightarrow> bool) \<Rightarrow> nat \<Rightarrow> nat \<Rightarrow> mem \<Rightarrow> mem \<Rightarrow> (mem \<times> mem) option" where
  "copy_word stop i sz [] dst = (if i < sz then None else Some ([], dst))"
| "copy_word stop i sz (x # c) dst =
    (if i < sz then do {
       dst \<leftarrow> mem_set dst i x;
       (case c of
          [] \<Rightarrow> None
        | y # _ \<Rightarrow>
          if stop y then do { dst \<leftarrow> mem_set dst (i + 1) nul; Some (c, dst) }
          else copy_word stop (i + 1) sz c dst) }
     else Some (x # c, dst))"

definition key_end :: "char \<Rightarrow> bool" where
  "key_end x \<longleftrightarrow> x = space \<or> x = tab \<or> x = CHR ''=''"

definition val_end :: "char \<Rightarrow> bool" where
  "val_end x \<longleftrightarrow> x = newline \<or> x = cr \<or> x = nul \<or> x = space \<or> x = tab"

definition get_key :: "mem \<Rightarrow> mem \<Rightarrow> nat \<Rightarrow> (mem \<times> mem) option" where
  "get_key c key keysz = copy_word key_end 0 keysz c key"

fun to_value :: "mem \<Rightarrow> mem option" where
  "to_value [] = None"
| "to_value (x # c) = (if x = space \<or> x = tab \<or> x = CHR ''='' then to_value c else Some (x # c))"

fun new_line :: "mem \<Rightarrow> bool option" where
  "new_line [] = None"
| "new_line (x # c) = Some (x = newline \<or> x = cr \<or> x = nul)"

definition get_val :: "mem \<Rightarrow> mem \<Rightarrow> nat \<Rightarrow> (mem \<times> mem) option" where
  "get_val c val valsz = copy_word val_end 0 valsz c val"

section \<open>Addresses\<close>

record conf_env =
  ce_malloc :: "nat \<Rightarrow> bool"
  ce_gai :: "char list \<Rightarrow> char list option \<Rightarrow> addrinfo list option"

text \<open>The state of the parser: the configuration and the number of allocations so far.\<close>

record pstate =
  ps_configs :: Configs
  ps_allocs :: nat

text \<open>The index of a delimiter, \<open>0\<close> when there is none.\<close>

fun delim_ind_loop :: "char \<Rightarrow> nat \<Rightarrow> mem \<Rightarrow> nat \<Rightarrow> nat" where
  "delim_ind_loop delim i [] n = 0"
| "delim_ind_loop delim i (v # val) 0 = 0"
| "delim_ind_loop delim i (v # val) (Suc n) = (if v = delim then i else delim_ind_loop delim (i + 1) val n)"

definition delim_ind :: "char \<Rightarrow> mem \<Rightarrow> nat \<Rightarrow> nat" where
  "delim_ind delim val valsz = delim_ind_loop delim 0 val valsz"

text \<open>
  The first \<open>valsz\<close> characters as an address, without a port. A null result is the empty list.
  An address of exactly 39 characters leaves no room for the terminator.
\<close>

definition addr_only_gai :: "conf_env \<Rightarrow> mem \<Rightarrow> nat \<Rightarrow> nat \<Rightarrow> (addrinfo list \<times> nat) option" where
  "addr_only_gai env val valsz t =
    (if valsz > 39 then Some ([], t)
     else do {
       part \<leftarrow> mem_read val 0 valsz;
       addr \<leftarrow> memcpy_to (replicate 39 nul) 0 part;
       (if \<not> ce_malloc env t then Some ([], t + 1)
        else do {
          node \<leftarrow> c_string addr;
          Some (case ce_gai env node None of None \<Rightarrow> ([], t + 1) | Some ais \<Rightarrow> (ais, t + 1)) }) })"

text \<open>The size of the address of an entry, \<^verbatim>\<open>sockaddr_in\<close> or \<^verbatim>\<open>sockaddr_in6\<close>.\<close>

definition ai_addrlen :: "addrinfo \<Rightarrow> nat" where
  "ai_addrlen ai = (case ai_addr ai of SIN _ _ \<Rightarrow> 16 | SIN6 _ _ \<Rightarrow> 28 | SA_OTHER _ \<Rightarrow> 0)"

text \<open>The loop of \<^verbatim>\<open>link_addrs_from_gai\<close> and \<^verbatim>\<open>link_addr\<close>; every entry goes to the front.\<close>

fun link_nodes :: "conf_env \<Rightarrow> addrinfo list \<Rightarrow> Sockaddr_ll list \<Rightarrow> nat \<Rightarrow> int \<times> Sockaddr_ll list \<times> nat" where
  "link_nodes env [] head t = (0, head, t)"
| "link_nodes env (ai # ais) head t =
    (if \<not> ce_malloc env t \<or> \<not> ce_malloc env (t + 1) then (-1, head, t + 2)
     else link_nodes env ais (\<lparr>sl_addrlen = ai_addrlen ai, sl_sa = ai_addr ai\<rparr> # head) (t + 2))"

definition link_addrs_from_gai ::
  "conf_env \<Rightarrow> addrinfo list \<Rightarrow> Sockaddr_ll list \<Rightarrow> nat \<Rightarrow> int \<times> Sockaddr_ll list \<times> nat" where
  "link_addrs_from_gai env ai head t = (if ai = [] then (-1, head, t) else link_nodes env ai head t)"

text \<open>
  \<open>sz\<close> is \<^verbatim>\<open>strlen\<close> of the value. The copies are bounded by the value alone, not by the sizes 39
  and 6 of the buffers.
\<close>

definition link_addr ::
  "conf_env \<Rightarrow> mem \<Rightarrow> nat \<Rightarrow> Sockaddr_ll list \<Rightarrow> nat \<Rightarrow> (int \<times> Sockaddr_ll list \<times> nat) option" where
  "link_addr env addrport sz head t = do {
     let delimind = delim_ind CHR ''_'' addrport sz;
     part \<leftarrow> mem_read addrport 0 delimind;
     addr \<leftarrow> memcpy_to (replicate 39 nul) 0 part;
     part \<leftarrow> mem_read addrport (delimind + 1) (sz - delimind);
     port \<leftarrow> memcpy_to (replicate 6 nul) 0 part;
     node \<leftarrow> c_string addr;
     service \<leftarrow> c_string port;
     Some (case ce_gai env node (Some service) of
             None \<Rightarrow> (-1, head, t)
           | Some ais \<Rightarrow> link_nodes env ais head t) }"

text \<open>The entry of a blocked network; the result of \<^verbatim>\<open>firewall_iton\<close> is not looked at.\<close>

definition masked :: "Netmask \<Rightarrow> sockaddr \<Rightarrow> sockaddr" where
  "masked nm sa =
    (case sa of
       SIN a p \<Rightarrow> SIN (mask_sin a (nm_inet nm)) p
     | SIN6 a p \<Rightarrow> SIN6 (mask_sin6 a (nm_inet6 nm)) p
     | SA_OTHER f \<Rightarrow> SA_OTHER f)"

definition link_blocks ::
  "conf_env \<Rightarrow> addrinfo list \<Rightarrow> int \<Rightarrow> Blockaddr_ll list \<Rightarrow> nat \<Rightarrow> (int \<times> Blockaddr_ll list \<times> nat) option" where
  "link_blocks env ais msk head t =
    (case ais of
       [] \<Rightarrow> Some (-1, head, t)
     | ai # _ \<Rightarrow>
       if \<not> ce_malloc env t \<or> \<not> ce_malloc env (t + 1) then Some (-1, head, t + 2)
       else do {
         (_, nm) \<leftarrow> firewall_iton netmask_zero (ai_family ai) msk;
         Some (0, \<lparr>b_netmask = nm, b_sa = masked nm (ai_addr ai)\<rparr> # head, t + 2) })"

section \<open>Storing a value\<close>

definition config_keys :: "char list list" where
  "config_keys = [''access-log'', ''error-log'', ''max-connections'', ''allow-domains'', ''allow-connect'',
     ''allow-bind'', ''allow-udp-associate'', ''method'', ''bind-advertise-address'',
     ''bind-listen-address'', ''udp-advertise-address'', ''udp-listen-address'', ''listen'', ''block'']"

text \<open>The chain of comparisons of \<^verbatim>\<open>store_config\<close>: the first name equal to the key.\<close>

fun match_name :: "mem \<Rightarrow> char list list \<Rightarrow> char list option option" where
  "match_name key [] = Some None"
| "match_name key (n # ns) = do {
     b \<leftarrow> strcmp_eq key n;
     if b then Some (Some n) else match_name key ns }"

text \<open>The four address lists are read in the same way.\<close>

definition store_addrs ::
  "conf_env \<Rightarrow> mem \<Rightarrow> (Configs \<Rightarrow> Sockaddr_ll list) \<Rightarrow>
   ((Sockaddr_ll list \<Rightarrow> Sockaddr_ll list) \<Rightarrow> Configs \<Rightarrow> Configs) \<Rightarrow> pstate \<Rightarrow> (int \<times> pstate) option" where
  "store_addrs env val field field_update st = do {
     s \<leftarrow> c_string val;
     (ai, t) \<leftarrow> addr_only_gai env val (length s) (ps_allocs st);
     let (ret, head, t) = link_addrs_from_gai env ai (field (ps_configs st)) t;
     let st = \<lparr>ps_configs = field_update (\<lambda>_. head) (ps_configs st), ps_allocs = t\<rparr>;
     Some (if ret \<noteq> 0 then -1 else 0, st) }"

definition store_flag ::
  "mem \<Rightarrow> ((bool \<Rightarrow> bool) \<Rightarrow> Configs \<Rightarrow> Configs) \<Rightarrow> pstate \<Rightarrow> (int \<times> pstate) option" where
  "store_flag val flag_update st = do {
     b \<leftarrow> yes_check val;
     Some (0, ps_configs_update (flag_update (\<lambda>_. b)) st) }"

definition store_method :: "mem \<Rightarrow> pstate \<Rightarrow> (int \<times> pstate) option" where
  "store_method val st = do {
     meth \<leftarrow> method_parse val;
     if meth \<noteq> -1 then do {
       ms \<leftarrow> mem_set (cf_methods (ps_configs st)) (nat meth) 1;
       Some (0, ps_configs_update (cf_methods_update (\<lambda>_. ms)) st) }
     else Some (0, st) }"

definition store_listen :: "conf_env \<Rightarrow> mem \<Rightarrow> pstate \<Rightarrow> (int \<times> pstate) option" where
  "store_listen env val st = do {
     s \<leftarrow> c_string val;
     (ret, head, t) \<leftarrow> link_addr env val (length s) (listen_head (ps_configs st)) (ps_allocs st);
     let st = \<lparr>ps_configs = listen_head_update (\<lambda>_. head) (ps_configs st), ps_allocs = t\<rparr>;
     Some (if ret \<noteq> 0 then -1 else 0, st) }"

definition store_block :: "conf_env \<Rightarrow> mem \<Rightarrow> pstate \<Rightarrow> (int \<times> pstate) option" where
  "store_block env val st = do {
     s \<leftarrow> c_string val;
     let delimind = delim_ind CHR ''/'' val (length s);
     (ai, t) \<leftarrow> addr_only_gai env val delimind (ps_allocs st);
     if ai = [] then Some (-1, st\<lparr>ps_allocs := t\<rparr>)
     else do {
       msk \<leftarrow> atoi (drop (delimind + 1) val);
       (ret, head, t) \<leftarrow> link_blocks env ai msk (block_head (ps_configs st)) t;
       let st = \<lparr>ps_configs = block_head_update (\<lambda>_. head) (ps_configs st), ps_allocs = t\<rparr>;
       Some (if ret \<noteq> 0 then -1 else 0, st) } }"

text \<open>The branch of a name; \<open>val\<close> is the whole buffer of 255 characters.\<close>

definition store_value :: "conf_env \<Rightarrow> char list \<Rightarrow> mem \<Rightarrow> pstate \<Rightarrow> (int \<times> pstate) option" where
  "store_value env name val st =
    (if name = ''access-log'' then do {
       path \<leftarrow> mem_read val 0 255;
       Some (0, ps_configs_update (a_log_update (\<lambda>_. path)) st) }
     else if name = ''error-log'' then do {
       path \<leftarrow> mem_read val 0 255;
       Some (0, ps_configs_update (e_log_update (\<lambda>_. path)) st) }
     else if name = ''max-connections'' then do {
       n \<leftarrow> atoi val;
       Some (0, ps_configs_update (max_conns_update (\<lambda>_. n)) st) }
     else if name = ''allow-domains'' then store_flag val allow_domains_update st
     else if name = ''allow-connect'' then store_flag val allow_connect_update st
     else if name = ''allow-bind'' then store_flag val allow_bind_update st
     else if name = ''allow-udp-associate'' then store_flag val allow_udpassoc_update st
     else if name = ''method'' then store_method val st
     else if name = ''bind-advertise-address'' then store_addrs env val bind_advertise bind_advertise_update st
     else if name = ''bind-listen-address'' then store_addrs env val bind_listen bind_listen_update st
     else if name = ''udp-advertise-address'' then store_addrs env val udpa_advertise udpa_advertise_update st
     else if name = ''udp-listen-address'' then store_addrs env val udpa_listen udpa_listen_update st
     else if name = ''listen'' then store_listen env val st
     else if name = ''block'' then store_block env val st
     else Some (0, st))"

definition store_config :: "conf_env \<Rightarrow> mem \<Rightarrow> mem \<Rightarrow> pstate \<Rightarrow> (int \<times> pstate) option" where
  "store_config env key val st = do {
     name \<leftarrow> match_name key config_keys;
     case name of None \<Rightarrow> Some (0, st) | Some n \<Rightarrow> store_value env n val st }"

section \<open>The input\<close>

text \<open>The body of the loop of \<^verbatim>\<open>parse_configs\<close> on the buffer of a line.\<close>

definition parse_line :: "conf_env \<Rightarrow> mem \<Rightarrow> pstate \<Rightarrow> (int \<times> pstate) option" where
  "parse_line env line st = do {
     c \<leftarrow> skip_whitespace line;
     comment \<leftarrow> line_comment c;
     if comment then Some (0, st)
     else do {
       (c, key) \<leftarrow> get_key c (replicate 64 nul) 64;
       c \<leftarrow> to_value c;
       empty_value \<leftarrow> new_line c;
       if empty_value then Some (0, st)
       else do {
         (c, val) \<leftarrow> get_val c (replicate 255 nul) 255;
         store_config env key val st } } }"

lemma length_fgets: "length (snd (fgets n input)) + length (fst (fgets n input)) = length input"
  by (induction n input rule: fgets.induct) (auto split: prod.split)

lemma fgets_consumes: "0 < n \<Longrightarrow> input \<noteq> [] \<Longrightarrow> length (snd (fgets n input)) < length input"
  using length_fgets [of n input] by (cases n; cases input) (auto split: prod.splits if_splits)

text \<open>
  The loop: \<open>line\<close> is the buffer of 255 characters, which keeps what earlier lines left behind
  the terminator.
\<close>

function parse_lines :: "conf_env \<Rightarrow> char list \<Rightarrow> mem \<Rightarrow> pstate \<Rightarrow> (int \<times> pstate) option" where
  "parse_lines env input line st =
    (if input = [] then Some (0, st)
     else do {
       let (l, rest) = fgets 254 input;
       line \<leftarrow> memcpy_to line 0 (l @ [nul]);
       (ret, st) \<leftarrow> parse_line env line st;
       if ret \<noteq> 0 then Some (1, st) else parse_lines env rest line st })"
  by pat_completeness auto
termination
proof (relation "measure (\<lambda>(env, input, line, st). length input)")
  fix input :: "char list" and lr l rest
  assume "input \<noteq> []" and "lr = fgets 254 input" and "(l, rest) = lr"
  with fgets_consumes [of 254 input] have "length rest < length input" by (metis snd_conv zero_less_numeral)
  then show "((env, rest, line, st), (env, input, line', st')) \<in> measure (\<lambda>(env, input, line, st). length input)"
    for env line st line' st' by simp
qed simp

declare parse_lines.simps [simp del]

definition zero_configs :: Configs where
  "zero_configs = \<lparr>listen_head = [], a_log = replicate 255 nul, e_log = replicate 255 nul, max_conns = 0,
    allow_domains = False, allow_connect = False, allow_bind = False, allow_udpassoc = False,
    cf_methods = replicate 255 0, bind_advertise = [], bind_listen = [], udpa_advertise = [],
    udpa_listen = [], block_head = []\<rparr>"

text \<open>\<open>input\<close> is \<open>None\<close> when it cannot be opened; \<open>junk\<close> is the uninitialised line buffer.\<close>

definition parse_configs :: "conf_env \<Rightarrow> char list option \<Rightarrow> mem \<Rightarrow> (int \<times> Configs) option" where
  "parse_configs env input junk =
    (case input of
       None \<Rightarrow> Some (1, zero_configs)
     | Some txt \<Rightarrow> do {
         (ret, st) \<leftarrow> parse_lines env txt junk \<lparr>ps_configs = zero_configs, ps_allocs = 0\<rparr>;
         if ret \<noteq> 0 then Some (1, ps_configs st)
         else Some (conf_error_check (ps_configs st), ps_configs st) })"

section \<open>Releasing a configuration\<close>

text \<open>
  \<^verbatim>\<open>free_configs\<close> frees the nodes of every list and clears its head; the result is the configuration
  left behind. (The addresses the nodes point to are not freed. Nothing calls this function.)
\<close>

definition free_configs :: "Configs \<Rightarrow> Configs" where
  "free_configs configs = configs\<lparr>listen_head := [], bind_advertise := [], bind_listen := [],
     udpa_advertise := [], udpa_listen := [], block_head := []\<rparr>"

end
