(* ===== verification/Config_Parsing.thy ===== *)
theory Config_Parsing
  imports Config
begin

text \<open>
  What the parser makes of a configuration: each line by its layout, the whole file as the
  sequence of its settings, and the settings as updates of the configuration. The text of a
  configuration is printed and parsed back.
\<close>

section \<open>Buffers that hold a string\<close>

definition c_buffer :: "nat \<Rightarrow> char list \<Rightarrow> mem" where
  "c_buffer n s = s @ replicate (n - length s) nul"

lemma length_c_buffer [simp]: "length s \<le> n \<Longrightarrow> length (c_buffer n s) = n"
  by (simp add: c_buffer_def)

lemma c_string_append: "nul \<notin> set s \<Longrightarrow> c_string (s @ nul # rest) = Some s"
  by (induction s) auto

lemma replicate_nul: "0 < n \<Longrightarrow> replicate n nul = nul # replicate (n - 1) nul"
  by (cases n) simp_all

lemma c_string_buffer [simp]: "nul \<notin> set s \<Longrightarrow> length s < n \<Longrightarrow> c_string (c_buffer n s) = Some s"
  by (simp add: c_buffer_def replicate_nul c_string_append)

lemma strcmp_eq_append:
  "nul \<notin> set s \<Longrightarrow> nul \<notin> set l \<Longrightarrow> strcmp_eq (s @ nul # rest) l = Some (s = l)"
proof (induction s arbitrary: l)
  case Nil
  then show ?case by (cases l) auto
next
  case (Cons x s)
  then show ?case by (cases l) auto
qed

lemma strcmp_eq_buffer [simp]:
  "nul \<notin> set s \<Longrightarrow> length s < n \<Longrightarrow> nul \<notin> set l \<Longrightarrow> strcmp_eq (c_buffer n s) l = Some (s = l)"
  by (simp add: c_buffer_def replicate_nul strcmp_eq_append)

lemma match_name_buffer:
  "nul \<notin> set s \<Longrightarrow> length s < n \<Longrightarrow> \<forall>l \<in> set ns. nul \<notin> set l \<Longrightarrow>
   match_name (c_buffer n s) ns = Some (if s \<in> set ns then Some s else None)"
  by (induction ns) auto

section \<open>The pieces of a line\<close>

lemma fgets_line:
  "newline \<notin> set l \<Longrightarrow> length l < n \<Longrightarrow> fgets n (l @ newline # rest) = (l @ [newline], rest)"
proof (induction l arbitrary: n)
  case Nil
  then show ?case by (cases n) simp_all
next
  case (Cons x l)
  then show ?case by (cases n) auto
qed

lemma skip_whitespace_pad:
  "set pad \<subseteq> {space, tab} \<Longrightarrow> skip_whitespace (pad @ c) = skip_whitespace c"
  by (induction pad) auto

lemma to_value_sep:
  "set sep \<subseteq> {space, tab, CHR ''=''} \<Longrightarrow> to_value (sep @ c) = to_value c"
  by (induction sep) auto

text \<open>
  The copy of a word: it takes the first character whatever it is, and then up to the first
  one that ends a word, if the buffer has room for the word and its terminator.
\<close>

lemma copy_word_spec:
  assumes "w \<noteq> []" and "\<forall>x \<in> set (tl w). \<not> stop x" and "stop y" and "i + length w \<le> sz"
    and "i + length w < length dst"
  shows "copy_word stop i sz (w @ y # rest) dst =
    Some (y # rest, take i dst @ w @ nul # drop (i + length w + 1) dst)"
  using assms
proof (induction w arbitrary: i dst)
  case (Cons x w)
  have set: "mem_set dst i x = Some (dst[i := x])" using Cons.prems by (simp add: mem_set_def)
  have upd: "take i (dst[i := x]) = take i dst" "drop (Suc i) (dst[i := x]) = drop (Suc i) dst" by simp_all
  have split: "dst[i := x] = take i dst @ x # drop (Suc i) dst"
    using Cons.prems by (simp add: upd_conv_take_nth_drop)
  show ?case
  proof (cases w)
    case Nil
    have "mem_set (dst[i := x]) (Suc i) nul = Some (take i dst @ x # nul # drop (Suc (Suc i)) dst)"
      using Cons.prems Nil
      by (simp add: mem_set_def upd_conv_take_nth_drop take_Suc_conv_app_nth)
    with Cons.prems Nil set show ?thesis by simp
  next
    case (Cons z v)
    have "copy_word stop (Suc i) sz (w @ y # rest) (dst[i := x]) =
        Some (y # rest, take (Suc i) (dst[i := x]) @ w @ nul # drop (Suc i + length w + 1) (dst[i := x]))"
      using Cons.prems Cons by (intro Cons.IH) simp_all
    with Cons.prems set Cons show ?thesis
      by (simp add: take_Suc_conv_app_nth)
  qed
qed simp

lemma copy_word_buffer:
  assumes "w \<noteq> []" and "\<forall>x \<in> set (tl w). \<not> stop x" and "stop y" and "length w < n"
  shows "copy_word stop 0 n (w @ y # rest) (replicate n nul) = Some (y # rest, c_buffer n w)"
  using copy_word_spec [OF assms(1-3), of 0 n "replicate n nul" rest] assms(4)
  by (simp add: c_buffer_def replicate_nul [of "n - length w"])

section \<open>A line\<close>

text \<open>
  The two kinds of lines the documentation describes: a comment or an empty line, and a setting
  with its layout. A setting must leave room for the terminators of the key and of the line.
\<close>

datatype conf_line =
  Remark (l_pad: "char list") (l_text: "char list")
| Setting (l_pad: "char list") (l_key: "char list") (l_sep: "char list") (l_val: "char list") (l_tail: "char list")

fun render :: "conf_line \<Rightarrow> char list" where
  "render (Remark pad body) = pad @ body"
| "render (Setting pad key sep val tail) = pad @ key @ sep @ val @ tail"

fun line_ok :: "conf_line \<Rightarrow> bool" where
  "line_ok (Remark pad body) \<longleftrightarrow> set pad \<subseteq> {space, tab} \<and> newline \<notin> set body \<and>
     (body \<noteq> [] \<longrightarrow> hd body = CHR ''#'' \<or> hd body = CHR '';'') \<and> length pad + length body < 254"
| "line_ok (Setting pad key sep val tail) \<longleftrightarrow> set pad \<subseteq> {space, tab} \<and>
     key \<noteq> [] \<and> length key < 64 \<and> nul \<notin> set key \<and> newline \<notin> set key \<and>
     (\<forall>x \<in> set key. \<not> key_end x) \<and> hd key \<notin> {cr, CHR ''#'', CHR '';''} \<and>
     sep \<noteq> [] \<and> set sep \<subseteq> {space, tab, CHR ''=''} \<and>
     val \<noteq> [] \<and> hd val \<noteq> CHR ''='' \<and> (\<forall>x \<in> set val. \<not> val_end x) \<and>
     newline \<notin> set tail \<and> (tail \<noteq> [] \<longrightarrow> val_end (hd tail)) \<and>
     length (pad @ key @ sep @ val @ tail) < 254"

lemma line_ok_newline: "line_ok l \<Longrightarrow> newline \<notin> set (render l) \<and> length (render l) < 254"
  by (cases l) (auto simp: val_end_def)

text \<open>The effect of a line on the parser, with the layout gone.\<close>

fun run_line :: "conf_env \<Rightarrow> conf_line \<Rightarrow> pstate \<Rightarrow> (int \<times> pstate) option" where
  "run_line env (Remark pad body) st = Some (0, st)"
| "run_line env (Setting pad key sep val tail) st = store_config env (c_buffer 64 key) (c_buffer 255 val) st"

lemma parse_line_render:
  assumes ok: "line_ok l"
  shows "parse_line env (render l @ newline # junk) st = run_line env l st"
proof (cases l)
  case (Remark pad body)
  show ?thesis
  proof (cases body)
    case Nil
    with Remark ok show ?thesis by (simp add: parse_line_def skip_whitespace_pad)
  next
    case (Cons x ts)
    with Remark ok show ?thesis by (auto simp: parse_line_def skip_whitespace_pad)
  qed
next
  case (Setting pad key sep val tail)
  note k = ok [unfolded Setting line_ok.simps]
  obtain x ks where key: "key = x # ks" using k by (cases key) auto
  obtain s ss where sep: "sep = s # ss" using k by (cases sep) auto
  obtain v vs where val: "val = v # vs" using k by (cases val) auto
  obtain y rest where after: "tail @ newline # junk = y # rest" and y: "val_end y"
    using k by (cases tail) (auto simp: val_end_def)
  have skip: "skip_whitespace (pad @ key @ c) = Some (key @ c)" for c
    using k key by (auto simp: skip_whitespace_pad key_end_def)
  have comment: "line_comment (key @ c) = Some False" for c
    using k key by auto
  have gk: "get_key (key @ sep @ c) (replicate 64 nul) 64 = Some (sep @ c, c_buffer 64 key)" for c
  proof -
    have "key_end s" using k sep by (auto simp: key_end_def)
    moreover have "\<forall>x \<in> set (tl key). \<not> key_end x" using k key by simp
    ultimately show ?thesis
      using k copy_word_buffer [of key key_end s 64 "ss @ c"] unfolding get_key_def sep by simp
  qed
  have tv: "to_value (sep @ val @ c) = Some (val @ c)" for c
    using k val by (auto simp: to_value_sep val_end_def)
  have nl: "new_line (val @ c) = Some False" for c
    using k val by (auto simp: val_end_def)
  have gv: "get_val (val @ y # rest) (replicate 255 nul) 255 = Some (y # rest, c_buffer 255 val)"
    using k val y unfolding get_val_def by (intro copy_word_buffer) simp_all
  show ?thesis
    using Setting by (simp add: parse_line_def skip comment gk tv nl after gv)
qed

section \<open>The file\<close>

fun run_lines :: "conf_env \<Rightarrow> conf_line list \<Rightarrow> pstate \<Rightarrow> (int \<times> pstate) option" where
  "run_lines env [] st = Some (0, st)"
| "run_lines env (l # ls) st = do {
     (ret, st) \<leftarrow> run_line env l st;
     if ret \<noteq> 0 then Some (1, st) else run_lines env ls st }"

definition render_lines :: "conf_line list \<Rightarrow> char list" where
  "render_lines ls = concat (map (\<lambda>l. render l @ [newline]) ls)"

lemma render_lines_simps [simp]:
  "render_lines [] = []" "render_lines (l # ls) = render l @ newline # render_lines ls"
  by (simp_all add: render_lines_def)

lemma parse_lines_render:
  "\<forall>l \<in> set ls. line_ok l \<Longrightarrow> length junk = 255 \<Longrightarrow>
   parse_lines env (render_lines ls) junk st = run_lines env ls st"
proof (induction ls arbitrary: junk st)
  case Nil
  then show ?case by (simp add: parse_lines.simps)
next
  case (Cons l ls)
  from Cons.prems line_ok_newline [of l] have nl: "newline \<notin> set (render l)" "length (render l) < 254" by auto
  define junk' where "junk' = drop (length (render l) + 2) junk"
  have copy: "memcpy_to junk 0 (render l @ [newline] @ [nul]) = Some (render l @ newline # nul # junk')"
    using nl Cons.prems by (simp add: memcpy_to_def junk'_def)
  have len: "length (render l @ newline # nul # junk') = 255"
    using nl Cons.prems by (simp add: junk'_def)
  have line: "parse_line env (render l @ newline # nul # junk') st = run_line env l st" for st
    using Cons.prems by (intro parse_line_render) simp
  show ?case
    using Cons.prems Cons.IH [OF _ len] copy
    by (subst parse_lines.simps) (simp add: fgets_line [OF nl] line cong: option.case_cong if_cong)
qed

end
