(* ===== verification/Config_Settings.thy ===== *)
theory Config_Settings
  imports Config_Parsing
begin

text \<open>
  The settings of a configuration file as data, the text of each, its effect on the
  configuration, and the proof that \<^verbatim>\<open>store_config\<close> has that effect: printing a configuration and
  parsing it back is the identity.
\<close>

section \<open>Numbers\<close>

lemma digits_value_snoc: "digits_value (xs @ [c]) = 10 * digits_value xs + (of_char c - 48)"
  by (simp add: digits_value_def)

lemma of_char_digit: "n < 10 \<Longrightarrow> (of_char (char_of (48 + n :: nat)) :: int) = 48 + int n"
proof -
  assume n: "n < 10"
  have "(of_char (char_of (48 + n)) :: int) = int (of_char (char_of (48 + n)))"
    by (rule of_nat_of_char [symmetric])
  also have "(of_char (char_of (48 + n)) :: nat) = 48 + n"
    using n by (simp add: of_char_of)
  finally show "(of_char (char_of (48 + n)) :: int) = 48 + int n" by simp
qed

lemma digits_value_decimal: "digits_value (decimal n) = int n"
proof (induction n rule: decimal.induct)
  case (1 n)
  show ?case
  proof (cases "n < 10")
    case True
    then show ?thesis
      using of_char_digit [OF True] digits_value_snoc [of "[]"]
      by (simp add: decimal.simps [of n] digits_value_def)
  next
    case False
    with 1 of_char_digit [of "n mod 10"] show ?thesis
      by (subst decimal.simps) (simp add: digits_value_snoc zmod_int zdiv_int)
  qed
qed

lemma decimal_chars:
  assumes "c \<in> set (decimal n)"
  shows "is_digit c" and "\<not> is_space c" and "c \<noteq> nul" and "\<not> val_end c" and "c \<noteq> CHR ''=''"
    and "c \<noteq> CHR ''-''" and "c \<noteq> CHR ''+''"
  using decimal_digit [OF assms] by (auto simp: is_digit_def is_space_def val_end_def)

lemma length_decimal: "n < 10 ^ k \<Longrightarrow> 0 < k \<Longrightarrow> length (decimal n) \<le> k"
proof (induction k arbitrary: n)
  case (Suc k)
  show ?case
  proof (cases "n < 10")
    case True
    then show ?thesis by (simp add: decimal.simps [of n])
  next
    case False
    with Suc.prems have "n div 10 < 10 ^ k" by (simp add: div_less_iff_less_mult mult.commute)
    moreover from this False have "0 < k" by (cases k) auto
    ultimately have "length (decimal (n div 10)) \<le> k" by (rule Suc.IH)
    with False show ?thesis by (simp add: decimal.simps [of n])
  qed
qed simp

lemma takeWhile_all: "\<forall>x \<in> set xs. P x \<Longrightarrow> takeWhile P xs = xs"
  by (simp add: takeWhile_eq_all_conv)

lemma atoi_decimal:
  assumes "k < 2 ^ 31"
  shows "atoi (decimal k @ nul # rest) = Some (int k)"
proof -
  have str: "c_string (decimal k @ nul # rest) = Some (decimal k)"
    using decimal_chars(3) by (blast intro: c_string_append)
  obtain x xs where d: "decimal k = x # xs" by (cases "decimal k") auto
  have x: "x \<in> set (decimal k)" by (simp add: d)
  have drop: "dropWhile is_space (decimal k) = decimal k" using decimal_chars(2) [OF x] d by simp
  have sign: "(case decimal k of CHR ''-'' # r \<Rightarrow> (True, r) | CHR ''+'' # r \<Rightarrow> (False, r) | _ \<Rightarrow> (False, decimal k)) =
      (False, decimal k)"
    using decimal_chars(6,7) [OF x] d by (simp split: char.split bool.split)
  have all: "takeWhile is_digit (decimal k) = decimal k" using decimal_chars(1) by (blast intro: takeWhile_all)
  show ?thesis
    using assms by (simp add: atoi_def str drop sign all digits_value_decimal int_range_def)
qed

section \<open>The settings\<close>

datatype setting =
  Access_log "char list" | Error_log "char list" | Max_connections nat
| Allow_domains bool | Allow_connect bool | Allow_bind bool | Allow_udp_associate bool
| Auth_method byte
| Bind_advertise "char list" | Bind_listen "char list" | Udp_advertise "char list" | Udp_listen "char list"
| Listen "char list" "char list"
| Block "char list" nat

definition method_name :: "byte \<Rightarrow> char list" where
  "method_name m = (if m = METH_NOAUTH then ''no-auth'' else if m = METH_GSSAPI then ''gssapi''
     else ''username-password'')"

definition flag_name :: "bool \<Rightarrow> char list" where
  "flag_name b = (if b then ''yes'' else ''no'')"

fun setting_key :: "setting \<Rightarrow> char list" where
  "setting_key (Access_log p) = ''access-log''"
| "setting_key (Error_log p) = ''error-log''"
| "setting_key (Max_connections n) = ''max-connections''"
| "setting_key (Allow_domains b) = ''allow-domains''"
| "setting_key (Allow_connect b) = ''allow-connect''"
| "setting_key (Allow_bind b) = ''allow-bind''"
| "setting_key (Allow_udp_associate b) = ''allow-udp-associate''"
| "setting_key (Auth_method m) = ''method''"
| "setting_key (Bind_advertise a) = ''bind-advertise-address''"
| "setting_key (Bind_listen a) = ''bind-listen-address''"
| "setting_key (Udp_advertise a) = ''udp-advertise-address''"
| "setting_key (Udp_listen a) = ''udp-listen-address''"
| "setting_key (Listen a p) = ''listen''"
| "setting_key (Block a n) = ''block''"

fun setting_val :: "setting \<Rightarrow> char list" where
  "setting_val (Access_log p) = p"
| "setting_val (Error_log p) = p"
| "setting_val (Max_connections n) = decimal n"
| "setting_val (Allow_domains b) = flag_name b"
| "setting_val (Allow_connect b) = flag_name b"
| "setting_val (Allow_bind b) = flag_name b"
| "setting_val (Allow_udp_associate b) = flag_name b"
| "setting_val (Auth_method m) = method_name m"
| "setting_val (Bind_advertise a) = a"
| "setting_val (Bind_listen a) = a"
| "setting_val (Udp_advertise a) = a"
| "setting_val (Udp_listen a) = a"
| "setting_val (Listen a p) = a @ CHR ''_'' # p"
| "setting_val (Block a n) = a @ CHR ''/'' # decimal n"

text \<open>The entry of a blocked network and the nodes of the addresses a name stands for.\<close>

definition block_entry :: "nat \<Rightarrow> sockaddr \<Rightarrow> Blockaddr_ll" where
  "block_entry n sa =
    (case sa of
       SIN a p \<Rightarrow> \<lparr>b_netmask = netmask_zero\<lparr>nm_inet := netmask4 n\<rparr>, b_sa = SIN (mask_sin a (netmask4 n)) p\<rparr>
     | SIN6 a p \<Rightarrow> \<lparr>b_netmask = netmask_zero\<lparr>nm_inet6 := netmask6 n\<rparr>, b_sa = SIN6 (mask_sin6 a (netmask6 n)) p\<rparr>
     | SA_OTHER f \<Rightarrow> \<lparr>b_netmask = netmask_zero, b_sa = sa\<rparr>)"

definition nodes :: "addrinfo list \<Rightarrow> Sockaddr_ll list" where
  "nodes ais = rev (map (\<lambda>ai. \<lparr>sl_addrlen = ai_addrlen ai, sl_sa = ai_addr ai\<rparr>) ais)"

definition resolved :: "conf_env \<Rightarrow> char list \<Rightarrow> char list option \<Rightarrow> addrinfo list" where
  "resolved env a p = (case ce_gai env a p of None \<Rightarrow> [] | Some ais \<Rightarrow> ais)"

text \<open>The effect of a setting. Addresses go to the front of their list.\<close>

fun apply_setting :: "conf_env \<Rightarrow> setting \<Rightarrow> Configs \<Rightarrow> Configs" where
  "apply_setting env (Access_log p) cf = cf\<lparr>a_log := c_buffer 255 p\<rparr>"
| "apply_setting env (Error_log p) cf = cf\<lparr>e_log := c_buffer 255 p\<rparr>"
| "apply_setting env (Max_connections n) cf = cf\<lparr>max_conns := int n\<rparr>"
| "apply_setting env (Allow_domains b) cf = cf\<lparr>allow_domains := b\<rparr>"
| "apply_setting env (Allow_connect b) cf = cf\<lparr>allow_connect := b\<rparr>"
| "apply_setting env (Allow_bind b) cf = cf\<lparr>allow_bind := b\<rparr>"
| "apply_setting env (Allow_udp_associate b) cf = cf\<lparr>allow_udpassoc := b\<rparr>"
| "apply_setting env (Auth_method m) cf = cf\<lparr>cf_methods := (cf_methods cf)[unat m := 1]\<rparr>"
| "apply_setting env (Bind_advertise a) cf = cf\<lparr>bind_advertise := nodes (resolved env a None) @ bind_advertise cf\<rparr>"
| "apply_setting env (Bind_listen a) cf = cf\<lparr>bind_listen := nodes (resolved env a None) @ bind_listen cf\<rparr>"
| "apply_setting env (Udp_advertise a) cf = cf\<lparr>udpa_advertise := nodes (resolved env a None) @ udpa_advertise cf\<rparr>"
| "apply_setting env (Udp_listen a) cf = cf\<lparr>udpa_listen := nodes (resolved env a None) @ udpa_listen cf\<rparr>"
| "apply_setting env (Listen a p) cf = cf\<lparr>listen_head := nodes (resolved env a (Some p)) @ listen_head cf\<rparr>"
| "apply_setting env (Block a n) cf =
    cf\<lparr>block_head := block_entry n (ai_addr (hd (resolved env a None))) # block_head cf\<rparr>"

text \<open>
  The settings that can be written to a file and are accepted: a word as value; addresses that
  \<^verbatim>\<open>getaddrinfo\<close> knows and that fit the buffers; a prefix length of the family.
\<close>

definition word_ok :: "char list \<Rightarrow> bool" where
  "word_ok w \<longleftrightarrow> w \<noteq> [] \<and> hd w \<noteq> CHR ''='' \<and> (\<forall>x \<in> set w. \<not> val_end x)"

fun prefix_ok :: "nat \<Rightarrow> sockaddr \<Rightarrow> bool" where
  "prefix_ok n (SIN a p) \<longleftrightarrow> 0 < n \<and> n \<le> 32"
| "prefix_ok n (SIN6 a p) \<longleftrightarrow> n \<le> 128"
| "prefix_ok n (SA_OTHER f) \<longleftrightarrow> False"

definition addr_ok :: "conf_env \<Rightarrow> char list \<Rightarrow> bool" where
  "addr_ok env a \<longleftrightarrow> word_ok a \<and> length a < 39 \<and> resolved env a None \<noteq> []"

fun setting_ok :: "conf_env \<Rightarrow> setting \<Rightarrow> bool" where
  "setting_ok env (Access_log p) \<longleftrightarrow> word_ok p \<and> length p < 255"
| "setting_ok env (Error_log p) \<longleftrightarrow> word_ok p \<and> length p < 255"
| "setting_ok env (Max_connections n) \<longleftrightarrow> n < 2 ^ 31"
| "setting_ok env (Auth_method m) \<longleftrightarrow> m \<in> {METH_NOAUTH, METH_GSSAPI, METH_USERPW}"
| "setting_ok env (Bind_advertise a) \<longleftrightarrow> addr_ok env a"
| "setting_ok env (Bind_listen a) \<longleftrightarrow> addr_ok env a"
| "setting_ok env (Udp_advertise a) \<longleftrightarrow> addr_ok env a"
| "setting_ok env (Udp_listen a) \<longleftrightarrow> addr_ok env a"
| "setting_ok env (Listen a p) \<longleftrightarrow> word_ok a \<and> CHR ''_'' \<notin> set a \<and> length a < 39 \<and>
     word_ok p \<and> length p \<le> 5 \<and> ce_gai env a (Some p) \<noteq> None"
| "setting_ok env (Block a n) \<longleftrightarrow> addr_ok env a \<and> CHR ''/'' \<notin> set a \<and>
     prefix_ok n (ai_addr (hd (resolved env a None)))"
| "setting_ok env s \<longleftrightarrow> True"

section \<open>Addresses\<close>

lemma delim_ind_loop_found:
  "delim \<notin> set a \<Longrightarrow> length a < n \<Longrightarrow> delim_ind_loop delim i (a @ delim # r) n = i + length a"
proof (induction a arbitrary: i n)
  case Nil
  then show ?case by (cases n) simp_all
next
  case (Cons x a)
  then show ?case by (cases n) auto
qed

lemma delim_ind_found: "delim \<notin> set a \<Longrightarrow> length a < n \<Longrightarrow> delim_ind delim (a @ delim # r) n = length a"
  by (simp add: delim_ind_def delim_ind_loop_found)

lemma addr_only_gai_word:
  assumes "length a < 39" and "nul \<notin> set a" and "ce_malloc env t"
  shows "addr_only_gai env (a @ rest) (length a) t = Some (resolved env a None, t + 1)"
proof -
  have "mem_read (a @ rest) 0 (length a) = Some a" by (simp add: mem_read_def)
  moreover have "memcpy_to (replicate 39 nul) 0 a = Some (c_buffer 39 a)"
    using assms(1) by (simp add: memcpy_to_def c_buffer_def)
  ultimately show ?thesis
    using assms by (simp add: addr_only_gai_def resolved_def split: option.split)
qed

lemma link_nodes_all:
  "\<forall>t. ce_malloc env t \<Longrightarrow> link_nodes env ais head t = (0, nodes ais @ head, t + 2 * length ais)"
  by (induction ais arbitrary: head t) (simp_all add: nodes_def)

lemma word_ok_nul: "word_ok w \<Longrightarrow> nul \<notin> set w"
  by (auto simp: word_ok_def val_end_def)

lemma link_addr_words:
  assumes malloc: "\<forall>t. ce_malloc env t" and a: "CHR ''_'' \<notin> set a" "length a < 39" "nul \<notin> set a"
    and p: "length p \<le> 5" "nul \<notin> set p" and gai: "ce_gai env a (Some p) = Some ais"
  shows "link_addr env (a @ CHR ''_'' # p @ nul # rest) (length a + 1 + length p) head t =
    Some (0, nodes ais @ head, t + 2 * length ais)"
proof -
  let ?m = "a @ CHR ''_'' # p @ nul # rest"
  have "delim_ind CHR ''_'' ?m (length a + 1 + length p) = length a"
    using a by (intro delim_ind_found) simp_all
  moreover have "mem_read ?m 0 (length a) = Some a" by (simp add: mem_read_def)
  moreover have "memcpy_to (replicate 39 nul) 0 a = Some (c_buffer 39 a)"
    using a by (simp add: memcpy_to_def c_buffer_def)
  moreover have "mem_read ?m (length a + 1) (length a + 1 + length p - length a) = Some (p @ [nul])"
    by (simp add: mem_read_def)
  moreover have "memcpy_to (replicate 6 nul) 0 (p @ [nul]) = Some (c_buffer 6 p)"
  proof -
    have "replicate (6 - length p) nul = nul # replicate (5 - length p) nul"
      using p by (simp add: replicate_nul)
    with p show ?thesis by (simp add: memcpy_to_def c_buffer_def)
  qed
  ultimately show ?thesis
    using a p gai link_nodes_all [OF malloc] by (simp add: link_addr_def)
qed

lemma link_blocks_entry:
  assumes malloc: "\<forall>t. ce_malloc env t" and n: "prefix_ok n (ai_addr ai)"
  shows "link_blocks env (ai # ais) (int n) head t = Some (0, block_entry n (ai_addr ai) # head, t + 2)"
proof (cases "ai_addr ai")
  case (SIN a p)
  with n firewall_iton_inet [of n] malloc show ?thesis
    by (simp add: link_blocks_def ai_family_def block_entry_def masked_def)
next
  case (SIN6 a p)
  with n firewall_iton_inet6 [of n] malloc show ?thesis
    by (simp add: link_blocks_def ai_family_def block_entry_def masked_def)
qed (use n in simp)

section \<open>The effect of a setting\<close>

lemma config_keys_nul: "\<forall>l \<in> set config_keys. nul \<notin> set l"
  by (simp add: config_keys_def)

lemma setting_key_known: "setting_key s \<in> set config_keys"
  by (cases s) (simp_all add: config_keys_def)

lemma store_config_key:
  "store_config env (c_buffer 64 (setting_key s)) val st = store_value env (setting_key s) val st"
proof -
  have "nul \<notin> set (setting_key s)" using setting_key_known config_keys_nul by blast
  moreover have "length (setting_key s) < 64" by (cases s) simp_all
  ultimately show ?thesis
    using setting_key_known [of s] config_keys_nul by (simp add: store_config_def match_name_buffer)
qed

lemma store_flag_name:
  "store_flag (c_buffer 255 (flag_name b)) upd st = Some (0, ps_configs_update (upd (\<lambda>_. b)) st)"
  by (simp add: store_flag_def yes_check_def flag_name_def)

lemma c_buffer_split:
  "length s < n \<Longrightarrow> c_buffer n s = s @ nul # replicate (n - length s - 1) nul"
  by (simp add: c_buffer_def replicate_nul)

lemma store_addrs_word:
  assumes malloc: "\<forall>t. ce_malloc env t" and a: "addr_ok env a"
  shows "\<exists>t. store_addrs env (c_buffer 255 a) field upd st =
    Some (0, \<lparr>ps_configs = upd (\<lambda>_. nodes (resolved env a None) @ field (ps_configs st)) (ps_configs st), ps_allocs = t\<rparr>)"
  using a malloc addr_only_gai_word [of a env] word_ok_nul [of a] link_nodes_all [OF malloc]
  by (simp add: store_addrs_def addr_ok_def link_addrs_from_gai_def c_buffer_split Let_def c_string_append)

lemma store_method_name:
  assumes "m \<in> {METH_NOAUTH, METH_GSSAPI, METH_USERPW}" and "length (cf_methods (ps_configs st)) = 255"
  shows "store_method (c_buffer 255 (method_name m)) st =
    Some (0, ps_configs_update (cf_methods_update (\<lambda>_. (cf_methods (ps_configs st))[unat m := 1])) st)"
  using assms by (auto simp: store_method_def method_parse_def method_name_def meth_consts mem_set_def)

lemma store_listen_words:
  assumes malloc: "\<forall>t. ce_malloc env t" and ok: "setting_ok env (Listen a p)"
  shows "\<exists>t. store_listen env (c_buffer 255 (a @ CHR ''_'' # p)) st =
    Some (0, \<lparr>ps_configs = (ps_configs st)\<lparr>listen_head := nodes (resolved env a (Some p)) @ listen_head (ps_configs st)\<rparr>,
      ps_allocs = t\<rparr>)"
proof -
  note ok = ok [unfolded setting_ok.simps]
  then obtain ais where ais: "ce_gai env a (Some p) = Some ais" by blast
  have nul: "nul \<notin> set a" "nul \<notin> set p" using ok word_ok_nul by blast+
  have buf: "c_buffer 255 (a @ CHR ''_'' # p) = a @ CHR ''_'' # p @ nul # replicate (253 - length a - length p) nul"
    using ok by (simp add: c_buffer_split)
  have str: "c_string (c_buffer 255 (a @ CHR ''_'' # p)) = Some (a @ CHR ''_'' # p)"
    using ok nul by simp
  have link: "link_addr env (c_buffer 255 (a @ CHR ''_'' # p)) (length (a @ CHR ''_'' # p)) head t =
      Some (0, nodes ais @ head, t + 2 * length ais)" for head t
    using link_addr_words [OF malloc _ _ nul(1) _ nul(2) ais] ok unfolding buf by simp
  show ?thesis
    by (simp add: store_listen_def str link [simplified] resolved_def ais del: c_string_buffer)
qed

lemma store_block_words:
  assumes malloc: "\<forall>t. ce_malloc env t" and ok: "setting_ok env (Block a n)"
  shows "\<exists>t. store_block env (c_buffer 255 (a @ CHR ''/'' # decimal n)) st =
    Some (0, \<lparr>ps_configs = (ps_configs st)
        \<lparr>block_head := block_entry n (ai_addr (hd (resolved env a None))) # block_head (ps_configs st)\<rparr>,
      ps_allocs = t\<rparr>)"
proof -
  note ok = ok [unfolded setting_ok.simps addr_ok_def]
  obtain ai ais where ais: "resolved env a None = ai # ais" using ok by (cases "resolved env a None") auto
  with ok have pre: "prefix_ok n (ai_addr ai)" by simp
  then have n: "n \<le> 128" by (cases "ai_addr ai") auto
  have len: "length (decimal n) \<le> 3"
    using n by (simp add: decimal.simps [of n] decimal.simps [of "n div 10"] decimal.simps [of "n div 10 div 10"])
  have nul: "nul \<notin> set a" "nul \<notin> set (decimal n)" using ok word_ok_nul decimal_chars(3) by blast+
  let ?m = "c_buffer 255 (a @ CHR ''/'' # decimal n)"
  define r where "r = replicate (253 - length a - length (decimal n)) nul"
  have buf: "?m = a @ CHR ''/'' # decimal n @ nul # r"
    using ok len by (simp add: c_buffer_split r_def)
  have str: "c_string ?m = Some (a @ CHR ''/'' # decimal n)" using ok nul len by simp
  have ind: "delim_ind CHR ''/'' ?m (length (a @ CHR ''/'' # decimal n)) = length a"
    using ok unfolding buf by (intro delim_ind_found) simp_all
  have addr: "addr_only_gai env ?m (length a) t = Some (ai # ais, t + 1)" for t
    using ok nul malloc ais addr_only_gai_word [of a env t] unfolding buf by simp
  have num: "atoi (drop (length a + 1) ?m) = Some (int n)"
    using atoi_decimal [of n r] n unfolding buf by simp
  show ?thesis
    using link_blocks_entry [OF malloc pre]
    by (simp add: store_block_def str ind [simplified] addr num [simplified] ais del: c_string_buffer)
qed

lemma store_value_simps:
  "store_value env ''access-log'' val st = do {
     path \<leftarrow> mem_read val 0 255; Some (0, ps_configs_update (a_log_update (\<lambda>_. path)) st) }"
  "store_value env ''error-log'' val st = do {
     path \<leftarrow> mem_read val 0 255; Some (0, ps_configs_update (e_log_update (\<lambda>_. path)) st) }"
  "store_value env ''max-connections'' val st = do {
     n \<leftarrow> atoi val; Some (0, ps_configs_update (max_conns_update (\<lambda>_. n)) st) }"
  "store_value env ''allow-domains'' val st = store_flag val allow_domains_update st"
  "store_value env ''allow-connect'' val st = store_flag val allow_connect_update st"
  "store_value env ''allow-bind'' val st = store_flag val allow_bind_update st"
  "store_value env ''allow-udp-associate'' val st = store_flag val allow_udpassoc_update st"
  "store_value env ''method'' val st = store_method val st"
  "store_value env ''bind-advertise-address'' val st = store_addrs env val bind_advertise bind_advertise_update st"
  "store_value env ''bind-listen-address'' val st = store_addrs env val bind_listen bind_listen_update st"
  "store_value env ''udp-advertise-address'' val st = store_addrs env val udpa_advertise udpa_advertise_update st"
  "store_value env ''udp-listen-address'' val st = store_addrs env val udpa_listen udpa_listen_update st"
  "store_value env ''listen'' val st = store_listen env val st"
  "store_value env ''block'' val st = store_block env val st"
  by (simp_all add: store_value_def)

lemma store_value_setting:
  assumes malloc: "\<forall>t. ce_malloc env t" and ok: "setting_ok env s"
    and ms: "length (cf_methods (ps_configs st)) = 255"
  shows "\<exists>t. store_value env (setting_key s) (c_buffer 255 (setting_val s)) st =
    Some (0, \<lparr>ps_configs = apply_setting env s (ps_configs st), ps_allocs = t\<rparr>)"
proof (cases s)
  case (Max_connections n)
  with ok have n: "n < 2 ^ 31" by simp
  then have "length (decimal n) < 255" using length_decimal [of n 10] by simp
  then have "c_buffer 255 (decimal n) = decimal n @ nul # replicate (254 - length (decimal n)) nul"
    by (simp add: c_buffer_split)
  with Max_connections n atoi_decimal [of n] show ?thesis by (cases st) (simp add: store_value_simps)
next
  case (Auth_method m)
  with ok ms show ?thesis by (cases st) (simp add: store_value_simps store_method_name)
next
  case (Listen a p)
  with malloc ok store_listen_words show ?thesis by (simp add: store_value_simps)
next
  case (Block a n)
  with malloc ok store_block_words show ?thesis by (simp add: store_value_simps)
next
  case (Bind_advertise a)
  with ok store_addrs_word [OF malloc, of a bind_advertise] show ?thesis by (simp add: store_value_simps)
next
  case (Bind_listen a)
  with ok store_addrs_word [OF malloc, of a bind_listen] show ?thesis by (simp add: store_value_simps)
next
  case (Udp_advertise a)
  with ok store_addrs_word [OF malloc, of a udpa_advertise] show ?thesis by (simp add: store_value_simps)
next
  case (Udp_listen a)
  with ok store_addrs_word [OF malloc, of a udpa_listen] show ?thesis by (simp add: store_value_simps)
qed (cases st, use ok in \<open>simp add: store_value_simps store_flag_name mem_read_def\<close>)+

lemma store_setting:
  assumes "\<forall>t. ce_malloc env t" and "setting_ok env s" and "length (cf_methods (ps_configs st)) = 255"
  shows "\<exists>t. store_config env (c_buffer 64 (setting_key s)) (c_buffer 255 (setting_val s)) st =
    Some (0, \<lparr>ps_configs = apply_setting env s (ps_configs st), ps_allocs = t\<rparr>)"
  using store_value_setting [OF assms] by (simp only: store_config_key)

section \<open>A configuration file\<close>

text \<open>
  The lines of a file: remarks, and settings with a layout of their own (blanks in front,
  separators, and what follows the value on the line).
\<close>

datatype doc_line =
  Note "char list" "char list"
| Doc "char list" "char list" "char list" setting

fun to_line :: "doc_line \<Rightarrow> conf_line" where
  "to_line (Note pad body) = Remark pad body"
| "to_line (Doc pad sep tail s) = Setting pad (setting_key s) sep (setting_val s) tail"

fun doc_setting :: "doc_line \<Rightarrow> setting list" where
  "doc_setting (Note pad body) = []"
| "doc_setting (Doc pad sep tail s) = [s]"

definition doc_ok :: "conf_env \<Rightarrow> doc_line list \<Rightarrow> bool" where
  "doc_ok env doc \<longleftrightarrow> (\<forall>l \<in> set doc. line_ok (to_line l) \<and> (\<forall>s \<in> set (doc_setting l). setting_ok env s))"

definition print_doc :: "doc_line list \<Rightarrow> char list" where
  "print_doc doc = render_lines (map to_line doc)"

definition meaning :: "conf_env \<Rightarrow> doc_line list \<Rightarrow> Configs \<Rightarrow> Configs" where
  "meaning env doc cf = fold (apply_setting env) (concat (map doc_setting doc)) cf"

lemma apply_setting_methods [simp]: "length (cf_methods (apply_setting env s cf)) = length (cf_methods cf)"
  by (cases s) simp_all

lemma run_lines_doc:
  assumes malloc: "\<forall>t. ce_malloc env t"
  shows "doc_ok env doc \<Longrightarrow> length (cf_methods (ps_configs st)) = 255 \<Longrightarrow>
    \<exists>t. run_lines env (map to_line doc) st =
      Some (0, \<lparr>ps_configs = meaning env doc (ps_configs st), ps_allocs = t\<rparr>)"
proof (induction doc arbitrary: st)
  case Nil
  then show ?case by (cases st) (simp add: meaning_def)
next
  case (Cons l doc)
  then have rest: "doc_ok env doc" by (simp add: doc_ok_def)
  show ?case
  proof (cases l)
    case (Note pad body)
    with Cons.IH [OF rest Cons.prems(2)] show ?thesis by (simp add: meaning_def)
  next
    case (Doc pad sep tail s)
    with Cons.prems have "setting_ok env s" by (simp add: doc_ok_def)
    from store_setting [OF malloc this Cons.prems(2)] obtain t where
      s: "store_config env (c_buffer 64 (setting_key s)) (c_buffer 255 (setting_val s)) st =
        Some (0, \<lparr>ps_configs = apply_setting env s (ps_configs st), ps_allocs = t\<rparr>)" by blast
    with Doc Cons.IH [OF rest, of "\<lparr>ps_configs = apply_setting env s (ps_configs st), ps_allocs = t\<rparr>"] Cons.prems
    show ?thesis by (simp add: meaning_def)
  qed
qed

text \<open>Parsing a printed file, with the line buffer in any state.\<close>

lemma parse_print:
  assumes "\<forall>t. ce_malloc env t" and "doc_ok env doc" and "length junk = 255"
  shows "parse_configs env (Some (print_doc doc)) junk =
    Some (conf_error_check (meaning env doc zero_configs), meaning env doc zero_configs)"
proof -
  have "\<forall>l \<in> set (map to_line doc). line_ok l" using assms(2) by (simp add: doc_ok_def)
  from parse_lines_render [OF this assms(3)]
  have "parse_lines env (print_doc doc) junk st = run_lines env (map to_line doc) st" for st
    by (simp add: print_doc_def)
  moreover have "length (cf_methods zero_configs) = 255" by (simp add: zero_configs_def)
  ultimately show ?thesis
    using run_lines_doc [OF assms(1,2), of "\<lparr>ps_configs = zero_configs, ps_allocs = 0\<rparr>"]
    by (auto simp: parse_configs_def)
qed

end
