(* ===== verification/Config_Properties.thy ===== *)
theory Config_Properties
  imports Config_Settings
begin

text \<open>
  The properties of the configuration parser: the round trip of a file, the filter a file sets
  up, the invariant of the configurations of arbitrary files, the check, and the inputs the
  parser mishandles.
\<close>

section \<open>The networks a file blocks\<close>

definition settings :: "doc_line list \<Rightarrow> setting list" where
  "settings doc = concat (map doc_setting doc)"

text \<open>An address lies in a network of its own family.\<close>

fun covers :: "nat \<Rightarrow> sockaddr \<Rightarrow> sockaddr \<Rightarrow> bool" where
  "covers n (SIN net p) (SIN a q) = in_network n net a"
| "covers n (SIN6 net p) (SIN6 a q) = in_network n net a"
| "covers n x y = False"

fun block_of :: "conf_env \<Rightarrow> setting \<Rightarrow> Blockaddr_ll list" where
  "block_of env (Block a n) = [block_entry n (ai_addr (hd (resolved env a None)))]"
| "block_of env s = []"

lemma apply_setting_blocks: "block_head (apply_setting env s cf) = block_of env s @ block_head cf"
  by (cases s) simp_all

lemma set_meaning_blocks:
  "set (block_head (meaning env doc cf)) = (\<Union>s \<in> set (settings doc). set (block_of env s)) \<union> set (block_head cf)"
proof -
  have "set (block_head (fold (apply_setting env) ss cf)) = (\<Union>s \<in> set ss. set (block_of env s)) \<union> set (block_head cf)" for ss
    by (induction ss arbitrary: cf) (auto simp: apply_setting_blocks)
  then show ?thesis by (simp add: meaning_def settings_def)
qed

lemma matches_block_entry:
  assumes "prefix_ok n net" and "sa_wf net" and "sa_wf sa"
  shows "matches (block_entry n net) sa \<longleftrightarrow> covers n net sa"
proof (cases sa)
  case (SIN a p)
  with assms mask_sin_eq_iff [of "sin_addr net" a n] show ?thesis
    by (cases net) (auto simp: block_entry_def)
next
  case (SIN6 a p)
  with assms mask_sin6_eq_iff [of "sin6_addr net" a n] show ?thesis
    by (cases net) (auto simp: block_entry_def)
qed (cases net, simp_all)

lemma firewall_sa:
  assumes "i_sa info = Some sa" and "sa_family sa = AF_INET \<or> sa_family sa = AF_INET6" and "sa_wf sa"
    and "\<not> udpa_unspec info"
  shows "firewall info cf \<longleftrightarrow> (\<exists>b \<in> set (block_head cf). matches b sa)"
  using assms by (cases sa) (auto simp: firewall_def check_sin_iff check_sin6_iff)

text \<open>The documented results of \<^verbatim>\<open>getaddrinfo\<close>: addresses of the right size.\<close>

definition gai_ok :: "conf_env \<Rightarrow> bool" where
  "gai_ok env \<longleftrightarrow> (\<forall>a p ais. ce_gai env a p = Some ais \<longrightarrow> (\<forall>ai \<in> set ais. sa_wf (ai_addr ai)))"

lemma resolved_wf: "gai_ok env \<Longrightarrow> ai \<in> set (resolved env a p) \<Longrightarrow> sa_wf (ai_addr ai)"
  by (cases "ce_gai env a p") (auto simp: gai_ok_def resolved_def)

lemma doc_ok_setting: "doc_ok env doc \<Longrightarrow> s \<in> set (settings doc) \<Longrightarrow> setting_ok env s"
  by (auto simp: doc_ok_def settings_def)

lemma meaning_matches:
  assumes doc: "doc_ok env doc" and gai: "gai_ok env" and sa: "sa_wf sa"
  shows "(\<exists>b \<in> set (block_head (meaning env doc zero_configs)). matches b sa) \<longleftrightarrow>
    (\<exists>a n. Block a n \<in> set (settings doc) \<and> covers n (ai_addr (hd (resolved env a None))) sa)"
proof -
  have entry: "matches (block_entry n (ai_addr (hd (resolved env a None)))) sa \<longleftrightarrow>
      covers n (ai_addr (hd (resolved env a None))) sa" if "Block a n \<in> set (settings doc)" for a n
  proof -
    have ok: "resolved env a None \<noteq> []" "prefix_ok n (ai_addr (hd (resolved env a None)))"
      using doc_ok_setting [OF doc that] by (simp_all add: addr_ok_def)
    have "sa_wf (ai_addr (hd (resolved env a None)))" by (rule resolved_wf [OF gai hd_in_set [OF ok(1)]])
    with ok(2) sa show ?thesis by (intro matches_block_entry)
  qed
  have "block_head zero_configs = []" by (simp add: zero_configs_def)
  moreover have "b \<in> set (block_of env s) \<longleftrightarrow>
      (\<exists>a n. s = Block a n \<and> b = block_entry n (ai_addr (hd (resolved env a None))))" for b s
    by (cases s) auto
  ultimately have "(\<exists>b \<in> set (block_head (meaning env doc zero_configs)). matches b sa) \<longleftrightarrow>
      (\<exists>a n. Block a n \<in> set (settings doc) \<and> matches (block_entry n (ai_addr (hd (resolved env a None)))) sa)"
    unfolding set_meaning_blocks by (simp add: UNION_eq) blast
  with entry show ?thesis by blast
qed

section \<open>The invariant of a configuration\<close>

definition addrs_wf :: "Sockaddr_ll list \<Rightarrow> bool" where
  "addrs_wf ls \<longleftrightarrow> (\<forall>l \<in> set ls. sa_wf (sl_sa l))"

definition configs_inv :: "Configs \<Rightarrow> bool" where
  "configs_inv cf \<longleftrightarrow>
     length (a_log cf) = 255 \<and> length (e_log cf) = 255 \<and> - (2 ^ 31) \<le> max_conns cf \<and> max_conns cf < 2 ^ 31 \<and>
     length (cf_methods cf) = 255 \<and> set (cf_methods cf) \<subseteq> {0, 1} \<and> (\<forall>i < 255. cf_methods cf ! i = 1 \<longrightarrow> i \<le> 2) \<and>
     addrs_wf (listen_head cf) \<and> addrs_wf (bind_advertise cf) \<and> addrs_wf (bind_listen cf) \<and>
     addrs_wf (udpa_advertise cf) \<and> addrs_wf (udpa_listen cf) \<and>
     (\<forall>b \<in> set (block_head cf). sa_wf (b_sa b))"

lemma configs_inv_zero: "configs_inv zero_configs"
  by (simp add: configs_inv_def zero_configs_def addrs_wf_def)

lemma addrs_wf_simps [simp]: "addrs_wf []" "addrs_wf (l # ls) \<longleftrightarrow> sa_wf (sl_sa l) \<and> addrs_wf ls"
  by (simp_all add: addrs_wf_def)

lemma link_nodes_wf:
  "\<forall>ai \<in> set ais. sa_wf (ai_addr ai) \<Longrightarrow> addrs_wf head \<Longrightarrow> addrs_wf (fst (snd (link_nodes env ais head t)))"
  by (induction ais arbitrary: head t) simp_all

lemma addr_only_gai_wf:
  assumes "gai_ok env"
  shows "wlp (addr_only_gai env val n t) (\<lambda>(ais, t'). \<forall>ai \<in> set ais. sa_wf (ai_addr ai))"
proof -
  have "\<forall>ai \<in> set (fst (case ce_gai env a None of None \<Rightarrow> ([], t + 1) | Some ais \<Rightarrow> (ais, t + 1))). sa_wf (ai_addr ai)" for a
    using assms by (cases "ce_gai env a None") (auto simp: gai_ok_def)
  then show ?thesis
    by (auto simp: addr_only_gai_def case_prod_unfold intro!: wlp_any wlp_if)
qed

lemma masked_wf: "sa_wf sa \<Longrightarrow> length (nm_inet6 nm) = 16 \<Longrightarrow> sa_wf (masked nm sa)"
  by (cases sa) (simp_all add: masked_def length_mask_sin length_mask_sin6)

lemma firewall_iton_length:
  "length (nm_inet6 nm) = 16 \<Longrightarrow> wlp (firewall_iton nm af msk) (\<lambda>(r, nm'). length (nm_inet6 nm') = 16)"
  by (simp add: firewall_iton_def Let_def length_iton6_loop)

text \<open>Each way to store a value keeps the invariant.\<close>

abbreviation keeps_inv :: "(int \<times> pstate) option \<Rightarrow> bool" where
  "keeps_inv m \<equiv> wlp m (\<lambda>(r, st). configs_inv (ps_configs st))"

lemma store_flag_keeps:
  "(\<And>b. configs_inv (upd (\<lambda>_. b) (ps_configs st))) \<Longrightarrow> keeps_inv (store_flag val upd st)"
  by (simp add: store_flag_def wlp_any)

lemma set_method_inv:
  assumes "configs_inv cf" and "m \<le> 2"
  shows "configs_inv (cf\<lparr>cf_methods := (cf_methods cf)[m := 1]\<rparr>)"
proof -
  have "set ((cf_methods cf)[m := 1]) \<subseteq> {0, 1}"
    using assms(1) set_update_subset_insert [of "cf_methods cf" m 1] by (auto simp: configs_inv_def)
  with assms show ?thesis by (auto simp: configs_inv_def nth_list_update)
qed

lemma method_parse_range: "wlp (method_parse val) (\<lambda>m. nat m \<le> 2)"
  by (auto simp: method_parse_def meth_consts intro!: wlp_any)

lemma store_method_keeps: "configs_inv (ps_configs st) \<Longrightarrow> keeps_inv (store_method val st)"
  unfolding store_method_def wlp_bind
  by (rule wlp_mono [OF method_parse_range]) (auto simp: mem_set_def intro!: wlp_if intro: set_method_inv)

lemma store_addrs_keeps:
  assumes gai: "gai_ok env" and inv: "addrs_wf (field (ps_configs st))"
    and upd: "\<And>ls. addrs_wf ls \<Longrightarrow> configs_inv (upd (\<lambda>_. ls) (ps_configs st))"
  shows "keeps_inv (store_addrs env val field upd st)"
  unfolding store_addrs_def wlp_bind
proof (rule wlp_any, rule wlp_mono [OF addr_only_gai_wf [OF gai]])
  fix s and r :: "addrinfo list \<times> nat"
  assume "case r of (ais, t') \<Rightarrow> \<forall>ai \<in> set ais. sa_wf (ai_addr ai)"
  with inv link_nodes_wf [of "fst r" "field (ps_configs st)" env "snd r"] show
    "wlp (case r of (ai, t) \<Rightarrow> let (ret, head, t) = link_addrs_from_gai env ai (field (ps_configs st)) t;
        st = \<lparr>ps_configs = upd (\<lambda>_. head) (ps_configs st), ps_allocs = t\<rparr>
      in Some (if ret \<noteq> 0 then -1 else 0, st)) (\<lambda>(r, st). configs_inv (ps_configs st))"
    by (auto simp: link_addrs_from_gai_def case_prod_unfold Let_def intro!: upd)
qed

lemma link_addr_wf:
  assumes "gai_ok env" and "addrs_wf head"
  shows "wlp (link_addr env val n head t) (\<lambda>(r, head', t'). addrs_wf head')"
proof -
  have "addrs_wf (fst (snd (case ce_gai env a (Some p) of None \<Rightarrow> (-1, head, t) | Some ais \<Rightarrow> link_nodes env ais head t)))" for a p
    using assms link_nodes_wf [of _ head env t] by (cases "ce_gai env a (Some p)") (auto simp: gai_ok_def)
  then show ?thesis by (simp add: link_addr_def case_prod_unfold Let_def wlp_any)
qed

lemma store_listen_keeps:
  assumes gai: "gai_ok env" and inv: "configs_inv (ps_configs st)"
  shows "keeps_inv (store_listen env val st)"
  unfolding store_listen_def wlp_bind
proof (rule wlp_any, rule wlp_mono [OF link_addr_wf [OF gai]])
  show "addrs_wf (listen_head (ps_configs st))" using inv by (simp add: configs_inv_def)
qed (use inv in \<open>auto simp: configs_inv_def Let_def\<close>)

lemma link_blocks_wf:
  assumes ais: "\<forall>ai \<in> set ais. sa_wf (ai_addr ai)" and head: "\<forall>b \<in> set head. sa_wf (b_sa b)"
  shows "wlp (link_blocks env ais msk head t) (\<lambda>(r, head', t'). \<forall>b \<in> set head'. sa_wf (b_sa b))"
proof (cases ais)
  case (Cons ai rest)
  have zero: "length (nm_inet6 netmask_zero) = 16" by (simp add: netmask_zero_def)
  show ?thesis
    unfolding link_blocks_def Cons list.case wlp_bind
  proof (rule wlp_if)
    show "wlp (firewall_iton netmask_zero (ai_family ai) msk \<bind>
        (\<lambda>(_, nm). Some (0, \<lparr>b_netmask = nm, b_sa = masked nm (ai_addr ai)\<rparr> # head, t + 2)))
      (\<lambda>(r, head', t'). \<forall>b \<in> set head'. sa_wf (b_sa b))"
      unfolding wlp_bind
      by (rule wlp_mono [OF firewall_iton_length [OF zero]]) (use Cons ais head in \<open>auto intro: masked_wf\<close>)
  qed (use head in simp)
qed (use head in \<open>simp add: link_blocks_def\<close>)

lemma store_block_keeps:
  assumes gai: "gai_ok env" and inv: "configs_inv (ps_configs st)"
  shows "keeps_inv (store_block env val st)"
  unfolding store_block_def wlp_bind Let_def
proof (rule wlp_any, rule wlp_mono [OF addr_only_gai_wf [OF gai]], clarify, rule wlp_if)
  fix ai :: "addrinfo list" and t s
  assume ai: "\<forall>ai \<in> set ai. sa_wf (ai_addr ai)"
  have head: "\<forall>b \<in> set (block_head (ps_configs st)). sa_wf (b_sa b)" using inv by (simp add: configs_inv_def)
  show "keeps_inv (do {
      msk \<leftarrow> atoi (drop (delim_ind CHR ''/'' val (length s) + 1) val);
      (ret, head, t) \<leftarrow> link_blocks env ai msk (block_head (ps_configs st)) t;
      Some (if ret \<noteq> 0 then -1 else 0,
        \<lparr>ps_configs = block_head_update (\<lambda>_. head) (ps_configs st), ps_allocs = t\<rparr>) })"
    unfolding wlp_bind
    by (rule wlp_any, rule wlp_mono [OF link_blocks_wf [OF ai head]]) (use inv in \<open>auto simp: configs_inv_def\<close>)
qed (use inv in simp)

lemma atoi_range: "wlp (atoi val) (\<lambda>n. - (2 ^ 31) \<le> n \<and> n < 2 ^ 31)"
  by (auto simp: atoi_def int_range_def Let_def case_prod_unfold intro!: wlp_any)

lemma read_255: "wlp (mem_read val 0 255) (\<lambda>p. length p = 255)"
  by (simp add: mem_read_def)

lemma store_value_keeps:
  assumes gai: "gai_ok env" and inv: "configs_inv (ps_configs st)"
  shows "keeps_inv (store_value env n val st)"
  unfolding store_value_def
  by (intro wlp_if wlp_bindI store_flag_keeps store_method_keeps store_addrs_keeps store_listen_keeps
      store_block_keeps gai inv wlp_mono [OF read_255] wlp_mono [OF atoi_range])
    (use inv in \<open>simp_all add: configs_inv_def\<close>)

lemma store_config_keeps:
  assumes "gai_ok env" and "configs_inv (ps_configs st)"
  shows "keeps_inv (store_config env key val st)"
proof -
  have "keeps_inv (case n of None \<Rightarrow> Some (0, st) | Some n \<Rightarrow> store_value env n val st)" for n
    using assms by (cases n) (simp_all add: store_value_keeps)
  then show ?thesis unfolding store_config_def wlp_bind by (rule wlp_any)
qed

lemma parse_line_keeps:
  assumes "gai_ok env" and "configs_inv (ps_configs st)"
  shows "keeps_inv (parse_line env line st)"
proof -
  have same: "keeps_inv (Some (0, st))" using assms(2) by simp
  have val: "keeps_inv (case r of (c, val) \<Rightarrow> store_config env key val st)" for key r
    by (cases r) (simp add: store_config_keeps [OF assms])
  have key: "keeps_inv (case r of (c, key) \<Rightarrow> do {
      c \<leftarrow> to_value c;
      empty_value \<leftarrow> new_line c;
      if empty_value then Some (0, st)
      else do {
        (c, val) \<leftarrow> get_val c (replicate 255 nul) 255;
        store_config env key val st } })" for r
  proof (cases r)
    case (Pair c key)
    show ?thesis
      unfolding Pair prod.case
      by (rule wlp_bindI, rule wlp_any, rule wlp_bindI, rule wlp_any, rule wlp_if, rule same,
          rule wlp_bindI, rule wlp_any, rule val)
  qed
  show ?thesis
    unfolding parse_line_def
    by (rule wlp_bindI, rule wlp_any, rule wlp_bindI, rule wlp_any, rule wlp_if, rule same,
        rule wlp_bindI, rule wlp_any, rule key)
qed

lemma parse_lines_keeps:
  assumes gai: "gai_ok env"
  shows "configs_inv (ps_configs st) \<Longrightarrow> keeps_inv (parse_lines env input line st)"
proof (induction input arbitrary: line st rule: length_induct)
  case (1 input)
  show ?case
  proof (cases "input = []")
    case True
    with 1 show ?thesis by (simp add: parse_lines.simps)
  next
    case False
    define l rest where "l = fst (fgets 254 input)" and "rest = snd (fgets 254 input)"
    then have fg: "fgets 254 input = (l, rest)" by simp
    have less: "length rest < length input" using fgets_consumes [of 254 input] False by (simp add: rest_def)
    have step: "keeps_inv (case r of (ret, st) \<Rightarrow> if ret \<noteq> 0 then Some (1, st) else parse_lines env rest line st)"
      if "case r of (ret, st') \<Rightarrow> configs_inv (ps_configs st')" for line r
      using that 1 less by (cases r) simp
    have eq: "parse_lines env input line st = do {
        line \<leftarrow> memcpy_to line 0 (l @ [nul]);
        r \<leftarrow> parse_line env line st;
        case r of (ret, st) \<Rightarrow> if ret \<noteq> 0 then Some (1, st) else parse_lines env rest line st }"
      using False by (subst parse_lines.simps) (simp add: fg)
    show ?thesis
      unfolding eq
      by (rule wlp_bindI, rule wlp_any, rule wlp_bindI, rule wlp_mono [OF parse_line_keeps [OF gai 1(2)]], rule step)
  qed
qed

section \<open>Inputs the buffers do not hold\<close>

lemma copy_word_overflow:
  assumes "w \<noteq> []" and "\<forall>x \<in> set (tl w). \<not> stop x" and "stop y" and "i + length w = sz" and "length dst = sz"
  shows "copy_word stop i sz (w @ y # rest) dst = None"
  using assms
proof (induction w arbitrary: i dst)
  case (Cons x w)
  show ?case
  proof (cases w)
    case Nil
    with Cons.prems show ?thesis by (simp add: mem_set_def)
  next
    case (Cons z v)
    with Cons.prems Cons.IH [of "Suc i"] show ?thesis by (auto simp: mem_set_def)
  qed
qed simp

definition line_comment_char :: "char \<Rightarrow> bool" where
  "line_comment_char x \<longleftrightarrow> x = newline \<or> x = cr \<or> x = nul \<or> x = CHR ''#'' \<or> x = CHR '';''"

lemma c_string_None: "nul \<notin> set s \<Longrightarrow> c_string s = None"
  by (induction s) auto

lemma mask_nothing: "mask_sin a 0 = mask_sin b 0"
  by (simp add: mask_sin_def)

lemma firewall_iton_refuses:
  "n < 0 \<or> 32 < n \<Longrightarrow> firewall_iton nm AF_INET n = Some (-1, nm)"
  by (auto simp: firewall_iton_def)

lemma firewall_iton_zero: "firewall_iton nm AF_INET 0 = None"
  by (simp add: firewall_iton_def)

section \<open>A concrete file\<close>

definition demo_env :: conf_env where
  "demo_env = \<lparr>ce_malloc = \<lambda>_. True,
     ce_gai = \<lambda>a p. Some [\<lparr>ai_addr = SIN [10, 0, 0, 0] [0, 0], ai_socktype = 1, ai_protocol = 0\<rparr>]\<rparr>"

definition demo_doc :: "doc_line list" where
  "demo_doc = [Note [] ''# a remark'', Doc [] '' = '' [] (Access_log ''/a''), Doc [] ''='' [] (Error_log ''/e''),
     Doc [] '' = '' [] (Max_connections 7), Doc '' '' '' = '' [] (Allow_connect True),
     Doc [] '' = '' '' '' (Auth_method 0), Doc [] '' = '' [] (Listen ''0.0.0.0'' ''1080''),
     Note [] [], Doc [] ''='' [] (Block ''10.0.0.0'' 8)]"

lemma demo_doc_ok: "doc_ok demo_env demo_doc"
  by (simp add: doc_ok_def demo_doc_def demo_env_def word_ok_def addr_ok_def resolved_def val_end_def key_end_def
      flag_name_def method_name_def meth_consts decimal.simps of_char_of char_of_def)

lemma demo_env_ok: "\<forall>t. ce_malloc demo_env t" "gai_ok demo_env"
  by (simp_all add: demo_env_def gai_ok_def)

text \<open>A CONNECT request for an address.\<close>

definition new_request :: "sockaddr \<Rightarrow> Info" where
  "new_request sa = \<lparr>i_method = METH_NOAUTH, i_rep = 0xFF, i_cmd = CMD_CONN, i_atyp = ATYP_IPV4, i_resolver_ret = -1,
     i_ai_index = 0, i_ai = [], i_sa = Some sa\<rparr>"

section \<open>Accepted configurations\<close>

lemma accepted_configs_all:
  assumes "gai_ok env" and "parse_configs env input junk = Some (r, cf)"
  shows "configs_inv cf \<and> (r = 0 \<longrightarrow> listen_head cf \<noteq> [] \<and> 0 < max_conns cf \<and>
    (allow_connect cf \<or> allow_bind cf \<or> allow_udpassoc cf) \<and>
    (allow_bind cf \<longrightarrow> bind_advertise cf \<noteq> [] \<and> bind_listen cf \<noteq> []) \<and>
    (allow_udpassoc cf \<longrightarrow> udpa_advertise cf \<noteq> [] \<and> udpa_listen cf \<noteq> []) \<and>
    1 \<in> set (cf_methods cf))"
proof -
  have inv: "configs_inv cf"
    using assms parse_lines_keeps [OF assms(1), of "\<lparr>ps_configs = zero_configs, ps_allocs = 0\<rparr>"]
    by (auto simp: parse_configs_def configs_inv_zero wlp_iff Option.bind_eq_Some_conv split: option.splits if_splits)
  have verdict: "r = 0 \<Longrightarrow> conf_errors cf = []"
    using assms(2)
    by (auto simp: parse_configs_def conf_error_check_def Option.bind_eq_Some_conv split: option.splits if_splits)
  have "1 \<in> set ms" if "set ms \<subseteq> {0, 1 :: byte}" "(\<Sum>m \<leftarrow> ms. uint m) \<noteq> 0" for ms
    using that by (induction ms) auto
  then show ?thesis
    using inv verdict by (auto simp: conf_errors_def configs_inv_def split: if_splits)
qed

lemma accepted_configs:
  "gai_ok env \<Longrightarrow> parse_configs env input junk = Some (0, cf) \<Longrightarrow>
   configs_inv cf \<and> listen_head cf \<noteq> [] \<and> 1 \<in> set (cf_methods cf)"
  using accepted_configs_all by blast

section \<open>Properties\<close>

text \<open>
  C10: a configuration file is parsed to what it says. For every sequence of remarks and
  settings, printed with any layout the documentation allows, the parser returns the
  configuration with the settings applied in their order and the verdict of the check on it.
  In particular it ends, and none of its copies leaves a buffer.
\<close>

theorem config_roundtrip:
  assumes "\<forall>t. ce_malloc env t" and "doc_ok env doc" and "length junk = 255"
  shows "parse_configs env (Some (print_doc doc)) junk =
    Some (conf_error_check (meaning env doc zero_configs), meaning env doc zero_configs)"
  by (rule parse_print [OF assms])

lemma config_roundtrip_witness:
  "parse_configs demo_env (Some (print_doc demo_doc)) (replicate 255 nul) =
    Some (conf_error_check (meaning demo_env demo_doc zero_configs), meaning demo_env demo_doc zero_configs)"
  by (rule config_roundtrip [OF demo_env_ok(1) demo_doc_ok]) simp



text \<open>
  C24: the type of a configuration. Whatever the file holds, a configuration the parser returns
  has paths and methods of the right size, only flags for the three methods that exist, a
  limit in the range of \<^verbatim>\<open>int\<close>, and well-formed addresses; if the verdict is \<open>0\<close>, then the
  configuration is complete: an address to listen on, a command, addresses for BIND and UDP
  when they are allowed, and a method.
\<close>

theorem parse_configs_inv:
  assumes "gai_ok env" and "parse_configs env input junk = Some (r, cf)"
  shows "configs_inv cf \<and> (r = 0 \<longrightarrow> listen_head cf \<noteq> [] \<and> 0 < max_conns cf \<and>
    (allow_connect cf \<or> allow_bind cf \<or> allow_udpassoc cf) \<and>
    (allow_bind cf \<longrightarrow> bind_advertise cf \<noteq> [] \<and> bind_listen cf \<noteq> []) \<and>
    (allow_udpassoc cf \<longrightarrow> udpa_advertise cf \<noteq> [] \<and> udpa_listen cf \<noteq> []) \<and>
    1 \<in> set (cf_methods cf))"
  by (rule accepted_configs_all [OF assms])

lemma parse_configs_inv_witness:
  "let cf = meaning demo_env demo_doc zero_configs in
    configs_inv cf \<and> (conf_error_check cf = 0 \<longrightarrow> listen_head cf \<noteq> [] \<and> 0 < max_conns cf \<and>
    (allow_connect cf \<or> allow_bind cf \<or> allow_udpassoc cf) \<and>
    (allow_bind cf \<longrightarrow> bind_advertise cf \<noteq> [] \<and> bind_listen cf \<noteq> []) \<and>
    (allow_udpassoc cf \<longrightarrow> udpa_advertise cf \<noteq> [] \<and> udpa_listen cf \<noteq> []) \<and>
    1 \<in> set (cf_methods cf))"
  unfolding Let_def
  by (rule parse_configs_inv [OF demo_env_ok(2) parse_print [OF demo_env_ok(1) demo_doc_ok, of "replicate 255 nul"]]) simp

text \<open>
  C37: a prefix length outside the family's range is accepted and blocks every IPv4 address,
  because the result of \<^verbatim>\<open>firewall_iton\<close> is ignored and the netmask stays zero; the prefix
  length 0 makes the shift undefined.
\<close>

theorem bad_prefix_blocks_all:
  assumes "\<forall>t. ce_malloc env t" and "ai_addr ai = SIN net p"
  shows "link_blocks env (ai # ais) 0 head t = None \<and>
    (n < 0 \<or> 32 < n \<longrightarrow> (\<exists>b. link_blocks env (ai # ais) n head t = Some (0, b # head, t + 2) \<and>
      check_sin addr (b # head)))"
proof -
  have fam: "ai_family ai = AF_INET" using assms(2) by (simp add: ai_family_def)
  have "check_sin addr (\<lparr>b_netmask = netmask_zero, b_sa = masked netmask_zero (ai_addr ai)\<rparr> # head)"
    using mask_nothing [of addr net] by (simp add: assms(2) masked_def netmask_zero_def)
  then show ?thesis
    using assms(1) by (auto simp: link_blocks_def fam firewall_iton_zero firewall_iton_refuses)
qed

lemma bad_prefix_blocks_all_witness:
  "link_blocks demo_env (resolved demo_env ''10.0.0.0'' None) 0 [] 0 = None \<and>
    (\<exists>b. link_blocks demo_env (resolved demo_env ''10.0.0.0'' None) 33 [] 0 = Some (0, b # [], 0 + 2) \<and>
      check_sin [8, 8, 8, 8] (b # []))"
proof -
  let ?ai = "\<lparr>ai_addr = SIN [10, 0, 0, 0] [0, 0], ai_socktype = 1, ai_protocol = 0\<rparr>"
  have ai: "resolved demo_env ''10.0.0.0'' None = [?ai]"
    by (simp add: resolved_def demo_env_def)
  have "ai_addr ?ai = SIN [10, 0, 0, 0] [0, 0]" by simp
  from bad_prefix_blocks_all [OF demo_env_ok(1) this, of "[]" "[]" 0 33 "[8, 8, 8, 8]"]
  have "link_blocks demo_env [?ai] 0 [] 0 = None \<and>
    (\<exists>b. link_blocks demo_env [?ai] 33 [] 0 = Some (0, b # [], 0 + 2) \<and> check_sin [8, 8, 8, 8] (b # []))"
    by (simp del: check_sin.simps add.left_neutral add_0 add_2_eq_Suc)
  then show ?thesis unfolding ai .
qed

text \<open>
  C38: the bounds of the parser's buffers. A line whose key has 64 characters, and a \<^verbatim>\<open>listen\<close>
  value with an address of 39 or a port of 6 characters, makes the parser leave a buffer. (The
  shorter ones are parsed correctly, by the round trip.)
\<close>

theorem parser_overflows:
  assumes "length key = 64" and "\<forall>x \<in> set key. \<not> key_end x" and "\<not> line_comment_char (hd key)" and "key_end y"
    and "CHR ''_'' \<notin> set a" and "nul \<notin> set a" and "39 \<le> length a \<or> 6 \<le> length p"
  shows "parse_line env (key @ y # rest) st = None \<and>
    link_addr env (a @ CHR ''_'' # p @ nul # rest) (length a + 1 + length p) head t = None"
proof
  obtain x ks where key: "key = x # ks" using assms(1) by (cases key) auto
  have "get_key (key @ y # rest) (replicate 64 nul) 64 = None"
    unfolding get_key_def using assms(1,2,4) key by (intro copy_word_overflow) auto
  moreover have "skip_whitespace (key @ y # rest) = Some (key @ y # rest)"
    using assms(2) key by (auto simp: key_end_def)
  moreover have "line_comment (key @ y # rest) = Some False"
    using assms(3) key by (simp add: line_comment_char_def)
  ultimately show "parse_line env (key @ y # rest) st = None" by (simp add: parse_line_def)
next
  let ?m = "a @ CHR ''_'' # p @ nul # rest"
  have ind: "delim_ind CHR ''_'' ?m (length a + 1 + length p) = length a"
    using assms(5) by (intro delim_ind_found) simp_all
  have addr: "mem_read ?m 0 (length a) = Some a" by (simp add: mem_read_def)
  have port: "mem_read ?m (length a + 1) (length a + 1 + length p - length a) = Some (p @ [nul])"
    by (simp add: mem_read_def)
  consider "39 < length a" | "length a = 39" | "6 \<le> length p" using assms(7) by linarith
  then show "link_addr env ?m (length a + 1 + length p) head t = None"
  proof cases
    case 1
    then show ?thesis by (simp add: link_addr_def ind [simplified] addr memcpy_to_def)
  next
    case 2
    with assms(6) have "memcpy_to (replicate 39 nul) 0 a = Some a" "c_string a = None"
      by (simp_all add: memcpy_to_def c_string_None)
    then show ?thesis by (simp add: link_addr_def ind [simplified] addr)
  next
    case 3
    then have "memcpy_to (replicate 6 nul) 0 (p @ [nul]) = None" by (simp add: memcpy_to_def)
    then show ?thesis by (simp add: link_addr_def ind [simplified] addr port [simplified])
  qed
qed

lemma parser_overflows_witness:
  "parse_line demo_env (replicate 64 CHR ''k'' @ CHR ''='' # ''v'') \<lparr>ps_configs = zero_configs, ps_allocs = 0\<rparr> = None \<and>
   link_addr demo_env (''::'' @ CHR ''_'' # ''108000'' @ nul # ''v'') (length ''::'' + 1 + length ''108000'') [] 0 = None"
  by (rule parser_overflows) (simp_all add: key_end_def line_comment_char_def)

end
