(* ===== verification/Refusals.thy ===== *)
theory Refusals
  imports Handshake Config_Properties
begin

text \<open>
  The requests the server does not serve, from the bytes of the request to the bytes of the
  answer: blocked addresses, commands that are not enabled, unknown address types, methods that
  are not implemented, and names, which the code cannot handle.
\<close>

section \<open>A request on a negotiated connection\<close>

text \<open>
  A connection whose client has been told that it needs no authentication, in a system in which
  memory suffices and registrations can be changed.
\<close>

definition ready :: "os \<Rightarrow> Configs \<Rightarrow> conn \<Rightarrow> bool" where
  "ready e configs c \<longleftrightarrow> reachable configs c \<and> well_formed c \<and> v_state (view c) = STATE_WAITING_COMMAND \<and>
     v_in (view c) = [] \<and> env_ok e configs c \<and> (\<forall>k. os_malloc e k)"

lemma ready_conn:
  assumes "ready e configs c"
  shows "well_formed c" and "v_state (view c) = STATE_WAITING_COMMAND" and "phase (view c)" and "v_in (view c) = []"
    and "mod_ok e" and "\<not> allow_domains configs"
  using assms conn_inv_phase [OF reachable_inv] by (auto simp: ready_def env_ok_def)

lemma ready_phase:
  assumes "ready e configs c"
  shows "v_out (view c) = []" and "v_server (view c) = None" and "v_rep (view c) = 0xFF"
    and "i_resolver_ret (v_info (view c)) = -1"
proof -
  have "phase (view c)" using assms conn_inv_phase [OF reachable_inv] by (auto simp: ready_def)
  with assms show "v_out (view c) = []" "v_server (view c) = None" "v_rep (view c) = 0xFF"
    "i_resolver_ret (v_info (view c)) = -1" by (simp_all add: phase_def ready_def)
qed

lemma wp_run_ready:
  assumes r: "ready e configs c" and c': "well_formed c'" "view c' = parsed (after_recv (v_client (view c)) bs (view c))"
  shows "wp (run_command (deliver e bs) Client configs c')
    (ran configs (parsed (after_recv (v_client (view c)) bs (view c))))"
proof -
  have "v_client (view c') = v_client (view c)" "v_out (view c') = []"
    using ready_phase [OF r] by (simp_all add: c'(2) parsed_def)
  with wp_run_ran [OF c'(1) refl, of "deliver e bs" configs] r show ?thesis
    unfolding c'(2) [symmetric] by (simp add: ready_def env_ok_def OUTBUFFSIZE_def)
qed

lemma wp_step_request:
  assumes r: "ready e configs c" and sa: "inet sa"
    and Q: "\<And>c'. well_formed c' \<Longrightarrow> run_outcome configs (requested cmd sa (view c)) (view c') \<Longrightarrow> Q (0, c')"
  shows "wp (socks5 (deliver e (request_msg cmd sa)) Client EPOLLIN configs c) Q"
proof (rule wp_step_run [where cmd = cmd and sa = sa])
  show "wp (run_command (deliver e (request_msg cmd sa)) Client configs c') (\<lambda>(r, c). Q (word_of_int r, c))"
    if "well_formed c'" "view c' = requested cmd sa (view c)" for c'
    using wp_run_ready [OF r that(1) that(2) [unfolded requested_def]]
    by (rule wp_mono) (auto simp: ran_def intro: Q [unfolded requested_def])
qed (use r sa ready_conn [OF r] in \<open>auto simp: ready_def env_ok_def\<close>)

text \<open>The trace of a request that is only answered: what was received, log entries and the wake-up.\<close>

definition quiet :: "sys list \<Rightarrow> bool" where
  "quiet t \<longleftrightarrow> (\<forall>a \<in> set t. \<not> outbound a \<and> \<not> sends a)"

lemma quiet_simps [simp]:
  "quiet []" "quiet (a # t) \<longleftrightarrow> \<not> outbound a \<and> \<not> sends a \<and> quiet t" "quiet (t @ u) \<longleftrightarrow> quiet t \<and> quiet u"
  "quiet (waiting_send v)" "quiet (command_log cmd acc)"
  by (auto simp: quiet_def waiting_send_def command_log_def)

text \<open>The connection answered with the bytes \<open>bs\<close>, and nothing else done for its client.\<close>

definition answered :: "byte list \<Rightarrow> view \<Rightarrow> view \<Rightarrow> bool" where
  "answered bs v v' \<longleftrightarrow> v_state v' = STATE_SENDING_REPLY \<and> v_out v' = bs \<and> v_server v' = v_server v \<and>
     v_rep v' \<noteq> REP_SUCCESS \<and> (\<exists>t. v_trace v' = v_trace v @ t \<and> quiet t)"

section \<open>A concrete connection\<close>

lemma negotiated_conn:
  assumes cf: "configs_ok configs" "cf_methods configs ! 0 = 1" "\<not> allow_domains configs"
  shows "\<exists>c. ready (demo_os 6 []) configs c \<and> v_client (view c) = 5 \<and> v_info (view c) = new_info\<lparr>i_method := METH_NOAUTH\<rparr>"
proof -
  let ?e = "demo_os 6 []" and ?info = "new_info\<lparr>i_method := METH_NOAUTH\<rparr>"
  have later: "env_later e configs 5" if "e = ?e \<or> e = deliver ?e greeting" for e
    using that cf by (auto simp: env_later_def mod_ok_def os_ok_def demo_os_def deliver_def)
  have ok: "mod_ok ?e" "sends_all ?e" by (simp_all add: mod_ok_def sends_all_def demo_os_def)
  have reach: "reachable configs demo_conn" by (rule reachable.accept [OF demo_accept demo_accept_ok])
  have env: "env_ok (deliver ?e greeting) configs demo_conn"
  proof -
    have "deliver ?e greeting = demo_os 6 greeting" by (simp add: deliver_def demo_os_def)
    moreover have "0xFF \<notin> set (drop 2 greeting)" by (simp add: greeting_def METH_NOAUTH_def)
    ultimately show ?thesis
      using demo_env [of greeting] cf by (simp add: env_ok_def)
  qed
  have new: "v_out (view demo_conn) = []" "v_info (view demo_conn) = new_info" "v_server (view demo_conn) = None"
    using accept_new_client_result [OF demo_accept demo_accept_ok] by simp_all
  have sel: "select_method (cf_methods configs) [METH_NOAUTH] = Some METH_NOAUTH"
    using cf by (simp add: mem_get_def METH_NOAUTH_def configs_ok_def)
  have "wp (socks5 (deliver ?e greeting) Client EPOLLIN configs demo_conn) (\<lambda>(r, c). well_formed c \<and>
      v_state (view c) = STATE_SENDING_METHOD \<and> v_in (view c) = [] \<and> v_client (view c) = 5 \<and> v_info (view c) = ?info)"
    using new greeting_complete demo_state sel
    by (intro wp_step_methods [OF demo_wf demo_state(1) new(1) _ _ ok(1), where m = METH_NOAUTH])
      (auto simp: selected_def OUTBUFFSIZE_def)
  then obtain r1 c1 where step1: "socks5 (deliver ?e greeting) Client EPOLLIN configs demo_conn = Some (r1, c1)"
    and c1: "well_formed c1" "v_state (view c1) = STATE_SENDING_METHOD" "v_in (view c1) = []" "v_client (view c1) = 5"
      "v_info (view c1) = ?info" unfolding wp_iff by auto
  have r1: "reachable configs c1"
    by (rule reachable.event [OF reach socks5_data [OF step1] _ step1]) (simp add: env)
  have "wp (socks5 ?e Client EPOLLOUT configs c1) (\<lambda>(r, c). well_formed c \<and>
      v_state (view c) = STATE_WAITING_COMMAND \<and> v_in (view c) = [] \<and> v_client (view c) = 5 \<and> v_info (view c) = ?info)"
    using c1 by (intro wp_step_method_sent [OF c1(1,2) _ ok(2,1)])
      (auto simp: negotiation_done_def flushed_def after_send_def done_sending_def Let_def)
  then obtain r2 c2 where step2: "socks5 ?e Client EPOLLOUT configs c1 = Some (r2, c2)"
    and c2: "well_formed c2" "v_state (view c2) = STATE_WAITING_COMMAND" "v_in (view c2) = []" "v_client (view c2) = 5"
      "v_info (view c2) = ?info" unfolding wp_iff by auto
  have "env_ok ?e configs c1" using later [of ?e] c1 by (intro env_later_ok) simp_all
  then have "reachable configs c2"
    by (intro reachable.event [OF r1 socks5_data [OF step2] _ step2]) simp
  moreover have "env_ok ?e configs c2" using later [of ?e] c2 by (intro env_later_ok) simp_all
  ultimately show ?thesis using c2 by (auto simp: ready_def demo_os_def)
qed

lemma demo_ready: "\<exists>c. ready (demo_os 6 []) demo_configs c"
  using negotiated_conn [of demo_configs] by (auto simp: demo_configs_def configs_ok_def)

section \<open>The filter on a request\<close>

lemma filter_request:
  assumes "inet sa" and "v_in v = []"
  shows "firewall (v_info (requested cmd sa v)) configs \<Longrightarrow> \<exists>b \<in> set (block_head configs). matches b sa"
    and "\<exists>b \<in> set (block_head configs). matches b sa \<Longrightarrow> cmd \<noteq> CMD_UDPA \<Longrightarrow>
      firewall (v_info (requested cmd sa v)) configs"
proof -
  let ?info = "v_info (requested cmd sa v)"
  note info = requested_info [OF assms(2,1), of cmd]
  have fw: "firewall ?info configs \<longleftrightarrow> (\<exists>b \<in> set (block_head configs). matches b sa)" if "\<not> udpa_unspec ?info"
    using assms(1) info(2) that by (intro firewall_sa) (auto simp: inet_def)
  moreover have "\<not> udpa_unspec ?info" if "firewall ?info configs"
    using that by (cases "udpa_unspec ?info") (simp_all add: firewall_def)
  ultimately show "firewall ?info configs \<Longrightarrow> \<exists>b \<in> set (block_head configs). matches b sa" by blast
  show "firewall ?info configs" if "\<exists>b \<in> set (block_head configs). matches b sa" "cmd \<noteq> CMD_UDPA"
    using fw that info(1) by (simp add: udpa_unspec_def)
qed

lemma blocked_request:
  assumes r: "ready e configs c" and sa: "inet sa" and cmd: "cmd \<noteq> CMD_UDPA"
    and blocked: "\<exists>b \<in> set (block_head configs). matches b sa"
  shows "wp (socks5 (deliver e (request_msg cmd sa)) Client EPOLLIN configs c)
    (\<lambda>(r, c'). r = 0 \<and> well_formed c' \<and> answered (err_reply REP_RULESET) (view c) (view c'))"
proof (rule wp_step_request [OF r sa])
  fix c'
  assume c': "well_formed c'" "run_outcome configs (requested cmd sa (view c)) (view c')"
  have "v_in (view c) = []" using r by (simp add: ready_def)
  from filter_request(2) [OF sa this blocked cmd] c'(2) ready_phase [OF r]
  have "answered (err_reply REP_RULESET) (view c) (view c')"
    by (simp add: run_outcome_def answered_def requested_trace rep_consts fix_rep_def)
  with c'(1) show "case (0, c') of (r, c') \<Rightarrow> r = 0 \<and> well_formed c' \<and> answered (err_reply REP_RULESET) (view c) (view c')"
    by simp
qed

section \<open>Names\<close>

text \<open>A request by name: the length, the name and the port follow the type.\<close>

definition name_request :: "byte \<Rightarrow> byte list \<Rightarrow> byte list \<Rightarrow> byte list" where
  "name_request cmd name port =
    [SOCKS5_VERSION, cmd, SOCKS5_RESV, ATYP_DOMN, of_nat (length name)] @ name @ port"

lemma resolve_undefined: "resolve e input c = None"
  by (cases "set_state STATE_ASYNC_DNS c") (simp_all add: resolve_def resolve_msg_overflows)

lemma name_request_undefined:
  assumes wf: "well_formed c" and d: "d = Client" and dom: "allow_domains configs"
    and q: "v_in (view c) = name_request cmd name port" and name: "length name \<le> 255" "length port = 2"
  shows "read_request e d configs c = None"
proof -
  let ?q = "name_request cmd name port"
  have l: "length ?q = 7 + length name" using name by (simp add: name_request_def)
  have copy: "zero_filled 300 (take 300 ?q) ! i = ?q ! i" if "i < 5" for i
    by (rule request_copy [of 5]) (use l that in simp_all)
  have n: "unat (of_nat (length name) :: byte) = length name"
    using name(1) by (simp add: unat_of_nat take_bit_nat_eq_self)
  have bytes: "?q ! 0 = SOCKS5_VERSION" "?q ! 3 = ATYP_DOMN" "?q ! 4 = of_nat (length name)"
    by (simp_all add: name_request_def)
  have types: "ATYP_DOMN \<noteq> ATYP_IPV4" by (simp add: socks_consts)
  have len: "request_len configs (zero_filled 300 (take 300 ?q)) = Some (6 + length name)"
    using dom types by (simp add: request_len_def Let_def copy bytes n)
  obtain c1 where 1: "upd_info (\<lambda>info. info\<lparr>i_cmd := ?q ! 1, i_atyp := ATYP_DOMN\<rparr>) c = Some c1" "well_formed c1"
    using wp_upd_info [OF wf, of _ "\<lambda>c1. well_formed c1"] unfolding wp_iff by blast
  have "handle_request e d configs (zero_filled 300 (take 300 ?q)) c = None"
    using 1 types
    by (cases "set_state STATE_ASYNC_DNS c1")
      (simp_all add: handle_request_def Let_def copy bytes vercheck_def resolve_undefined)
  with wf d len l q name(1) show ?thesis
    by (auto simp: read_request_def peek_server_out_view Let_def)
qed

lemma name_request_step:
  assumes wf: "well_formed c" and st: "v_state (view c) = STATE_WAITING_COMMAND" and inq: "v_in (view c) = []"
    and res: "i_resolver_ret (v_info (view c)) = -1" and dom: "allow_domains configs"
    and name: "length name \<le> 255" "length port = 2"
  shows "socks5 (deliver e (name_request cmd name port)) Client EPOLLIN configs c = None"
proof -
  let ?q = "name_request cmd name port" and ?e = "deliver e (name_request cmd name port)"
  have rec: "received ?e (v_client (view c)) (view c) = Some ?q" and ne: "?q \<noteq> []"
    using inq name by (auto simp: name_request_def OUTBUFFSIZE_def intro!: received_deliver)
  have side: "side_fd Client (view c) = Some (v_client (view c))" by simp
  have "wp (recv_handshake ?e Client c) (\<lambda>(go, c'). go \<and> well_formed c' \<and> v_in (view c') = ?q)"
    by (rule wp_recv_handshake [OF wf side]) (use rec ne inq in auto)
  then obtain c1 where 1: "recv_handshake ?e Client c = Some (True, c1)" "well_formed c1" "v_in (view c1) = ?q"
    unfolding wp_iff by auto
  have "\<not> not_for EPOLLIN EPOLLIN (peer (v_client (view c))) (v_client (view c))" by (simp add: not_for_def)
  with wf res 1 name_request_undefined [OF 1(2) refl dom 1(3) name] have "waitingcommand ?e Client configs EPOLLIN c = None"
    by (simp add: waitingcommand_def wf_simps)
  then show ?thesis by (simp add: socks5_by_state(3) [OF wf side st])
qed

section \<open>Methods that are not implemented\<close>

text \<open>The first message of a client that offers the methods \<open>ms\<close>.\<close>

definition hello :: "byte list \<Rightarrow> byte list" where
  "hello ms = SOCKS5_VERSION # of_nat (length ms) # ms"

lemma hello_complete:
  assumes "length ms \<le> 255"
  shows "methods_complete (hello ms)" and "offered (hello ms) = ms" and "hello ms ! 0 = SOCKS5_VERSION"
    and "hello ms \<noteq> []" and "length (hello ms) = length ms + 2"
proof -
  have "unat (of_nat (length ms) :: byte) = length ms"
    using assms by (simp add: unat_of_nat take_bit_nat_eq_self)
  then show "methods_complete (hello ms)" "offered (hello ms) = ms" "hello ms ! 0 = SOCKS5_VERSION" "hello ms \<noteq> []"
    "length (hello ms) = length ms + 2"
    by (simp_all add: hello_def methods_complete_def offered_def)
qed

lemma select_other:
  assumes "length allowed = 255" and "0xFF \<notin> set ms" and "METH_NOAUTH \<notin> set ms \<or> allowed ! 0 \<noteq> 1"
  shows "\<exists>m. select_method allowed ms = Some m \<and> m \<noteq> METH_NOAUTH"
  using assms unfolding select_method_find [OF assms(1,2)]
  by (auto simp: METH_NOAUTH_def find_Some_iff dest: nth_mem split: option.split)

lemma wp_step_method_refused:
  assumes wf: "well_formed c" and st: "v_state (view c) = STATE_SENDING_METHOD"
    and meth: "i_method (v_info (view c)) \<noteq> METH_NOAUTH" and os: "sends_all e" "mod_ok e"
    and Q: "\<And>c'. released Client (view c) c' \<Longrightarrow> Q (0, c')"
  shows "wp (socks5 e Client EPOLLOUT configs c) Q"
proof -
  have "wp (sendingmethod e Client EPOLLOUT c) (\<lambda>c. Q (0, c))"
    using wf
  proof (rule wp_sendingmethod)
    show "Q (0, c')" if "sendmethod_outcome e Client EPOLLOUT (view c) c'" for c'
      using that meth unsent_not [OF os, of 2] by (auto simp: sendmethod_outcome_def intro!: Q)
  qed simp
  then show ?thesis by (simp add: socks5_by_state(2) [OF wf _ st, of Client])
qed

lemma no_bypass:
  assumes wf: "well_formed c" and ph: "phase (view c)" and st: "v_state (view c) = STATE_WAITING_METHODS"
    and inq: "v_in (view c) = []" and cf: "length (cf_methods configs) = 255" and os: "sends_all e" "mod_ok e"
    and ms: "length ms \<le> 255" "0xFF \<notin> set ms" "METH_NOAUTH \<notin> set ms \<or> cf_methods configs ! 0 \<noteq> 1"
  shows "wp (drive configs [(deliver e (hello ms), Client, EPOLLIN), (e, Client, EPOLLOUT)] c) gone"
proof -
  note msg = hello_complete [OF ms(1)]
  from select_other [OF cf ms(2,3)] obtain m where m: "select_method (cf_methods configs) ms = Some m" "m \<noteq> METH_NOAUTH"
    by blast
  from ph st have new: "v_out (view c) = []" "v_server (view c) = None" by (simp_all add: phase_def)
  have close: "wp (drive configs [(e, Client, EPOLLOUT)] c1) gone"
    if "well_formed c1" "view c1 = selected m Client (after_recv (v_client (view c)) (hello ms) (view c))" for c1
    unfolding wp_drive
    by (rule wp_step_method_refused [OF that(1) _ _ os])
      (use that(2) m(2) new in \<open>simp_all add: selected_def released_def\<close>)
  show ?thesis
    unfolding wp_drive [of _ "deliver e (hello ms)"]
  proof (rule wp_step_methods [OF wf st new(1) msg(4) _ os(2), where m = m], safe)
    show "length (v_in (view c)) + length (hello ms) \<le> OUTBUFFSIZE"
      using inq msg(5) ms(1) by (simp add: OUTBUFFSIZE_def)
    show "wp (drive configs [(e, Client, EPOLLOUT)] c1) gone"
      if "well_formed c1" "view c1 = selected m Client (after_recv (v_client (view c)) (hello ms) (view c))" for c1
      using that by (rule close)
  qed (use inq msg m in simp_all)
qed

section \<open>Properties\<close>



text \<open>
  C30: a command that is not enabled is never run, but its client is sent the error reply twice: once by
  \<^verbatim>\<open>init_command\<close> and once by its caller.
\<close>

theorem disabled_command_replied_twice:
  assumes r: "ready e configs c" and sa: "inet sa" and "\<not> command_enabled configs cmd"
    and free: "\<forall>b \<in> set (block_head configs). \<not> matches b sa"
  shows "\<exists>c'. socks5 (deliver e (request_msg cmd sa)) Client EPOLLIN configs c = Some (0, c') \<and> well_formed c' \<and>
    answered (err_reply REP_BADCOMM @ err_reply REP_BADCOMM) (view c) (view c')"
proof -
  have inq: "v_in (view c) = []" using r by (simp add: ready_def)
  have fw: "\<not> firewall (v_info (requested cmd sa (view c))) configs"
    using filter_request(1) [OF sa inq] free by blast
  have "wp (socks5 (deliver e (request_msg cmd sa)) Client EPOLLIN configs c) (\<lambda>(r, c'). r = 0 \<and> well_formed c' \<and>
      answered (err_reply REP_BADCOMM @ err_reply REP_BADCOMM) (view c) (view c'))"
  proof (rule wp_step_request [OF r sa])
    show "case (0, c') of (r, c') \<Rightarrow> r = 0 \<and> well_formed c' \<and>
        answered (err_reply REP_BADCOMM @ err_reply REP_BADCOMM) (view c) (view c')"
      if "well_formed c'" "run_outcome configs (requested cmd sa (view c)) (view c')" for c'
      using that fw assms(3) ready_phase [OF r] requested_info(1) [OF inq sa]
      by (simp add: run_outcome_def answered_def requested_trace rep_consts fix_rep_def)
  qed
  then show ?thesis unfolding wp_iff by auto
qed

lemma disabled_command_replied_twice_witness:
  "\<exists>c c'. socks5 (deliver (demo_os 6 []) (request_msg 0x7F demo_sa)) Client EPOLLIN demo_configs c = Some (0, c') \<and>
    well_formed c' \<and> answered (err_reply REP_BADCOMM @ err_reply REP_BADCOMM) (view c) (view c')"
proof -
  obtain c where c: "ready (demo_os 6 []) demo_configs c" using demo_ready by blast
  have "inet demo_sa" using demo_session by (simp add: inet_def)
  moreover have "\<not> command_enabled demo_configs 0x7F" by (simp add: command_enabled_def socks_consts)
  moreover have "\<forall>b \<in> set (block_head demo_configs). \<not> matches b demo_sa" by (simp add: demo_configs_def)
  ultimately show ?thesis using disabled_command_replied_twice [OF c] by blast
qed

text \<open>
  C29: a request with an address type other than IPv4 and IPv6 (names included, when they are not
  allowed) is answered with the address type error, whatever follows the type.
\<close>

theorem unknown_address_type:
  assumes r: "ready e configs c" and len: "5 \<le> length bs" "length bs \<le> OUTBUFFSIZE"
    and ty: "bs ! 3 \<noteq> ATYP_IPV4" "bs ! 3 \<noteq> ATYP_IPV6"
  shows "\<exists>c'. socks5 (deliver e bs) Client EPOLLIN configs c = Some (0, c') \<and> well_formed c' \<and>
    answered (err_reply REP_BADATYP) (view c) (view c')"
proof -
  let ?w = "after_recv (v_client (view c)) bs (view c)"
  have q: "v_in (view c) = []" and dom: "\<not> allow_domains configs" using r by (simp_all add: ready_def env_ok_def)
  then have none: "request_len configs (v_in ?w) = None" using ty by (simp add: request_len_def Let_def)
  have "wp (socks5 (deliver e bs) Client EPOLLIN configs c) (\<lambda>(r, c'). r = 0 \<and> well_formed c' \<and>
      answered (err_reply REP_BADATYP) (view c) (view c'))"
  proof (rule wp_step_waitcommand [OF ready_conn [OF r], where R = "ran configs"])
    show "case (word_of_int (fst r), snd r) of (r, c') \<Rightarrow> r = 0 \<and> well_formed c' \<and>
        answered (err_reply REP_BADATYP) (view c) (view c')"
      if "request_outcome (deliver e bs) configs (ran configs) ?w r" for r
      using that none len q ready_phase [OF r]
      by (simp add: request_outcome_def answered_def after_recv_def rep_consts fix_rep_def)
  qed (use len wp_run_ready [OF r] in auto)
  then show ?thesis unfolding wp_iff by auto
qed

lemma unknown_address_type_witness:
  "\<exists>c c'. socks5 (deliver (demo_os 6 []) [5, 1, 0, 3, 1, 0x61, 0, 80]) Client EPOLLIN demo_configs c = Some (0, c') \<and>
    well_formed c' \<and> answered (err_reply REP_BADATYP) (view c) (view c')"
proof -
  obtain c where c: "ready (demo_os 6 []) demo_configs c" using demo_ready by blast
  show ?thesis
    using unknown_address_type [OF c, of "[5, 1, 0, 3, 1, 0x61, 0, 80]"] by (auto simp: socks_consts OUTBUFFSIZE_def)
qed





text \<open>
  Resolved names are not filtered. What is done with the answer of the resolver does not depend
  on the block list: the addresses of a name are connected to, or listened for, even if every one
  of them is blocked.
\<close>

lemma resolved_names_unfiltered:
  "resolver_returned e d (configs\<lparr>block_head := bs\<rparr>) c = resolver_returned e d configs c"
proof -
  let ?cf = "configs\<lparr>block_head := bs\<rparr>"
  have same: "bind_listen ?cf = bind_listen configs" "bind_advertise ?cf = bind_advertise configs"
    "udpa_listen ?cf = udpa_listen configs" "udpa_advertise ?cf = udpa_advertise configs"
    "allow_connect ?cf = allow_connect configs" "allow_bind ?cf = allow_bind configs"
    "allow_udpassoc ?cf = allow_udpassoc configs" by simp_all
  show ?thesis unfolding resolver_returned_def init_command_def init_bind_def init_udpa_def same by (rule refl)
qed

end
