(* ===== verification/Relay_Properties.thy ===== *)
theory Relay_Properties
  imports Refusals "HOL-Library.Sublist"
begin

text \<open>
  The relay of an established connection over any series of events: what the two sides are sent,
  compared with what the other side wrote.
\<close>

section \<open>One event\<close>

lemma wp_step_full:
  assumes wf: "well_formed c" and st: "v_state (view c) = STATE_FULL" and ok: "mod_ok e"
    and d: "side_fd d (view c) = Some fd" "side_fd (other d) (view c) = Some pfd"
    and Q: "\<And>c'. well_formed c' \<Longrightarrow> view c' = relay_step e d fd pfd ev (view c) \<Longrightarrow> Q (0, c')"
  shows "wp (socks5 e d ev configs c) Q"
proof -
  have "wp (full e d ev c) (\<lambda>c. Q (0, c))" by (rule wp_full [OF wf d ok]) (rule Q)
  then show ?thesis by (simp add: socks5_by_state(6) [OF wf d(1) st])
qed

text \<open>The chunks a trace has received from a descriptor.\<close>

fun chunk_of :: "fd \<Rightarrow> sys \<Rightarrow> byte list list" where
  "chunk_of fd (Sys_recv f n (Some bs)) = (if f = fd then [bs] else [])"
| "chunk_of fd a = []"

definition chunks :: "fd \<Rightarrow> sys list \<Rightarrow> byte list list" where
  "chunks fd t = concat (map (chunk_of fd) t)"

lemma chunks_simps [simp]:
  "chunks fd [] = []" "chunks fd (a # t) = chunk_of fd a @ chunks fd t" "chunks fd (t @ u) = chunks fd t @ chunks fd u"
  "chunks fd (done_sending f d) = []" "chunks fd (waiting_peer f d) = []" "sent_bytes fd (waiting_peer f d) = []"
  by (simp_all add: chunks_def done_sending_def waiting_peer_def)

text \<open>
  A direction of the relay: what was sent, followed by what is still queued, is what was queued,
  followed by some of the chunks that arrived, whole and in their order.
\<close>

definition moved :: "fd \<Rightarrow> fd \<Rightarrow> byte list \<Rightarrow> sys list \<Rightarrow> byte list \<Rightarrow> bool" where
  "moved src dst q t q' \<longleftrightarrow> (\<exists>ys. subseq ys (chunks src t) \<and> sent_bytes dst t @ q' = q @ concat ys)"

lemma movedI: "subseq ys (chunks src t) \<Longrightarrow> sent_bytes dst t @ q' = q @ concat ys \<Longrightarrow> moved src dst q t q'"
  by (auto simp: moved_def)

lemma moved_none: "chunks src t = [] \<Longrightarrow> sent_bytes dst t = [] \<Longrightarrow> moved src dst q t q"
  by (rule movedI [of "[]"]) simp_all

lemma moved_append: "moved src dst q t q' \<Longrightarrow> moved src dst q' u q'' \<Longrightarrow> moved src dst q (t @ u) q''"
proof -
  assume "moved src dst q t q'" and "moved src dst q' u q''"
  then obtain ys zs where ys: "subseq ys (chunks src t)" "sent_bytes dst t @ q' = q @ concat ys"
    and zs: "subseq zs (chunks src u)" "sent_bytes dst u @ q'' = q' @ concat zs" by (auto simp: moved_def)
  have "sent_bytes dst (t @ u) @ q'' = (sent_bytes dst t @ q') @ concat zs" using zs(2) by simp
  then have "sent_bytes dst (t @ u) @ q'' = q @ concat (ys @ zs)" using ys(2) by simp
  moreover have "subseq (ys @ zs) (chunks src (t @ u))" using ys(1) zs(1) by (simp add: list_emb_append_mono)
  ultimately show ?thesis by (intro movedI)
qed

definition relayed :: "fd \<Rightarrow> fd \<Rightarrow> view \<Rightarrow> view \<Rightarrow> bool" where
  "relayed cfd sfd v v' \<longleftrightarrow> (\<exists>t. v_trace v' = v_trace v @ t \<and>
     moved cfd sfd (v_in v) t (v_in v') \<and> moved sfd cfd (v_out v) t (v_out v'))"

lemma relayed_trans: "relayed cfd sfd u v \<Longrightarrow> relayed cfd sfd v w \<Longrightarrow> relayed cfd sfd u w"
  unfolding relayed_def by (auto intro: moved_append)

lemma relayed_refl: "v_trace v' = v_trace v \<Longrightarrow> v_in v' = v_in v \<Longrightarrow> v_out v' = v_out v \<Longrightarrow> relayed cfd sfd v v'"
  by (auto simp: relayed_def intro!: moved_none)

lemma moved_sent: "k \<le> length q \<Longrightarrow> sent_bytes dst t = take k q \<Longrightarrow> chunks src t = [] \<Longrightarrow> moved src dst q t (drop k q)"
  by (rule movedI [of "[]"]) simp_all

lemma moved_enqueue: "chunks src t = [bs] \<Longrightarrow> sent_bytes dst t = [] \<Longrightarrow> moved src dst q t (enqueue q bs)"
  by (cases "length q + length bs \<le> OUTBUFFSIZE")
    (auto simp: enqueue_def intro: movedI [of "[bs]"] movedI [of "[]"])

text \<open>The descriptor of a side.\<close>

definition endpoint :: "fd \<Rightarrow> fd \<Rightarrow> side \<Rightarrow> fd" where
  "endpoint cfd sfd d = (case d of Client \<Rightarrow> cfd | Server \<Rightarrow> sfd)"

lemma endpoint_simps [simp]: "endpoint cfd sfd Client = cfd" "endpoint cfd sfd Server = sfd"
  by (simp_all add: endpoint_def)

lemma endpoint_eq: "cfd \<noteq> sfd \<Longrightarrow> endpoint cfd sfd x = endpoint cfd sfd y \<longleftrightarrow> x = y"
  by (cases x; cases y) simp_all

lemma relayedI:
  assumes "v_trace v' = v_trace v @ t"
    and "\<And>x. moved (endpoint cfd sfd (other x)) (endpoint cfd sfd x) (queue x v) t (queue x v')"
  shows "relayed cfd sfd v v'"
  using assms(1) assms(2) [of Client] assms(2) [of Server] by (auto simp: relayed_def)

lemma queue_other_side: "x \<noteq> d \<Longrightarrow> queue x (with_queue d q v) = queue x v"
  by (cases x; cases d) simp_all

lemma queue_fields [simp]:
  "queue x (v\<lparr>v_trace := t\<rparr>) = queue x v" "queue x (v\<lparr>v_state := s\<rparr>) = queue x v"
  "queue x (flagged d f v) = queue x v"
  by (cases x; simp)+

lemma relay_send_relayed:
  assumes ne: "cfd \<noteq> sfd"
  shows "relayed cfd sfd v (relay_send e d (endpoint cfd sfd d) v)"
proof (cases "os_send e (length (v_trace v)) (endpoint cfd sfd d)")
  case None
  then show ?thesis
    by (intro relayedI [where t = "[Sys_send (endpoint cfd sfd d) (queue d v) None, Sys_shutdown (endpoint cfd sfd d) True]"])
      (simp_all add: relay_send_def moved_none)
next
  case (Some n)
  define k where "k = min (length (queue d v)) n"
  define t where "t = Sys_send (endpoint cfd sfd d) (queue d v) (Some k) #
    (if k = length (queue d v) then done_sending (endpoint cfd sfd d) d else [])"
  have step: "relay_send e d (endpoint cfd sfd d) v = (with_queue d (drop k (queue d v)) v)\<lparr>v_trace := v_trace v @ t\<rparr>"
    using Some by (simp add: relay_send_def k_def t_def Let_def)
  have sent: "sent_bytes f t = (if f = endpoint cfd sfd d then take k (queue d v) else [])" "chunks f t = []" for f
    by (simp_all add: t_def)
  have k: "k \<le> length (queue d v)" by (simp add: k_def)
  show ?thesis
  proof (rule relayedI)
    show "v_trace (relay_send e d (endpoint cfd sfd d) v) = v_trace v @ t" by (simp add: step)
    show "moved (endpoint cfd sfd (other x)) (endpoint cfd sfd x) (queue x v) t
        (queue x (relay_send e d (endpoint cfd sfd d) v))" for x
    proof (cases "x = d")
      case True
      show ?thesis unfolding step True queue_fields queue_with_queue by (rule moved_sent [OF k]) (simp_all add: sent)
    next
      case False
      with ne show ?thesis by (simp add: step queue_other_side moved_none sent endpoint_eq)
    qed
  qed
qed

lemma relay_recv_relayed:
  assumes ne: "cfd \<noteq> sfd"
  shows "relayed cfd sfd v (relay_recv e d (endpoint cfd sfd d) pfd v)"
proof -
  define r where "r = map_option (take RELAY_CHUNK) (os_recv e (length (v_trace v)) (endpoint cfd sfd d))"
  consider (closed) "r = None \<or> r = Some []" | (data) bs where "r = Some bs" "bs \<noteq> []" by (cases r) auto
  then show ?thesis
  proof cases
    case closed
    define t where "t = [Sys_recv (endpoint cfd sfd d) RELAY_CHUNK r, Sys_shutdown (endpoint cfd sfd d) False] @
      waiting_peer pfd (other d)"
    have step: "relay_recv e d (endpoint cfd sfd d) pfd v = (flagged (other d) FLAG_FLUSHING (flagged d FLAG_READ_CLOSED v))
        \<lparr>v_state := STATE_HALF_CLOSE, v_trace := v_trace v @ t\<rparr>"
      using closed by (simp add: relay_recv_def Let_def t_def flip: r_def)
    have "moved src dst q t q" for src dst q
      using closed by (intro movedI [of "[]"]) (auto simp: t_def)
    then show ?thesis by (intro relayedI [where t = t]) (simp_all add: step)
  next
    case data
    define t where "t = Sys_recv (endpoint cfd sfd d) RELAY_CHUNK r # waiting_peer pfd (other d)"
    have step: "relay_recv e d (endpoint cfd sfd d) pfd v =
        (with_queue (other d) (enqueue (queue (other d) v) bs) v)\<lparr>v_trace := v_trace v @ t\<rparr>"
      using data by (simp add: relay_recv_def Let_def t_def flip: r_def)
    have got: "chunks f t = (if f = endpoint cfd sfd d then [bs] else [])" "sent_bytes f t = []" for f
      using data by (simp_all add: t_def)
    show ?thesis
    proof (rule relayedI)
      show "v_trace (relay_recv e d (endpoint cfd sfd d) pfd v) = v_trace v @ t" by (simp add: step)
      show "moved (endpoint cfd sfd (other x)) (endpoint cfd sfd x) (queue x v) t
          (queue x (relay_recv e d (endpoint cfd sfd d) pfd v))" for x
      proof (cases "x = other d")
        case True
        show ?thesis unfolding step True queue_fields queue_with_queue by (rule moved_enqueue) (simp_all add: got)
      next
        case False
        then have "other x \<noteq> d" by auto
        with ne False show ?thesis by (simp add: step queue_other_side moved_none got endpoint_eq)
      qed
    qed
  qed
qed

text \<open>The states from the relay to the end of a connection.\<close>

definition relaying :: "fd \<Rightarrow> fd \<Rightarrow> view \<Rightarrow> bool" where
  "relaying cfd sfd v \<longleftrightarrow> v_state v \<in> {STATE_FULL, STATE_HALF_CLOSE, STATE_CLOSED} \<and>
     v_client v = cfd \<and> v_server v = Some sfd"

lemma relay_event:
  assumes wf: "well_formed c" and rel: "relaying cfd sfd (view c)" and ok: "mod_ok e"
  shows "wp (socks5 e d ev configs c) (\<lambda>(r, c'). well_formed c' \<longrightarrow>
    relaying cfd sfd (view c') \<and> relayed cfd sfd (view c) (view c'))"
proof -
  define fd where "fd = endpoint cfd sfd d"
  define pfd where "pfd = endpoint cfd sfd (other d)"
  have d: "side_fd d (view c) = Some fd" "side_fd (other d) (view c) = Some pfd"
    using rel by (cases d; simp add: relaying_def fd_def pfd_def)+
  have ne: "cfd \<noteq> sfd" using wf_server_ne [OF wf] rel by (auto simp: relaying_def)
  consider (full) "v_state (view c) = STATE_FULL" | (half) "v_state (view c) = STATE_HALF_CLOSE"
    | (closed) "v_state (view c) = STATE_CLOSED" using rel by (auto simp: relaying_def)
  then show ?thesis
  proof cases
    case full
    show ?thesis
    proof (rule wp_step_full [OF wf full ok d])
      fix c'
      assume v: "view c' = relay_step e d fd pfd ev (view c)"
      have "v_state (view c') \<in> {STATE_FULL, STATE_HALF_CLOSE}"
        using full by (auto simp: v relay_step_def relay_send_def relay_recv_def Let_def split: option.split)
      moreover have "relayed cfd sfd (view c) (view c')"
        using relay_send_relayed [OF ne] relay_recv_relayed [OF ne]
        by (auto simp: v relay_step_def fd_def intro!: relayed_refl)
      moreover have "v_client (view c') = cfd" "v_server (view c') = Some sfd"
        using rel by (simp_all add: v relaying_def)
      ultimately show "case (0, c') of (r, c') \<Rightarrow> well_formed c' \<longrightarrow>
          relaying cfd sfd (view c') \<and> relayed cfd sfd (view c) (view c')"
        by (auto simp: relaying_def)
    qed
  next
    case half
    then show ?thesis
      using wf rel d by (auto simp: socks5_by_state(7) [OF wf d(1) half] half_close_def relaying_def
          intro!: wp_set_state relayed_refl)
  next
    case closed
    have "wp (closed e d c) (\<lambda>c'. \<not> well_formed c')"
      by (rule wp_mono [OF wp_closed [OF wf d(1) closed]]) (auto dest: not_wf_released)
    then show ?thesis by (auto simp: socks5_by_state(8) [OF wf d(1) closed] elim!: wp_mono)
  qed
qed

section \<open>A series of events\<close>

lemma drive_not_wf:
  "conn_inv c \<Longrightarrow> \<not> well_formed c \<Longrightarrow> drive configs evs c = Some c' \<Longrightarrow> \<not> well_formed c'"
proof (induction evs arbitrary: c)
  case (Cons x evs)
  obtain e d ev where x: "x = (e, d, ev)" by (cases x)
  from Cons.prems(3) obtain r c1 where step: "socks5 e d ev configs c = Some (r, c1)"
    and rest: "drive configs evs c1 = Some c'" by (auto simp: x Option.bind_eq_Some_conv)
  have "gone c1" using live_step [OF Cons.prems(1) socks5_data [OF step] _ step] Cons.prems(2) by simp
  then have "conn_inv c1" "\<not> well_formed c1" by (auto simp: conn_inv_def dest: not_wf_gone)
  from Cons.IH [OF this rest] show ?case .
qed simp

lemma drive_relayed:
  assumes "reachable configs c" and "well_formed c" and "relaying cfd sfd (view c)"
    and "\<forall>(e, d, ev) \<in> set evs. env_later e configs cfd" and "drive configs evs c = Some c'" and "well_formed c'"
  shows "relaying cfd sfd (view c') \<and> relayed cfd sfd (view c) (view c')"
  using assms(1-5)
proof (induction evs arbitrary: c)
  case Nil
  with assms(6) show ?case by (auto intro: relayed_refl)
next
  case (Cons x evs)
  obtain e d ev where x: "x = (e, d, ev)" by (cases x)
  from Cons.prems(5) obtain r c1 where step: "socks5 e d ev configs c = Some (r, c1)"
    and rest: "drive configs evs c1 = Some c'" by (auto simp: x Option.bind_eq_Some_conv)
  have later: "env_later e configs cfd" using Cons.prems(4) by (simp add: x)
  then have env: "env_ok e configs c"
    using Cons.prems(3) by (intro env_later_ok) (auto simp: relaying_def)
  have r1: "reachable configs c1"
    by (rule reachable.event [OF Cons.prems(1) socks5_data [OF step] _ step]) (rule impI, rule env)
  have wf1: "well_formed c1"
    using drive_not_wf [OF reachable_inv [OF r1] _ rest] assms(6) by blast
  have ok: "mod_ok e" using later by (simp add: env_later_def)
  from wp_SomeD [OF relay_event [OF Cons.prems(2,3) ok] step] wf1
  have one: "relaying cfd sfd (view c1)" "relayed cfd sfd (view c) (view c1)" by simp_all
  have "\<forall>(e, d, ev) \<in> set evs. env_later e configs cfd" using Cons.prems(4) by auto
  from Cons.IH [OF r1 wf1 one(1) this rest] one(2) show ?case by (blast intro: relayed_trans)
qed

section \<open>A concrete relay\<close>

lemma demo_relay:
  "\<exists>c. reachable demo_configs c \<and> well_formed c \<and> v_state (view c) = STATE_FULL \<and> v_client (view c) = 5 \<and>
    v_server (view c) = Some 7 \<and> v_out (view c) = [] \<and> v_in (view c) = []"
  using demo_session_reachable by blast

lemma demo_mod: "mod_ok (demo_os 6 bs)"
  by (simp add: mod_ok_def demo_os_def)

lemma relay_step_data:
  assumes "bs \<noteq> []" and "length bs \<le> RELAY_CHUNK"
  shows "relay_step (deliver e bs) d fd pfd EPOLLIN v =
    (with_queue (other d) (enqueue (queue (other d) v) bs) v)\<lparr>
      v_trace := v_trace v @ Sys_recv fd RELAY_CHUNK (Some bs) # waiting_peer pfd (other d)\<rparr>"
proof -
  have "(EPOLLIN :: 32 word) AND EPOLLOUT = 0" by (simp add: EPOLLIN_def EPOLLOUT_def)
  with assms show ?thesis by (simp add: relay_step_def relay_recv_def)
qed

lemma relay_two_events:
  assumes "well_formed c" and "v_state (view c) = STATE_FULL" and ok: "mod_ok e"
    and d: "side_fd d (view c) = Some fd" "side_fd (other d) (view c) = Some pfd"
    and bs: "bs \<noteq> []" "length bs \<le> RELAY_CHUNK" and empty: "queue (other d) (view c) = []"
    and takes: "\<forall>k fd. \<exists>n. os_send e k fd = Some n \<and> RELAY_CHUNK \<le> n"
  shows "wp (drive configs [(deliver e bs, d, EPOLLIN), (e, other d, EPOLLOUT)] c) (\<lambda>c'. well_formed c' \<and>
    v_state (view c') = STATE_FULL \<and> queue (other d) (view c') = [] \<and> queue d (view c') = queue d (view c) \<and>
    (\<exists>t. c_trace c' = c_trace c @ t \<and> sent_bytes pfd t = bs))"
proof -
  have fits: "enqueue [] bs = bs" using bs(2) by (simp add: enqueue_def OUTBUFFSIZE_def RELAY_CHUNK_def)
  let ?Q = "\<lambda>c'. well_formed c' \<and> v_state (view c') = STATE_FULL \<and> queue (other d) (view c') = [] \<and>
    queue d (view c') = queue d (view c) \<and> (\<exists>t. c_trace c' = c_trace c @ t \<and> sent_bytes pfd t = bs)"
  have "wp (drive configs [(deliver e bs, d, EPOLLIN), (e, other d, EPOLLOUT)] c) ?Q"
    unfolding wp_drive [of _ "deliver e bs"]
  proof (rule wp_step_full [OF assms(1,2) _ d])
    fix c1
    assume c1: "well_formed c1" "view c1 = relay_step (deliver e bs) d fd pfd EPOLLIN (view c)"
    note v1 = c1(2) [unfolded relay_step_data [OF bs] empty fits]
    obtain n where n: "os_send e (length (v_trace (view c1))) pfd = Some n" "length bs \<le> n"
      using takes bs(2) le_trans by blast
    have send: "relay_step e (other d) pfd fd EPOLLOUT (view c1) = (with_queue (other d) [] (view c1))\<lparr>
        v_trace := v_trace (view c1) @ Sys_send pfd bs (Some (length bs)) # done_sending pfd (other d)\<rparr>"
      using n v1 by (simp add: relay_step_def relay_send_def min_absorb1)
    have side: "side_fd (other d) (view c1) = Some pfd" "side_fd (other (other d)) (view c1) = Some fd"
      using d v1 by (cases d; simp)+
    have "wp (drive configs [(e, other d, EPOLLOUT)] c1) ?Q"
      unfolding wp_drive
    proof (rule wp_step_full [OF c1(1) _ ok side])
      fix c2
      assume c2: "well_formed c2" "view c2 = relay_step e (other d) pfd fd EPOLLOUT (view c1)"
      note v2 = c2(2) [unfolded send, unfolded v1]
      have "c_trace c2 = c_trace c @ (Sys_recv fd RELAY_CHUNK (Some bs) # waiting_peer pfd (other d)) @
          Sys_send pfd bs (Some (length bs)) # done_sending pfd (other d)"
        by (simp add: v2 flip: view_trace)
      moreover have "queue (other d) (view c2) = []" "queue d (view c2) = queue d (view c)"
        by (cases d; simp add: v2)+
      ultimately show "case (0, c2) of (r, c) \<Rightarrow> wp (drive configs [] c) ?Q"
        using c2(1) assms(2) by (simp add: v2)
    qed (use v1 assms(2) in simp)
    then show "case (0, c1) of (r, c) \<Rightarrow> wp (drive configs [(e, other d, EPOLLOUT)] c) ?Q" by simp
  qed (use ok in simp)
  then show ?thesis .
qed

text \<open>A client whose bytes the server side does not take: the queue fills up.\<close>

lemma demo_filled:
  "n \<le> 4 \<Longrightarrow> \<exists>c. well_formed c \<and> v_state (view c) = STATE_FULL \<and> v_client (view c) = 5 \<and> v_server (view c) = Some 7 \<and>
    v_in (view c) = replicate (n * 1024) 0"
proof (induction n)
  case 0
  then show ?case using demo_relay by auto
next
  case (Suc n)
  then obtain c where c: "well_formed c" "v_state (view c) = STATE_FULL" "v_client (view c) = 5"
    "v_server (view c) = Some 7" "v_in (view c) = replicate (n * 1024) 0" by auto
  let ?bs = "replicate 1024 (0 :: byte)"
  have "replicate 1024 (0 :: byte) \<noteq> []" "length ?bs \<le> RELAY_CHUNK" by (simp_all add: RELAY_CHUNK_def)
  note step = relay_step_data [OF this, of "demo_os 6 []" Client 5 7 "view c"]
  have "wp (socks5 (deliver (demo_os 6 []) ?bs) Client EPOLLIN demo_configs c) (\<lambda>(r, c'). well_formed c' \<and>
      v_state (view c') = STATE_FULL \<and> v_client (view c') = 5 \<and> v_server (view c') = Some 7 \<and>
      v_in (view c') = replicate (Suc n * 1024) 0)"
  proof (rule wp_step_full [OF c(1,2)])
    fix c'
    assume "well_formed c'" "view c' = relay_step (deliver (demo_os 6 []) ?bs) Client 5 7 EPOLLIN (view c)"
    with step c Suc.prems show "case (0, c') of (r, c') \<Rightarrow> well_formed c' \<and> v_state (view c') = STATE_FULL \<and>
        v_client (view c') = 5 \<and> v_server (view c') = Some 7 \<and> v_in (view c') = replicate (Suc n * 1024) 0"
      by (auto simp: enqueue_def OUTBUFFSIZE_def simp flip: replicate_add)
  qed (use c demo_mod in simp_all)
  then show ?case unfolding wp_iff by auto
qed

section \<open>Properties\<close>

text \<open>
  C19: the relay implements its specification. On an event of either side, the handler computes the
  abstract step \<open>relay_step\<close> on the two queues and the state, over the ring buffers and the shared
  objects of the connection.
\<close>

theorem relay_refines:
  assumes "reachable configs c" and "well_formed c" and "v_state (view c) = STATE_FULL" and "mod_ok e"
    and "side_fd d (view c) = Some fd" and "side_fd (other d) (view c) = Some pfd"
  shows "\<exists>c'. socks5 e d ev configs c = Some (0, c') \<and> well_formed c' \<and> view c' = relay_step e d fd pfd ev (view c)"
proof -
  have "wp (socks5 e d ev configs c) (\<lambda>(r, c'). r = 0 \<and> well_formed c' \<and> view c' = relay_step e d fd pfd ev (view c))"
    by (rule wp_step_full [OF assms(2-6)]) simp
  then show ?thesis unfolding wp_iff by auto
qed

lemma relay_refines_witness:
  "\<exists>c c'. socks5 (demo_os 6 [1, 2]) Client EPOLLIN demo_configs c = Some (0, c') \<and> well_formed c' \<and>
    view c' = relay_step (demo_os 6 [1, 2]) Client 5 7 EPOLLIN (view c)"
proof -
  obtain c where c: "reachable demo_configs c" "well_formed c" "v_state (view c) = STATE_FULL" "v_client (view c) = 5"
    "v_server (view c) = Some 7" using demo_relay by blast
  from relay_refines [OF c(1-3) demo_mod, of Client 5 7] c(4,5) show ?thesis by fastforce
qed

text \<open>
  C7: the relay keeps the order. Over any series of events of either side, in any order, what a
  side was sent followed by what waits for it is what waited before followed by the chunks the
  other side wrote, in their order and none twice; a chunk may be missing, but only as a whole.
\<close>

theorem relay_stream:
  assumes "reachable configs c" and "well_formed c" and "v_state (view c) = STATE_FULL"
    and "v_client (view c) = cfd" and "v_server (view c) = Some sfd"
    and "\<forall>(e, d, ev) \<in> set evs. env_later e configs cfd" and "drive configs evs c = Some c'" and "well_formed c'"
  shows "\<exists>t. c_trace c' = c_trace c @ t \<and>
    (\<exists>ys. subseq ys (chunks cfd t) \<and> sent_bytes sfd t @ v_in (view c') = v_in (view c) @ concat ys) \<and>
    (\<exists>zs. subseq zs (chunks sfd t) \<and> sent_bytes cfd t @ v_out (view c') = v_out (view c) @ concat zs)"
proof -
  have "relaying cfd sfd (view c)" using assms(3-5) by (simp add: relaying_def)
  from drive_relayed [OF assms(1,2) this assms(6-8)] have "relayed cfd sfd (view c) (view c')" by blast
  then show ?thesis by (simp add: relayed_def moved_def view_trace)
qed

lemma relay_stream_witness:
  "\<exists>c c' t. drive demo_configs [(deliver (demo_os 6 []) [7, 8], Client, EPOLLIN), (demo_os 6 [], Server, EPOLLOUT)] c = Some c' \<and>
    c_trace c' = c_trace c @ t \<and>
    (\<exists>ys. subseq ys (chunks 5 t) \<and> sent_bytes 7 t @ v_in (view c') = v_in (view c) @ concat ys) \<and>
    (\<exists>zs. subseq zs (chunks 7 t) \<and> sent_bytes 5 t @ v_out (view c') = v_out (view c) @ concat zs)"
proof -
  let ?evs = "[(deliver (demo_os 6 []) [7, 8], Client, EPOLLIN), (demo_os 6 [], Server, EPOLLOUT)]"
  obtain c where c: "reachable demo_configs c" "well_formed c" "v_state (view c) = STATE_FULL" "v_client (view c) = 5"
    "v_server (view c) = Some 7" "v_in (view c) = []" using demo_relay by blast
  have later: "env_later e demo_configs 5" if "e = demo_os 6 [] \<or> e = deliver (demo_os 6 []) [7, 8]" for e
    using that by (auto simp: env_later_def mod_ok_def os_ok_def demo_os_def configs_ok_def demo_configs_def deliver_def)
  obtain c' where run: "drive demo_configs ?evs c = Some c'" "well_formed c'"
    using relay_two_events [OF c(2,3), where e = "demo_os 6 []" and d = Client and fd = 5 and pfd = 7 and bs = "[7, 8]" and configs = demo_configs] c demo_mod
    by (auto simp: wp_iff demo_os_def RELAY_CHUNK_def)
  have "\<forall>(e, d, ev) \<in> set ?evs. env_later e demo_configs 5" using later by simp
  from relay_stream [OF c(1-5) this run] run(1) show ?thesis by blast
qed

text \<open>
  C20: the relay delivers. A chunk from one side, with nothing waiting for the other and a system
  that takes what it is offered, is sent to the other side exactly, by the two events that follow.
\<close>

theorem relay_delivers:
  assumes "reachable configs c" and "well_formed c" and "v_state (view c) = STATE_FULL" and ok: "mod_ok e"
    and d: "side_fd d (view c) = Some fd" "side_fd (other d) (view c) = Some pfd"
    and bs: "bs \<noteq> []" "length bs \<le> RELAY_CHUNK" and empty: "queue (other d) (view c) = []"
    and takes: "\<forall>k fd. \<exists>n. os_send e k fd = Some n \<and> RELAY_CHUNK \<le> n"
  shows "\<exists>c' t. drive configs [(deliver e bs, d, EPOLLIN), (e, other d, EPOLLOUT)] c = Some c' \<and> well_formed c' \<and>
    v_state (view c') = STATE_FULL \<and> queue (other d) (view c') = [] \<and> queue d (view c') = queue d (view c) \<and>
    c_trace c' = c_trace c @ t \<and> sent_bytes pfd t = bs"
  using relay_two_events [OF assms(2-9) takes, of configs] unfolding wp_iff by blast

lemma relay_delivers_witness:
  "\<exists>c c' t. drive demo_configs [(deliver (demo_os 6 []) [7, 8], Client, EPOLLIN), (demo_os 6 [], Server, EPOLLOUT)] c = Some c' \<and>
    well_formed c' \<and> v_state (view c') = STATE_FULL \<and> v_in (view c') = [] \<and> c_trace c' = c_trace c @ t \<and>
    sent_bytes 7 t = [7, 8]"
proof -
  obtain c where c: "reachable demo_configs c" "well_formed c" "v_state (view c) = STATE_FULL" "v_client (view c) = 5"
    "v_server (view c) = Some 7" "v_in (view c) = []" using demo_relay by blast
  have takes: "\<forall>k fd. \<exists>n. os_send (demo_os 6 []) k fd = Some n \<and> RELAY_CHUNK \<le> n"
    by (simp add: demo_os_def RELAY_CHUNK_def)
  from relay_delivers [OF c(1-3) demo_mod _ _ _ _ _ takes, where d = Client and fd = 5 and pfd = 7 and bs = "[7, 8]"] c
  show ?thesis by (auto simp: RELAY_CHUNK_def)
qed

text \<open>
  C33: the relay loses data. A chunk that arrives while the queue of the other side has no room for
  all of it is read and dropped: no error, no change of a queue or of the state.
\<close>

theorem relay_drops_chunk:
  assumes "well_formed c" and "v_state (view c) = STATE_FULL" and "mod_ok e"
    and d: "side_fd d (view c) = Some fd" "side_fd (other d) (view c) = Some pfd"
    and bs: "bs \<noteq> []" "length bs \<le> RELAY_CHUNK" and full: "length (queue (other d) (view c)) + length bs > OUTBUFFSIZE"
  shows "\<exists>c'. socks5 (deliver e bs) d EPOLLIN configs c = Some (0, c') \<and> well_formed c' \<and>
    Sys_recv fd RELAY_CHUNK (Some bs) \<in> set (c_trace c') \<and> v_state (view c') = STATE_FULL \<and>
    v_in (view c') = v_in (view c) \<and> v_out (view c') = v_out (view c) \<and> v_flags (view c') = v_flags (view c)"
proof -
  have same: "with_queue (other d) (enqueue (queue (other d) (view c)) bs) (view c) = view c"
    using full by (cases d) (simp_all add: enqueue_def)
  have "wp (socks5 (deliver e bs) d EPOLLIN configs c) (\<lambda>(r, c'). r = 0 \<and> well_formed c' \<and>
      Sys_recv fd RELAY_CHUNK (Some bs) \<in> set (c_trace c') \<and> v_state (view c') = STATE_FULL \<and>
      v_in (view c') = v_in (view c) \<and> v_out (view c') = v_out (view c) \<and> v_flags (view c') = v_flags (view c))"
    by (rule wp_step_full [OF assms(1,2) _ d])
      (use assms(2,3) in \<open>simp_all add: relay_step_data [OF bs] same flip: view_trace\<close>)
  then show ?thesis unfolding wp_iff by auto
qed

lemma relay_drops_chunk_witness:
  "\<exists>c c'. length (v_in (view c)) = OUTBUFFSIZE \<and>
    socks5 (deliver (demo_os 6 []) [7]) Client EPOLLIN demo_configs c = Some (0, c') \<and>
    Sys_recv 5 RELAY_CHUNK (Some [7]) \<in> set (c_trace c') \<and> v_state (view c') = STATE_FULL \<and>
    v_in (view c') = v_in (view c)"
proof -
  obtain c where c: "well_formed c" "v_state (view c) = STATE_FULL" "v_client (view c) = 5" "v_server (view c) = Some 7"
    "v_in (view c) = replicate (4 * 1024) 0" using demo_filled [of 4] by auto
  then have full: "length (v_in (view c)) = OUTBUFFSIZE" by (simp add: OUTBUFFSIZE_def)
  have args: "[7 :: byte] \<noteq> []" "length [7 :: byte] \<le> RELAY_CHUNK" "side_fd Client (view c) = Some 5"
    "side_fd (other Client) (view c) = Some 7" "length (queue (other Client) (view c)) + length [7 :: byte] > OUTBUFFSIZE"
    using c full by (simp_all add: RELAY_CHUNK_def)
  from relay_drops_chunk [OF c(1,2) demo_mod [of "[]"] args(3,4,1,2,5), of demo_configs] full show ?thesis by blast
qed

end
