(* ===== verification/Endings.thy ===== *)
theory Endings
  imports Relay_Properties
begin

text \<open>
  How the attempts of a client end: an \<^verbatim>\<open>accept\<close> that fails, an outbound connection that fails, the
  peer of a BIND, and the release of the two sides of a connection.
\<close>

section \<open>The dispatcher in the state BIND_LISTENING\<close>

lemma socks5_bind:
  assumes "well_formed c" and "side_fd d (view c) = Some fd" and "v_state (view c) = STATE_BIND_LISTENING"
  shows "socks5 e d ev configs c = do { c \<leftarrow> bindlistening e d ev c; Some (0, c) }"
  using assms
  by (simp add: socks5_def wf_data wf_shared wf_state ret0_def map_conv_bind_option Option.bind_assoc
      bind_map_option o_def)

lemma peer_check_None:
  assumes "peer_check info ss = None" and "request_addr info = Some req" and "sa_wf req" and "sa_wf ss"
  shows "req = ss"
proof -
  have "AF_INET \<noteq> AF_INET6" by (simp add: AF_INET_def AF_INET6_def)
  with assms show ?thesis
    by (cases req; cases ss) (auto simp: peer_check_def split: if_splits)
qed

lemma peer_check_Some:
  assumes "request_addr info = Some req" and "peer_check info ss = Some rep"
  shows "rep = REP_RULESET \<and> req \<noteq> ss"
  using assms by (auto simp: peer_check_def split: if_splits sockaddr.splits)

lemma wp_step_bind:
  assumes wf: "well_formed c" and ph: "phase (view c)" and st: "v_state (view c) = STATE_BIND_LISTENING"
    and env: "env_ok e configs c" and sv: "v_server (view c) = Some sfd"
    and Q: "\<And>c'. bindlistening_outcome e Server EPOLLIN (view c) c' \<Longrightarrow> Q (0, c')"
  shows "wp (socks5 e Server EPOLLIN configs c) Q"
proof -
  note inv = ph [unfolded phase_def st conn_state.case]
  have d: "side_fd Server (view c) = Some sfd" using sv by simp
  have "wp (bindlistening e Server EPOLLIN c) (\<lambda>c. Q (0, c))"
    using inv by (intro wp_bindlistening [OF wf d env_okD(1,2) [OF env] sv] Q) (simp_all add: OUTBUFFSIZE_def)
  then show ?thesis by (simp add: socks5_bind [OF wf d st])
qed

text \<open>A BIND that is refused with the code \<open>r\<close>, and one whose peer is announced.\<close>

definition refused_with :: "byte \<Rightarrow> view \<Rightarrow> bool" where
  "refused_with r v \<longleftrightarrow> v_state v = STATE_SENDING_REPLY \<and> v_rep v = r \<and> (\<exists>q. v_out v = q @ err_reply r)"

definition announced_peer :: "fd \<Rightarrow> sockaddr \<Rightarrow> view \<Rightarrow> bool" where
  "announced_peer fd ss v \<longleftrightarrow> v_state v = STATE_SENDING_REPLY_2 \<and> v_server v = Some fd \<and>
     v_out v = [SOCKS5_VERSION, REP_SUCCESS, SOCKS5_RESV] @ addr_bytes ss (the (sa_port ss))"

lemma bind_refused_with:
  "bind_refused r v v' \<Longrightarrow> fix_rep r = r \<Longrightarrow> refused_with r v'"
  by (auto simp: bind_refused_def refused_with_def)

section \<open>A failed connection\<close>

text \<open>The bit test of \<^verbatim>\<open>connecting\<close> takes every one of the four codes for the first.\<close>

lemma errno_rep_codes:
  "errno \<in> {ENETUNREACH, ETIMEDOUT, ECONNREFUSED, EHOSTUNREACH} \<Longrightarrow> errno_rep errno = REP_NUNRECH"
  by (auto simp: errno_rep_def ENETUNREACH_def ETIMEDOUT_def ECONNREFUSED_def EHOSTUNREACH_def)

lemma wp_step_connect_failed:
  assumes wf: "well_formed c" and ph: "phase (view c)" and st: "v_state (view c) = STATE_CONNECTING"
    and env: "env_ok e configs c" and sv: "v_server (view c) = Some sfd"
    and opt: "os_getsockopt e (length (v_trace (view c))) sfd = Some errno" "errno \<noteq> 0"
    and Q: "\<And>c' t. well_formed c' \<Longrightarrow> view c' = error_replied (refusing (errno_rep errno) t (view c)) \<Longrightarrow> Q (0, c')"
  shows "wp (socks5 e Server EPOLLOUT configs c) Q"
proof -
  note inv = ph [unfolded phase_def st conn_state.case]
  have d: "side_fd Server (view c) = Some sfd" using sv by simp
  have room: "length (v_out (view c)) + 22 \<le> OUTBUFFSIZE" using inv by (simp add: OUTBUFFSIZE_def)
  have "wp (connecting e Server EPOLLOUT c) (\<lambda>c. Q (0, c))"
  proof (rule wp_connecting [OF wf d env_okD(1,2) [OF env] sv room])
    fix c'
    let ?t = "[Sys_getsockopt sfd (Some errno)]"
    let ?w = "(view c)\<lparr>v_trace := v_trace (view c) @ ?t\<rparr>"
    assume "connecting_outcome e Server EPOLLOUT (view c) c'"
    then have "connect_failed_outcome e Server errno ?w c'"
      using sv opt by (simp add: connecting_outcome_def Let_def)
    moreover have "next_address ?w = ?w" using inv by (simp add: next_address_def)
    ultimately have "replied e Server (refusing (errno_rep errno) [] ?w) c'"
      using inv by (simp add: connect_failed_outcome_def)
    then have rep: "replied e Server (refusing (errno_rep errno) ?t (view c)) c'" by (simp add: refusing_def)
    from replied_room [OF rep env_okD(1) [OF env]] room have "well_formed c'"
      "view c' = error_replied (refusing (errno_rep errno) ?t (view c))" by simp_all
    then show "Q (0, c')" by (rule Q)
  qed
  then show ?thesis by (simp add: socks5_by_state(4) [OF wf d st])
qed

section \<open>A failed accept\<close>

lemma accept_result:
  assumes "accept_new_client e fd = (ret, c)"
  shows "ret = 0 \<or> ret = -1 \<and> gone c \<and>
    (\<forall>new_fd ss. os_accept e 0 fd = Some (new_fd, ss) \<longrightarrow> Sys_close new_fd \<in> set (c_trace c))"
proof (cases "os_accept e 0 fd")
  case None
  with assms show ?thesis by (auto simp: accept_new_client_def sys_defs no_conn_def gone_def now_def Let_def emit_def)
next
  case (Some p)
  with assms show ?thesis
    by (cases p)
      (auto simp: accept_new_client_def sys_defs no_conn_def gone_def now_def Let_def emit_def ep_add_new_client_def
        split: if_splits prod.splits)
qed

section \<open>The end of a half-closed connection\<close>

lemma half_closed_drive:
  assumes wf: "well_formed c" and st: "v_state (view c) = STATE_HALF_CLOSE" and sv: "v_server (view c) \<noteq> None"
  shows "wp (drive configs [(e1, d1, ev1), (e2, d2, ev2), (e3, other d2, ev3)] c) gone"
proof -
  have side: "\<exists>fd. side_fd d v = Some fd" if "v_server v \<noteq> None" for d v
    using that by (cases d) auto
  obtain fd1 where d1: "side_fd d1 (view c) = Some fd1" using side [OF sv] by blast
  have last: "wp (drive configs [(e3, other d2, ev3)] c2) gone" if "remains (other d2) fd c2" for c2 fd
    unfolding wp_drive by (rule wp_mono [OF step_remains [OF that]]) auto
  have rest: "wp (drive configs [(e2, d2, ev2), (e3, other d2, ev3)] c1) gone"
    if c1: "well_formed c1" "view c1 = (view c)\<lparr>v_state := STATE_CLOSED\<rparr>" for c1
  proof -
    have sv1: "v_server (view c1) \<noteq> None" and st1: "v_state (view c1) = STATE_CLOSED" using c1 sv by simp_all
    obtain fd2 pfd where d2: "side_fd d2 (view c1) = Some fd2" "side_fd (other d2) (view c1) = Some pfd"
      using side [OF sv1] by blast
    have "wp (closed e2 d2 c1) (\<lambda>c2. wp (drive configs [(e3, other d2, ev3)] c2) gone)"
    proof (rule wp_closed [OF c1(1) d2(1) st1])
      fix c2
      assume "released d2 (view c1) c2"
      with d2(2) have "remains (other d2) pfd c2" by (simp add: released_def)
      then show "wp (drive configs [(e3, other d2, ev3)] c2) gone" by (rule last)
    qed
    then show ?thesis
      unfolding wp_drive [of _ e2] socks5_by_state(8) [OF c1(1) d2(1) st1] by simp
  qed
  have "wp (half_close c) (\<lambda>c1. wp (drive configs [(e2, d2, ev2), (e3, other d2, ev3)] c1) gone)"
    unfolding half_close_def by (rule wp_set_state [OF wf]) (rule rest)
  then show ?thesis
    unfolding wp_drive [of _ e1] socks5_by_state(7) [OF wf d1 st] by simp
qed

section \<open>Concrete connections\<close>

text \<open>A connection in a state with both sides, for a command and an address of choice.\<close>

lemma demo_in_state:
  assumes "st = STATE_CONNECTING \<or> st = STATE_BIND_LISTENING"
  shows "\<exists>c. well_formed c \<and> phase (view c) \<and> v_state (view c) = st \<and> v_client (view c) = 5 \<and>
    v_server (view c) = Some 7 \<and> v_out (view c) = [] \<and> i_sa (v_info (view c)) = Some sa"
proof -
  obtain c where c: "reachable demo_configs c" "well_formed c" "v_state (view c) = STATE_FULL" "v_client (view c) = 5"
    "v_server (view c) = Some 7" "v_out (view c) = []" using demo_relay by blast
  from conn_inv_phase [OF reachable_inv [OF c(1)] c(2)] c(3)
  have ph: "i_resolver_ret (v_info (view c)) = -1" "i_ai (v_info (view c)) = []" "authorised (view c)"
    by (simp_all add: phase_def)
  have "wp (do { c \<leftarrow> upd_info (\<lambda>i. i\<lparr>i_cmd := CMD_BIND, i_sa := Some sa\<rparr>) c; set_state st c }) (\<lambda>c'. well_formed c' \<and>
      phase (view c') \<and> v_state (view c') = st \<and> v_client (view c') = 5 \<and> v_server (view c') = Some 7 \<and>
      v_out (view c') = [] \<and> i_sa (v_info (view c')) = Some sa)"
    using c ph assms by (auto simp: phase_def authorised_def intro!: wp_upd_info wp_set_state)
  then show ?thesis unfolding wp_iff by blast
qed

definition refusing_os :: "int \<Rightarrow> sockaddr \<Rightarrow> os" where
  "refusing_os errno ss = (demo_os 6 [])\<lparr>os_getsockopt := \<lambda>_ _. Some errno, os_accept := \<lambda>_ _. Some (8, ss)\<rparr>"

lemma refusing_env:
  assumes "v_client (view c) = 5" and "v_state (view c) \<noteq> STATE_WAITING_METHODS" and "sa_wf ss"
  shows "env_ok (refusing_os errno ss) demo_configs c"
proof -
  have "env_later (refusing_os errno ss) demo_configs 5"
    using assms(3) by (simp add: env_later_def refusing_os_def demo_os_def mod_ok_def os_ok_def configs_ok_def demo_configs_def)
  with assms show ?thesis by (intro env_later_ok) simp_all
qed

text \<open>A client closes its side before its request.\<close>

lemma demo_eof:
  assumes "ready (demo_os 6 []) demo_configs c"
  shows "\<exists>r c1. socks5 (deliver (demo_os 6 []) []) Client EPOLLIN demo_configs c = Some (r, c1) \<and> \<not> well_formed c1"
proof -
  let ?e = "deliver (demo_os 6 []) []"
  from assms have wf: "well_formed c" and st: "v_state (view c) = STATE_WAITING_COMMAND" and inq: "v_in (view c) = []"
    by (simp_all add: ready_def)
  have "wp (waitingcommand ?e Client demo_configs EPOLLIN c) (\<lambda>(r, c1). \<not> well_formed c1)"
  proof (rule wp_waitingcommand [OF wf, where R = "ran demo_configs"])
    show "case r of (r, c1) \<Rightarrow> \<not> well_formed c1"
      if "waitcommand_outcome ?e Client demo_configs (ran demo_configs) EPOLLIN (view c) r" for r
      using that by (auto simp: waitcommand_outcome_def received_def dest: not_wf_released)
    show "wp (run_command ?e Client demo_configs c') (ran demo_configs (parsed (after_recv (v_client (view c)) bs (view c))))"
      if "received ?e (v_client (view c)) (view c) = Some bs" "well_formed c'"
        "view c' = parsed (after_recv (v_client (view c)) bs (view c))" for c' bs
    proof -
      have "bs = []" using that(1) by (simp add: received_def)
      with wp_run_ready [OF assms that(2)] that(3) show ?thesis by simp
    qed
  qed (use ready_phase [OF assms] demo_mod in \<open>auto simp: demo_configs_def OUTBUFFSIZE_def\<close>)
  then show ?thesis unfolding wp_iff by (auto simp: socks5_by_state(3) [OF wf _ st, of Client])
qed

lemma demo_half_closed: "\<exists>c. reachable demo_configs c \<and> well_formed c \<and> v_state (view c) = STATE_HALF_CLOSE"
proof -
  let ?e = "deliver (demo_os 6 []) []"
  obtain c where c: "reachable demo_configs c" "well_formed c" "v_state (view c) = STATE_FULL" "v_client (view c) = 5"
    "v_server (view c) = Some 7" using demo_relay by blast
  have "(EPOLLIN :: 32 word) AND EPOLLOUT = 0" by (simp add: EPOLLIN_def EPOLLOUT_def)
  then have half: "v_state (relay_step ?e Client 5 7 EPOLLIN v) = STATE_HALF_CLOSE" for v
    by (simp add: relay_step_def relay_recv_def Let_def)
  have "wp (socks5 ?e Client EPOLLIN demo_configs c) (\<lambda>(r, c1). well_formed c1 \<and> v_state (view c1) = STATE_HALF_CLOSE)"
    by (rule wp_step_full [OF c(2,3), where fd = 5 and pfd = 7]) (use c demo_mod half in simp_all)
  then obtain r c1 where step: "socks5 ?e Client EPOLLIN demo_configs c = Some (r, c1)"
    and c1: "well_formed c1" "v_state (view c1) = STATE_HALF_CLOSE" unfolding wp_iff by auto
  have "env_later ?e demo_configs 5"
    by (simp add: env_later_def mod_ok_def os_ok_def demo_os_def configs_ok_def demo_configs_def deliver_def)
  then have "env_ok ?e demo_configs c" using c by (intro env_later_ok) simp_all
  then have "reachable demo_configs c1"
    by (intro reachable.event [OF c(1) socks5_data [OF step] _ step]) simp
  with c1 show ?thesis by blast
qed

section \<open>Properties\<close>

text \<open>
  C16: only the peer the client named gets through a BIND. When a connection arrives on the listener,
  it is handed to the client (or fails for lack of a system resource) if it comes from the address
  and port of the request; any other is refused with the ruleset error.
\<close>

theorem bind_peer_checked:
  assumes "well_formed c" and ph: "phase (view c)" and st: "v_state (view c) = STATE_BIND_LISTENING"
    and env: "env_ok e configs c" and sv: "v_server (view c) = Some sfd"
    and req: "i_sa (v_info (view c)) = Some req" "sa_wf req"
    and acc: "os_accept e (length (c_trace c)) sfd = Some (new_fd, ss)"
  shows "\<exists>c'. socks5 e Server EPOLLIN configs c = Some (0, c') \<and> well_formed c' \<and>
    (if ss = req then announced_peer new_fd ss (view c') \<or> refused_with REP_GENFAIL (view c')
     else refused_with REP_RULESET (view c'))"
proof -
  have out: "v_out (view c) = []" using ph st by (simp add: phase_def)
  have ra: "request_addr (v_info (view c)) = Some req" using req by (simp add: request_addr_def)
  have ss: "sa_wf ss" by (rule os_okD(3) [OF env_okD(2) [OF env] acc])
  have "wp (socks5 e Server EPOLLIN configs c) (\<lambda>(r, c'). r = 0 \<and> well_formed c' \<and>
    (if ss = req then announced_peer new_fd ss (view c') \<or> refused_with REP_GENFAIL (view c')
     else refused_with REP_RULESET (view c')))"
  proof (rule wp_step_bind [OF assms(1-5)])
    fix c'
    assume o: "bindlistening_outcome e Server EPOLLIN (view c) c'"
    then have wf: "well_formed c'" by (simp add: bindlistening_outcome_def)
    show "case (0, c') of (r, c') \<Rightarrow> r = 0 \<and> well_formed c' \<and>
      (if ss = req then announced_peer new_fd ss (view c') \<or> refused_with REP_GENFAIL (view c')
       else refused_with REP_RULESET (view c'))"
    proof (cases "peer_check (v_info (view c)) ss")
      case None
      have "req = ss" by (rule peer_check_None [OF None ra req(2) ss])
      with o wf None acc sv out show ?thesis
        by (auto simp: bindlistening_outcome_def view_trace accepted_def announced_peer_def dest: bind_refused_with)
    next
      case (Some rep)
      with o wf acc sv peer_check_Some [OF ra Some] show ?thesis
        by (auto simp: bindlistening_outcome_def view_trace dest: bind_refused_with)
    qed
  qed
  then show ?thesis unfolding wp_iff by auto
qed

lemma bind_peer_checked_witness:
  "\<exists>c c'. socks5 (refusing_os 0 (SIN [6, 6, 6, 6] [0, 1])) Server EPOLLIN demo_configs c = Some (0, c') \<and> well_formed c' \<and>
    (if SIN [6, 6, 6, 6] [0, 1] = demo_sa
     then announced_peer 8 (SIN [6, 6, 6, 6] [0, 1]) (view c') \<or> refused_with REP_GENFAIL (view c')
     else refused_with REP_RULESET (view c'))"
proof -
  obtain c where c: "well_formed c" "phase (view c)" "v_state (view c) = STATE_BIND_LISTENING" "v_client (view c) = 5"
    "v_server (view c) = Some 7" "i_sa (v_info (view c)) = Some demo_sa"
    using demo_in_state by blast
  let ?e = "refusing_os 0 (SIN [6, 6, 6, 6] [0, 1])"
  have env: "env_ok ?e demo_configs c" using c by (intro refusing_env) simp_all
  have acc: "os_accept ?e (length (c_trace c)) 7 = Some (8, SIN [6, 6, 6, 6] [0, 1])" by (simp add: refusing_os_def)
  from bind_peer_checked [OF c(1-3) env c(5,6) demo_session(2) acc] show ?thesis by blast
qed

text \<open>
  C34: every failed connection is reported as an unreachable network. The test \<^verbatim>\<open>error & CODE\<close> of
  \<^verbatim>\<open>connecting\<close> holds for the first code whichever of the four errors occurred; a refused connection,
  an unreachable host and a timeout get the reply of an unreachable network.
\<close>

theorem connect_failure_reply:
  assumes "well_formed c" and "phase (view c)" and "v_state (view c) = STATE_CONNECTING" and "env_ok e configs c"
    and "v_server (view c) = Some sfd" and "os_getsockopt e (length (c_trace c)) sfd = Some errno"
    and "errno \<in> {ENETUNREACH, ETIMEDOUT, ECONNREFUSED, EHOSTUNREACH}"
  shows "\<exists>c'. socks5 e Server EPOLLOUT configs c = Some (0, c') \<and> well_formed c' \<and>
    v_state (view c') = STATE_SENDING_REPLY \<and> v_out (view c') = err_reply REP_NUNRECH"
proof -
  have "v_out (view c) = []" using assms(2,3) by (simp add: phase_def)
  then have "wp (socks5 e Server EPOLLOUT configs c) (\<lambda>(r, c'). r = 0 \<and> well_formed c' \<and>
      v_state (view c') = STATE_SENDING_REPLY \<and> v_out (view c') = err_reply REP_NUNRECH)"
    using assms errno_rep_codes [OF assms(7)]
    by (intro wp_step_connect_failed [OF assms(1-5), of errno])
      (auto simp: view_trace ENETUNREACH_def ETIMEDOUT_def ECONNREFUSED_def EHOSTUNREACH_def)
  then show ?thesis unfolding wp_iff by auto
qed

lemma connect_failure_reply_witness:
  "\<exists>c c'. socks5 (refusing_os ECONNREFUSED demo_sa) Server EPOLLOUT demo_configs c = Some (0, c') \<and> well_formed c' \<and>
    v_state (view c') = STATE_SENDING_REPLY \<and> v_out (view c') = err_reply REP_NUNRECH"
proof -
  obtain c where c: "well_formed c" "phase (view c)" "v_state (view c) = STATE_CONNECTING" "v_client (view c) = 5"
    "v_server (view c) = Some 7" using demo_in_state by blast
  have env: "env_ok (refusing_os ECONNREFUSED demo_sa) demo_configs c"
    using c by (intro refusing_env) (simp_all add: demo_sa_def)
  from connect_failure_reply [OF c(1-3) env c(5), of ECONNREFUSED] show ?thesis
    by (auto simp: refusing_os_def)
qed





text \<open>
  C18: a half-closed connection ends. From the moment one side is closed, any event marks the
  connection as closed and the next event of each side frees it, whatever the system does; what was
  still queued for a side is discarded.
\<close>

theorem half_closed_ends:
  assumes "reachable configs c" and "well_formed c" and "v_state (view c) = STATE_HALF_CLOSE"
  shows "\<exists>c'. drive configs [(e1, d1, ev1), (e2, d2, ev2), (e3, other d2, ev3)] c = Some c' \<and> gone c'"
proof -
  have "v_server (view c) \<noteq> None"
    using conn_inv_phase [OF reachable_inv [OF assms(1)] assms(2)] assms(3) by (simp add: phase_def)
  from half_closed_drive [OF assms(2,3) this] show ?thesis unfolding wp_iff .
qed

lemma half_closed_ends_witness:
  "\<exists>c c'. v_state (view c) = STATE_HALF_CLOSE \<and>
    drive demo_configs [(demo_os 6 [], Client, EPOLLIN), (demo_os 6 [], Server, EPOLLIN), (demo_os 6 [], other Server, EPOLLOUT)] c =
      Some c' \<and> gone c'"
proof -
  obtain c where c: "reachable demo_configs c" "well_formed c" "v_state (view c) = STATE_HALF_CLOSE"
    using demo_half_closed by blast
  from half_closed_ends [OF this, of "demo_os 6 []" Client EPOLLIN "demo_os 6 []" Server EPOLLIN "demo_os 6 []" EPOLLOUT] c(3)
  show ?thesis by blast
qed

end
