(* ===== verification/Bind_Session.thy ===== *)
theory Bind_Session
  imports Endings
begin

text \<open>
  A BIND from the first byte to the relay: the listener of the program, the first reply with its
  address, the peer the client named, the second reply.
\<close>

section \<open>The replies of a BIND\<close>

lemma wp_queue_and_wake_ok:
  assumes wf: "well_formed c" and ok: "mod_ok e" and room: "length (v_out (view c)) + length (atyp # addr @ port) \<le> OUTBUFFSIZE"
    and Q: "\<And>c'. well_formed c' \<Longrightarrow> view c' = (view c)\<lparr>v_out := v_out (view c) @ atyp # addr @ port,
      v_trace := v_trace (view c) @ waiting_send (view c)\<rparr> \<Longrightarrow> Q (0, c')"
  shows "wp (do { c \<leftarrow> write_rep_addr atyp addr port c; wake_client e c }) Q"
  using ok queued_fits [OF _ room] by (intro wp_queue_and_wake [OF wf]) (auto intro!: Q)

lemma wp_bind_reply_ok:
  assumes wf: "well_formed c" and ok: "mod_ok e" and adv: "inet adv" and port: "sa_port ss = Some port" "length port = 2"
    and room: "length (v_out (view c)) + 19 \<le> OUTBUFFSIZE"
    and Q: "\<And>c'. well_formed c' \<Longrightarrow> view c' = (view c)\<lparr>v_out := v_out (view c) @ addr_bytes adv port,
      v_trace := v_trace (view c) @ waiting_send (view c)\<rparr> \<Longrightarrow> Q (0, c')"
  shows "wp (bind_reply e adv ss c) Q"
proof (cases adv)
  case (SIN a p)
  with adv port room show ?thesis
    by (auto simp: bind_reply_def inet_def intro!: wp_queue_and_wake_ok [OF wf ok, unfolded wp_bind] Q)
next
  case (SIN6 a p)
  with adv port room show ?thesis
    by (auto simp: bind_reply_def inet_def intro!: wp_queue_and_wake_ok [OF wf ok, unfolded wp_bind] Q)
next
  case (SA_OTHER f)
  with adv show ?thesis by (auto simp: inet_def)
qed

lemma wp_start_reply_ok:
  assumes wf: "well_formed c" and add: "\<And>k. os_epoll_ctl e k EPOLL_CTL_ADD sfd" and sv: "v_server (view c) \<noteq> None"
    and Q: "\<And>c'. well_formed c' \<Longrightarrow> view c' = (view c)\<lparr>v_in := [], v_state := STATE_SENDING_REPLY,
      v_trace := v_trace (view c) @ [Sys_epoll_ctl EPOLL_CTL_ADD sfd EPOLLIN (Peer Server) True]\<rparr> \<Longrightarrow> Q c'"
  shows "wp (start_reply e sfd c) Q"
  unfolding start_reply_def wp_bind
  using wf sv wf_in_le [OF wf]
  by (auto simp: ep_add_new_client_def epoll_ctl_def Let_def add
      intro!: wp_consume_server_out wp_set_state Q)

section \<open>The listener\<close>

text \<open>
  A system in which a BIND succeeds: \<open>lfd\<close> is the listening socket with the address \<open>name\<close>, and
  the peer \<open>sa\<close> connects to it on \<open>pfd\<close>.
\<close>

definition bind_works :: "os \<Rightarrow> fd \<Rightarrow> fd \<Rightarrow> fd \<Rightarrow> sockaddr \<Rightarrow> sockaddr \<Rightarrow> bool" where
  "bind_works e cfd lfd pfd name sa \<longleftrightarrow> mod_ok e \<and> os_ok e cfd \<and> sends_all e \<and> lfd \<noteq> cfd \<and> pfd \<noteq> cfd \<and>
     (\<forall>k. os_socket e k = Some lfd \<and> os_bind e k lfd \<and> os_listen e k lfd \<and> os_malloc e k \<and>
       os_getsockname e k lfd = Some name \<and> os_accept e k lfd = Some (pfd, sa)) \<and>
     (\<forall>k fd. os_epoll_ctl e k EPOLL_CTL_ADD fd)"

lemma bind_worksD:
  assumes "bind_works e cfd lfd pfd name sa"
  shows "mod_ok e" and "os_ok e cfd" and "sends_all e" and "lfd \<noteq> cfd" and "pfd \<noteq> cfd"
    and "os_socket e k = Some lfd" and "os_bind e k lfd" and "os_listen e k lfd" and "os_malloc e k"
    and "os_getsockname e k lfd = Some name" and "os_accept e k lfd = Some (pfd, sa)"
    and "os_epoll_ctl e k EPOLL_CTL_ADD fd"
  using assms by (auto simp: bind_works_def)

text \<open>A configuration that lets the BIND through, with the addresses it uses.\<close>

definition bind_configs :: "Configs \<Rightarrow> sockaddr \<Rightarrow> Sockaddr_ll \<Rightarrow> Sockaddr_ll \<Rightarrow> bool" where
  "bind_configs configs sa la adv \<longleftrightarrow> configs_ok configs \<and> cf_methods configs ! 0 = 1 \<and>
     allow_bind configs \<and> \<not> allow_domains configs \<and> (\<forall>b \<in> set (block_head configs). \<not> matches b sa) \<and>
     find_family (sa_family sa) (bind_listen configs) = Some la \<and>
     find_family (sa_family sa) (bind_advertise configs) = Some adv"

text \<open>The calls of a BIND, and the reply with the advertised address and the port of the listener.\<close>

definition bind_calls :: "fd \<Rightarrow> sockaddr \<Rightarrow> sockaddr \<Rightarrow> sys list" where
  "bind_calls lfd sa la = [Sys_socket (sa_family sa) SOCK_STREAM (Some lfd), Sys_bind lfd la True, Sys_listen lfd True]"

definition success_reply :: "sockaddr \<Rightarrow> sockaddr \<Rightarrow> byte list" where
  "success_reply adv ss = [SOCKS5_VERSION, REP_SUCCESS, SOCKS5_RESV] @ addr_bytes adv (the (sa_port ss))"

text \<open>What a step adds to the trace, as far as the client and the network see it.\<close>

definition adds :: "sys list \<Rightarrow> sys list \<Rightarrow> sys list \<Rightarrow> bool" where
  "adds calls t t' \<longleftrightarrow> (\<exists>u. t' = t @ u \<and> filter outbound u = calls \<and> (\<forall>a \<in> set u. \<not> sends a))"

definition bind_started :: "fd \<Rightarrow> sockaddr \<Rightarrow> sockaddr \<Rightarrow> byte list \<Rightarrow> view \<Rightarrow> view \<Rightarrow> bool" where
  "bind_started lfd sa la reply v v' \<longleftrightarrow>
     v_state v' = STATE_SENDING_REPLY \<and> v_info v' = (v_info v)\<lparr>i_rep := REP_SUCCESS\<rparr> \<and> v_client v' = v_client v \<and>
     v_server v' = Some lfd \<and> v_in v' = [] \<and> v_out v' = v_out v @ reply \<and>
     adds (bind_calls lfd sa la) (v_trace v) (v_trace v')"

lemma wp_bind_announce_ok:
  assumes wf: "well_formed c" and os: "bind_works e (v_client (view c)) lfd pfd name sa"
    and adv: "inet adv" and room: "length (v_out (view c)) + 22 \<le> OUTBUFFSIZE"
    and Q: "\<And>c'. well_formed c' \<Longrightarrow> view c' = (view c)\<lparr>v_server := Some lfd, v_info := (v_info (view c))\<lparr>i_rep := REP_SUCCESS\<rparr>,
      v_in := [], v_out := v_out (view c) @ success_reply adv name, v_state := STATE_SENDING_REPLY,
      v_trace := v_trace (view c) @ [Sys_getsockname lfd (Some name)] @ waiting_send (view c) @
        [Sys_epoll_ctl EPOLL_CTL_ADD lfd EPOLLIN (Peer Server) True]\<rparr> \<Longrightarrow> Q c'"
  shows "wp (bind_announce e lfd adv c) Q"
proof -
  note os = bind_worksD [OF os]
  obtain port where port: "sa_port name = Some port" "length port = 2"
    using os_okD(5) [OF os(2,10)] by blast
  show ?thesis
    unfolding bind_announce_def wp_bind link_server_def
  proof (rule wp_link_server_socket [OF wf os(4)], simp add: sys_getsockname_def now_view os(10) Let_def,
      rule wp_set_rep, simp, rule wp_write_rep_info, assumption)
    fix c1 c2 c3 q
    assume 1: "well_formed c1" "view c1 = (view c)\<lparr>v_server := Some lfd\<rparr>"
      and 2: "view c2 = (view (emit (Sys_getsockname lfd (Some name)) c1))
        \<lparr>v_info := (v_info (view (emit (Sys_getsockname lfd (Some name)) c1)))\<lparr>i_rep := REP_SUCCESS\<rparr>\<rparr>"
      and 3: "well_formed c3" "view c3 = (view c2)\<lparr>v_out := q\<rparr>"
        "queued (v_out (view c2)) [SOCKS5_VERSION, REP_SUCCESS, SOCKS5_RESV] q"
    show "wp (bind_reply e adv name c3) (\<lambda>x. wp (case x of (ret, c) \<Rightarrow>
        if ret = -1 then set_rep REP_GENFAIL c else start_reply e lfd c) Q)"
    proof (rule wp_bind_reply_ok [OF 3(1) os(1) adv port])
      have q: "q = v_out (view c) @ [SOCKS5_VERSION, REP_SUCCESS, SOCKS5_RESV]"
        using queued_fits [OF 3(3)] 1(2) 2 room by simp
      then show "length (v_out (view c3)) + 19 \<le> OUTBUFFSIZE" using 3(2) room by simp
      fix c4
      assume 4: "well_formed c4" "view c4 = (view c3)\<lparr>v_out := v_out (view c3) @ addr_bytes adv port,
        v_trace := v_trace (view c3) @ waiting_send (view c3)\<rparr>"
      show "wp (case (0 :: int, c4) of (ret, c) \<Rightarrow>
          if ret = -1 then set_rep REP_GENFAIL c else start_reply e lfd c) Q"
        using 1(2) 2 3(2) 4 q port os(12)
        by (auto intro!: wp_start_reply_ok Q simp: success_reply_def)
    qed
  qed
qed

text \<open>\<^verbatim>\<open>init_bind\<close> when every call succeeds.\<close>

lemma wp_init_bind_ok:
  assumes wf: "well_formed c" and os: "bind_works e (v_client (view c)) lfd pfd name psa"
    and cf: "bind_configs configs sa la adv" and sa: "i_sa (v_info (view c)) = Some sa" "inet sa"
    and out: "v_out (view c) = []"
    and Q: "\<And>c'. well_formed c' \<Longrightarrow>
      bind_started lfd sa (sl_sa la) (success_reply (sl_sa adv) name) (view c) (view c') \<Longrightarrow> Q c'"
  shows "wp (init_bind e configs c) Q"
proof -
  note os1 = bind_worksD [OF os]
  let ?calls = "[Sys_socket (sa_family sa) SOCK_STREAM (Some lfd), Sys_nonblock lfd, Sys_bind lfd (sl_sa la) True,
    Sys_listen lfd True, Sys_malloc True]"
  have cfg: "find_family (sa_family sa) (bind_listen configs) = Some la"
    "find_family (sa_family sa) (bind_advertise configs) = Some adv" "configs_ok configs"
    using cf by (simp_all add: bind_configs_def)
  have adv: "inet (sl_sa adv)"
    using find_family_Some [OF cfg(2)] cfg(3) sa(2) by (auto simp: configs_ok_def inet_def)
  define c1 where "c1 = emit (Sys_malloc True) (emit (Sys_listen lfd True) (emit (Sys_bind lfd (sl_sa la) True)
    (emit (Sys_nonblock lfd) (emit (Sys_socket (sa_family sa) SOCK_STREAM (Some lfd)) c))))"
  have c1: "well_formed c1" "view c1 = (view c)\<lparr>v_trace := v_trace (view c) @ ?calls\<rparr>"
    using wf by (simp_all add: c1_def)
  have eq: "init_bind e configs c = bind_announce e lfd (sl_sa adv) c1"
    using wf sa cfg os1(6-9)
    by (simp add: init_bind_def wf_simps info_family_def sys_socket_def fd_nonblocking_def sys_bind_def sys_listen_def
        sys_malloc_def Let_def now_view c1_def)
  have os': "bind_works e (v_client (view c1)) lfd pfd name psa" using os c1(2) by simp
  show ?thesis
    unfolding eq
    by (rule wp_bind_announce_ok [OF c1(1) os' adv])
      (auto intro!: Q simp: c1(2) out OUTBUFFSIZE_def bind_started_def bind_calls_def adds_def waiting_send_def)
qed

lemma bind_works_deliver [simp]:
  "bind_works (deliver e bs) cfd lfd pfd name psa = bind_works e cfd lfd pfd name psa"
  by (simp add: bind_works_def sends_all_def) (simp add: deliver_def)

lemma wp_run_bind:
  assumes wf: "well_formed c" and fw: "\<not> firewall (v_info (view c)) configs" and cmd: "i_cmd (v_info (view c)) = CMD_BIND"
    and cf: "bind_configs configs sa la adv" and sa: "i_sa (v_info (view c)) = Some sa" "inet sa"
    and os: "bind_works e (v_client (view c)) lfd pfd name psa" and out: "v_out (view c) = []"
    and Q: "\<And>c'. well_formed c' \<Longrightarrow>
      bind_started lfd sa (sl_sa la) (success_reply (sl_sa adv) name) (view c) (view c') \<Longrightarrow> Q (0, c')"
  shows "wp (run_command e Client configs c) Q"
proof -
  have allow: "allow_bind configs" using cf by (simp add: bind_configs_def)
  have nc: "CMD_BIND \<noteq> CMD_CONN" by (simp add: socks_consts)
  have logs: "bind_started lfd sa la' reply (v\<lparr>v_trace := v_trace v @ [Sys_log_access code acc]\<rparr>) v' \<Longrightarrow>
      bind_started lfd sa la' reply v v'" for la' reply v code acc v'
    by (auto simp: bind_started_def adds_def)
  have init: "wp (init_command e Client configs c) (\<lambda>c'. wp (do {
      info \<leftarrow> get_info c';
      if i_rep info \<noteq> 0xFF \<and> i_rep info \<noteq> REP_SUCCESS then do {
        c \<leftarrow> reply_with_err e Client c';
        Some (0, c) }
      else Some (0, c') }) Q)"
    unfolding init_command_def wp_bind wf_info [OF wf] wp_Some cmd if_not_P [OF nc] if_P [OF refl]
    using wf
  proof (intro wp_get_data_client wp_log_access, simp_all only: allow not_True_eq_False if_False)
    fix c1
    assume c1: "well_formed c1" "view c1 = (view c)\<lparr>v_trace := v_trace (view c) @
        [Sys_log_access A_COMMBIND (v_access (view c))]\<rparr>"
    show "wp (init_bind e configs c1) (\<lambda>c'. wp (get_info c') (\<lambda>info. wp (
        if i_rep info \<noteq> 0xFF \<and> i_rep info \<noteq> REP_SUCCESS then do {
          c \<leftarrow> reply_with_err e Client c';
          Some (0, c) }
        else Some (0, c')) Q))"
    proof (rule wp_init_bind_ok [OF c1(1) _ cf])
      fix c2
      assume c2: "well_formed c2"
        "bind_started lfd sa (sl_sa la) (success_reply (sl_sa adv) name) (view c1) (view c2)"
      then have "v_rep (view c2) = REP_SUCCESS" by (simp add: bind_started_def)
      with c2 c1(2) Q [OF c2(1) logs] show "wp (get_info c2) (\<lambda>info. wp (
          if i_rep info \<noteq> 0xFF \<and> i_rep info \<noteq> REP_SUCCESS then do {
            c \<leftarrow> reply_with_err e Client c2;
            Some (0, c) }
          else Some (0, c2)) Q)" by (simp add: wf_info)
    qed (use c1 sa os out in simp_all)
  qed
  show ?thesis
    unfolding run_command_def wf_info [OF wf] bind.simps if_not_P [OF fw]
    by (subst wp_bind, rule init)
qed

lemma wp_step_bind_request:
  assumes wf: "well_formed c" and st: "v_state (view c) = STATE_WAITING_COMMAND" and ph: "phase (view c)"
    and inq: "v_in (view c) = []" and cf: "bind_configs configs sa la adv" and sa: "inet sa"
    and os: "bind_works e (v_client (view c)) lfd pfd name psa"
    and Q: "\<And>c'. well_formed c' \<Longrightarrow>
      bind_started lfd sa (sl_sa la) (success_reply (sl_sa adv) name) (requested CMD_BIND sa (view c)) (view c') \<Longrightarrow> Q (0, c')"
  shows "wp (socks5 (deliver e (request_msg CMD_BIND sa)) Client EPOLLIN configs c) Q"
proof (rule wp_step_run [OF wf st ph inq _ _ sa])
  have free: "\<forall>b \<in> set (block_head configs). \<not> matches b sa" and dom: "\<not> allow_domains configs"
    using cf by (simp_all add: bind_configs_def)
  then show "\<not> allow_domains configs" by simp
  show "mod_ok e" "\<forall>k. os_malloc e k" using bind_worksD [OF os] by simp_all
  have out: "v_out (view c) = []" using ph by (simp add: phase_def st)
  show "wp (run_command (deliver e (request_msg CMD_BIND sa)) Client configs c') (\<lambda>(r, c). Q (word_of_int r, c))"
    if c': "well_formed c'" "view c' = requested CMD_BIND sa (view c)" for c'
    using c' requested_info [OF inq sa, of CMD_BIND] filter_request(1) [OF sa inq, of CMD_BIND configs] free os out
    by (intro wp_run_bind [OF c'(1) _ _ cf _ sa, where e = "deliver e (request_msg CMD_BIND sa)"]) (auto intro!: Q)
qed

section \<open>The peer\<close>

lemma adds_simps [simp]:
  "adds [] t t" "adds calls t (t @ [a]) \<longleftrightarrow> filter outbound [a] = calls \<and> \<not> sends a"
  "adds calls t (t @ a # u) \<longleftrightarrow> filter outbound (a # u) = calls \<and> (\<forall>b \<in> set (a # u). \<not> sends b)"
  by (auto simp: adds_def)

lemma adds_trans: "adds xs t u \<Longrightarrow> adds ys u v \<Longrightarrow> adds (xs @ ys) t v"
  by (force simp: adds_def)

definition peer_joined :: "fd \<Rightarrow> byte list \<Rightarrow> view \<Rightarrow> view \<Rightarrow> bool" where
  "peer_joined pfd reply v v' \<longleftrightarrow>
     v_state v' = STATE_SENDING_REPLY_2 \<and> v_info v' = (v_info v)\<lparr>i_rep := REP_SUCCESS\<rparr> \<and> v_client v' = v_client v \<and>
     v_server v' = Some pfd \<and> v_in v' = v_in v \<and> v_out v' = v_out v @ reply \<and> adds [] (v_trace v) (v_trace v')"

lemma wp_peer_reply_ok:
  assumes wf: "well_formed c" and ok: "mod_ok e" and sa: "inet ss" and room: "length (v_out (view c)) + 19 \<le> OUTBUFFSIZE"
    and Q: "\<And>c'. well_formed c' \<Longrightarrow> view c' = (view c)\<lparr>v_out := v_out (view c) @ addr_bytes ss (the (sa_port ss)),
      v_state := STATE_SENDING_REPLY_2, v_trace := v_trace (view c) @ waiting_send (view c)\<rparr> \<Longrightarrow> Q c'"
  shows "wp (peer_reply e Server ss c) Q"
proof -
  have reply: "wp (do { c \<leftarrow> write_rep_addr atyp addr port c; (ret, c) \<leftarrow> wake_client e c;
      if ret = -1 then reply_rep e Server REP_GENFAIL c else set_state STATE_SENDING_REPLY_2 c }) Q"
    if "addr_bytes ss (the (sa_port ss)) = atyp # addr @ port" "length (atyp # addr @ port) \<le> 19" for atyp addr port
  proof -
    have "wp (do { (ret, c) \<leftarrow> do { c \<leftarrow> write_rep_addr atyp addr port c; wake_client e c };
        if ret = -1 then reply_rep e Server REP_GENFAIL c else set_state STATE_SENDING_REPLY_2 c }) Q"
      using that room by (subst wp_bind, intro wp_queue_and_wake_ok [OF wf ok]) (auto intro!: wp_set_state Q)
    then show ?thesis by (simp add: Option.bind_assoc)
  qed
  show ?thesis
    using sa reply by (cases ss) (auto simp: peer_reply_def inet_def simp del: wp_bind)
qed

lemma wp_peer_accepted_ok:
  assumes wf: "well_formed c" and ok: "mod_ok e" and sa: "inet ss" and sv: "v_server (view c) = Some lfd"
    and ne: "pfd \<noteq> v_client (view c)" and add: "\<And>k. os_epoll_ctl e k EPOLL_CTL_ADD pfd"
    and room: "length (v_out (view c)) + 22 \<le> OUTBUFFSIZE"
    and Q: "\<And>c'. well_formed c' \<Longrightarrow> peer_joined pfd (success_reply ss ss) (view c) (view c') \<Longrightarrow> Q c'"
  shows "wp (peer_accepted e Server pfd ss c) Q"
proof -
  let ?c1 = "snd (epoll_ctl e EPOLL_CTL_DEL lfd 0 Null_ptr (close_fd lfd c))"
  let ?t = "[Sys_close lfd, Sys_epoll_ctl EPOLL_CTL_DEL lfd 0 Null_ptr (os_epoll_ctl e (Suc (now c)) EPOLL_CTL_DEL lfd)]"
  have 1: "well_formed ?c1" "view ?c1 = (view c)\<lparr>v_trace := v_trace (view c) @ ?t\<rparr>"
    using wf by (simp_all add: epoll_ctl_def close_fd_def Let_def now_def)
  have data: "(peer lfd)\<lparr>d_self_fd := pfd\<rparr> = peer pfd" by (simp add: peer_def)
  have eq: "peer_accepted e Server pfd ss c = do {
      c \<leftarrow> upd_shared (s_server_fd_update (\<lambda>_. pfd)) (?c1\<lparr>c_server := Some (peer pfd)\<rparr>);
      let (ret, c) = ep_add_new_client e pfd Server c;
      (if ret = -1 then reply_rep e Server REP_GENFAIL c
       else do {
         c \<leftarrow> set_rep REP_SUCCESS c;
         c \<leftarrow> write_rep_info REP_SUCCESS c;
         peer_reply e Server ss c }) }"
    unfolding peer_accepted_def using wf sv by (simp add: wf_simps ep_delete_fd_def data)
  show ?thesis
    unfolding eq
  proof (subst wp_bind, rule wp_set_server_fd [OF 1(1)])
    fix c2
    assume 2: "well_formed c2" "view c2 = (view ?c1)\<lparr>v_server := Some pfd\<rparr>"
    let ?c3 = "emit (Sys_epoll_ctl EPOLL_CTL_ADD pfd EPOLLIN (Peer Server) True) c2"
    have "wp (do { c \<leftarrow> set_rep REP_SUCCESS ?c3; c \<leftarrow> write_rep_info REP_SUCCESS c; peer_reply e Server ss c }) Q"
    proof (subst wp_bind, rule wp_set_rep, simp add: 2(1), subst wp_bind, rule wp_write_rep_info, assumption)
      fix c4 c5 q
      assume 4: "view c4 = (view ?c3)\<lparr>v_info := (v_info (view ?c3))\<lparr>i_rep := REP_SUCCESS\<rparr>\<rparr>"
        and 5: "well_formed c5" "view c5 = (view c4)\<lparr>v_out := q\<rparr>"
          "queued (v_out (view c4)) [SOCKS5_VERSION, REP_SUCCESS, SOCKS5_RESV] q"
      have q: "q = v_out (view c) @ [SOCKS5_VERSION, REP_SUCCESS, SOCKS5_RESV]"
        using queued_fits [OF 5(3)] 4 2(2) 1(2) room by simp
      show "wp (peer_reply e Server ss c5) Q"
        using 1(2) 2(2) 4 5(2) q room
        by (intro wp_peer_reply_ok [OF 5(1) ok sa] Q)
          (auto simp: peer_joined_def success_reply_def waiting_send_def)
    qed
    with add show "wp (let (ret, c) = ep_add_new_client e pfd Server c2 in
       if ret = -1 then reply_rep e Server REP_GENFAIL c
       else do {
         c \<leftarrow> set_rep REP_SUCCESS c;
         c \<leftarrow> write_rep_info REP_SUCCESS c;
         peer_reply e Server ss c }) Q"
      by (simp add: ep_add_new_client_def epoll_ctl_def Let_def)
  qed (use 1 ne sv in simp_all)
qed

lemma peer_check_same: "request_addr info = Some sa \<Longrightarrow> peer_check info sa = None"
  by (cases sa) (simp_all add: peer_check_def)

lemma wp_step_peer:
  assumes wf: "well_formed c" and st: "v_state (view c) = STATE_BIND_LISTENING" and sv: "v_server (view c) = Some lfd"
    and os: "bind_works e (v_client (view c)) lfd pfd name sa" and sa: "i_sa (v_info (view c)) = Some sa" "inet sa"
    and out: "v_out (view c) = []"
    and Q: "\<And>c'. well_formed c' \<Longrightarrow> peer_joined pfd (success_reply sa sa) (view c) (view c') \<Longrightarrow> Q (0, c')"
  shows "wp (socks5 e Server EPOLLIN configs c) Q"
proof -
  note os = bind_worksD [OF os]
  have d: "side_fd Server (view c) = Some lfd" using sv by simp
  let ?c = "emit (Sys_accept lfd (Some (pfd, sa))) c"
  have eq: "bindlistening e Server EPOLLIN c = do {
        c \<leftarrow> set_server_addr sa ?c;
        info \<leftarrow> get_info c;
        case peer_check info sa of
          Some rep \<Rightarrow> reply_rep e Server rep c
        | None \<Rightarrow> peer_accepted e Server pfd sa c }"
    using wf d sv not_for_server [OF wf d sv] os(11)
    unfolding bindlistening_def by (simp add: wf_simps sys_accept_def now_view Let_def EPOLLIN_def cong: option.case_cong if_cong)
  have "wp (bindlistening e Server EPOLLIN c) (\<lambda>c. Q (0, c))"
    unfolding eq set_server_addr_def
  proof (subst wp_bind, rule wp_set_server_addr, simp add: wf)
    fix c1
    assume 1: "well_formed c1" "view c1 = (view ?c)\<lparr>v_access := (v_access (view ?c))\<lparr>al_server := Some sa\<rparr>\<rparr>"
    have "peer_check (v_info (view c1)) sa = None"
      using 1(2) sa(1) by (intro peer_check_same) (simp add: request_addr_def)
    moreover have "wp (peer_accepted e Server pfd sa c1) (\<lambda>c. Q (0, c))"
      by (rule wp_peer_accepted_ok [OF 1(1) os(1) sa(2)])
        (use 1(2) sv os out in \<open>auto simp: OUTBUFFSIZE_def peer_joined_def adds_def intro!: Q\<close>)
    ultimately show "wp (do { info \<leftarrow> get_info c1;
        case peer_check info sa of
          Some rep \<Rightarrow> reply_rep e Server rep c1
        | None \<Rightarrow> peer_accepted e Server pfd sa c1 }) (\<lambda>c. Q (0, c))"
      by (simp add: wf_info [OF 1(1)])
  qed
  then show ?thesis by (simp add: socks5_bind [OF wf d st])
qed

section \<open>From the first byte to the relay\<close>

lemma adds_seen:
  "adds calls t t' \<Longrightarrow> sent_bytes fd t' = sent_bytes fd t \<and> filter outbound t' = filter outbound t @ calls"
  by (auto simp: adds_def sent_bytes_quiet)

definition bind_events :: "os \<Rightarrow> sockaddr \<Rightarrow> (os \<times> side \<times> 32 word) list" where
  "bind_events e sa = [(deliver e greeting, Client, EPOLLIN), (e, Client, EPOLLOUT),
     (deliver e (request_msg CMD_BIND sa), Client, EPOLLIN), (e, Client, EPOLLOUT), (e, Server, EPOLLIN),
     (e, Client, EPOLLOUT)]"

text \<open>The request of the client in the connection, with the reply code \<open>r\<close>.\<close>

definition bind_info :: "byte \<Rightarrow> sockaddr \<Rightarrow> Info" where
  "bind_info r sa = (request_info (request_msg CMD_BIND sa) (new_info\<lparr>i_method := METH_NOAUTH\<rparr>))\<lparr>i_sa := Some sa, i_rep := r\<rparr>"

lemma bind_info_simps:
  assumes "inet sa"
  shows "i_cmd (bind_info r sa) = CMD_BIND" and "i_sa (bind_info r sa) = Some sa" and "i_rep (bind_info r sa) = r"
    and "(bind_info r sa)\<lparr>i_rep := q\<rparr> = bind_info q sa"
  using request_msg_parses(3) [OF assms, of CMD_BIND] by (simp_all add: bind_info_def request_info_def)

text \<open>A queued success reply of a BIND goes out at once.\<close>

lemma wp_bind_reply_sent:
  assumes wf: "well_formed c" and v: "session_view st (bind_info REP_SUCCESS sa) reply sv bytes calls cfd (view c)"
    and st: "st \<in> {STATE_SENDING_REPLY, STATE_SENDING_REPLY_2}" and sa: "inet sa" and len: "length reply \<le> 300"
    and os: "sends_all e" "mod_ok e"
    and Q: "\<And>c'. well_formed c' \<Longrightarrow> session_view (if st = STATE_SENDING_REPLY then STATE_BIND_LISTENING else STATE_FULL)
      (bind_info (if st = STATE_SENDING_REPLY then 0xFF else REP_SUCCESS) sa) [] sv (bytes @ reply) calls cfd (view c') \<Longrightarrow> Q (0, c')"
  shows "wp (socks5 e Client EPOLLOUT configs c) Q"
proof (rule wp_step_reply_sent [OF wf _ _ os])
  note info = bind_info_simps [OF sa]
  have nc: "CMD_BIND \<noteq> CMD_CONN" by (simp add: socks_consts)
  show "v_state (view c) \<in> {STATE_SENDING_REPLY, STATE_SENDING_REPLY_2}" "v_rep (view c) = REP_SUCCESS"
    using v st info by (simp_all add: session_view_def)
  fix c'
  assume c': "well_formed c'" "view c' = after_reply (flushed (v_client (view c)) Client 300 (view c))"
  show "Q (0, c')"
    using v st len nc info c'(2)
    by (intro Q [OF c'(1)])
      (auto simp: session_view_def after_reply_def flushed_def after_send_def done_sending_def Let_def)
qed

lemma success_reply_le:
  assumes "os_ok e cfd" and "os_getsockname e k fd = Some name" and "sa_wf adv"
  shows "length (success_reply adv name) \<le> 300"
  using sa_port_bytes_le [OF assms] by (simp add: success_reply_def)

lemma bind_session_wp:
  assumes acc: "accept_new_client e0 fd = (0, c)" "accept_ok e0" and cfd: "v_client (view c) = cfd"
    and cf: "bind_configs configs sa la adv" and sa: "inet sa" and os: "bind_works e cfd lfd pfd name sa"
  shows "wp (drive configs (bind_events e sa) c) (\<lambda>c'. well_formed c' \<and> session_view STATE_FULL (bind_info REP_SUCCESS sa)
    [] (Some pfd) ([SOCKS5_VERSION, METH_NOAUTH] @ success_reply (sl_sa adv) name @ success_reply sa sa)
    (bind_calls lfd sa (sl_sa la)) cfd (view c'))"
  (is "wp _ ?Q")
proof -
  let ?hello = "[SOCKS5_VERSION, METH_NOAUTH]" and ?calls = "bind_calls lfd sa (sl_sa la)"
  let ?reply = "success_reply (sl_sa adv) name" and ?peer = "success_reply sa sa"
  note os1 = bind_worksD [OF os] and info = bind_info_simps [OF sa]
  have cfg: "cf_methods configs ! 0 = 1" "configs_ok configs"
    "find_family (sa_family sa) (bind_advertise configs) = Some adv"
    using cf by (simp_all add: bind_configs_def)
  have adv: "sa_wf (sl_sa adv)" using cfg(2) find_family_Some [OF cfg(3)] by (simp add: configs_ok_def)
  have len: "length ?reply \<le> 300" "length ?peer \<le> 300"
    using success_reply_le [OF os1(2,10) adv] sa
    by (cases sa; auto simp: success_reply_def inet_def)+
  have fin: "wp (drive configs [(e, Client, EPOLLOUT)] c5) ?Q"
    if "well_formed c5" "session_view STATE_SENDING_REPLY_2 (bind_info REP_SUCCESS sa) ?peer (Some pfd)
      (?hello @ ?reply) ?calls cfd (view c5)" for c5
    unfolding wp_drive using that
    by (intro wp_bind_reply_sent [OF that _ sa len(2) os1(3,1)]) simp_all
  have joined: "wp (drive configs [(e, Server, EPOLLIN), (e, Client, EPOLLOUT)] c4) ?Q"
    if c4: "well_formed c4" "session_view STATE_BIND_LISTENING (bind_info 0xFF sa) [] (Some lfd)
      (?hello @ ?reply) ?calls cfd (view c4)" for c4
    unfolding wp_drive [of _ _ Server]
  proof (rule wp_step_peer [OF c4(1), where lfd = lfd and pfd = pfd and name = name and sa = sa])
    fix c5
    assume c5: "well_formed c5" "peer_joined pfd ?peer (view c4) (view c5)"
    then have "session_view STATE_SENDING_REPLY_2 (bind_info REP_SUCCESS sa) ?peer (Some pfd)
        (?hello @ ?reply) ?calls cfd (view c5)"
      using c4(2) info adds_seen [of "[]" "v_trace (view c4)" "v_trace (view c5)"]
      by (auto simp: session_view_def peer_joined_def)
    from fin [OF c5(1) this] show "case (0, c5) of (r, c) \<Rightarrow> wp (drive configs [(e, Client, EPOLLOUT)] c) ?Q" by simp
  qed (use c4(2) os sa info in \<open>simp_all add: session_view_def\<close>)
  have announced: "wp (drive configs [(e, Client, EPOLLOUT), (e, Server, EPOLLIN), (e, Client, EPOLLOUT)] c3) ?Q"
    if c3: "well_formed c3" "session_view STATE_SENDING_REPLY (bind_info REP_SUCCESS sa) ?reply (Some lfd)
      ?hello ?calls cfd (view c3)" for c3
    unfolding wp_drive [of _ _ Client _ "_ # _"] using joined
    by (intro wp_bind_reply_sent [OF c3 _ sa len(1) os1(3,1)]) simp_all
  show ?thesis
    unfolding bind_events_def
  proof (rule session_negotiated [OF acc cfd _ cfg(1) os1(1,3)])
    show "length (cf_methods configs) = 255" using cfg(2) by (simp add: configs_ok_def)
    fix c2
    assume c2: "well_formed c2" and v2: "session_view STATE_WAITING_COMMAND (new_info\<lparr>i_method := METH_NOAUTH\<rparr>) [] None
        ?hello [] cfd (view c2)"
    show "wp (drive configs [(deliver e (request_msg CMD_BIND sa), Client, EPOLLIN), (e, Client, EPOLLOUT),
        (e, Server, EPOLLIN), (e, Client, EPOLLOUT)] c2) ?Q"
      unfolding wp_drive [of _ "deliver e (request_msg CMD_BIND sa)"]
    proof (rule wp_step_bind_request [OF c2 _ session_phase [OF v2] _ cf sa, where lfd = lfd and pfd = pfd and name = name and psa = sa])
      fix c3
      assume c3: "well_formed c3" "bind_started lfd sa (sl_sa la) ?reply (requested CMD_BIND sa (view c2)) (view c3)"
      have "session_view STATE_SENDING_REPLY (bind_info REP_SUCCESS sa) ?reply (Some lfd) ?hello ?calls cfd (view c3)"
        using c3(2) v2 adds_seen [of ?calls "v_trace (requested CMD_BIND sa (view c2))" "v_trace (view c3)"]
          request_msg_parses [OF sa, where cmd = CMD_BIND]
        by (simp add: session_view_def bind_started_def requested_trace)
          (simp add: requested_def parsed_def bind_info_def)
      from announced [OF c3(1) this]
      show "case (0, c3) of (r, c) \<Rightarrow> wp (drive configs [(e, Client, EPOLLOUT), (e, Server, EPOLLIN), (e, Client, EPOLLOUT)] c) ?Q"
        by simp
    qed (use v2 os in \<open>simp_all add: session_view_def\<close>)
  qed
qed

section \<open>Properties\<close>

text \<open>
  C9: a BIND reaches the relay. From the accepted connection, a client that offers no
  authentication and asks to BIND for a peer the filter lets through, with a system whose calls
  succeed, is sent the address of the listener after four events; when the peer connects,
  the listener is replaced by its connection, and after six events the two are relayed. The client
  has been sent the method and the two success replies, with the advertised address and the port of the
  listener, then with the address of the peer, and nothing else; the only socket opened listened on the
  configured address.
\<close>

theorem bind_session:
  assumes "accept_new_client e0 fd = (0, c)" and "accept_ok e0" and "bind_configs configs sa la adv"
    and "inet sa" and "bind_works e (v_client (view c)) lfd pfd name sa"
  shows "\<exists>c'. drive configs (bind_events e sa) c = Some c' \<and> well_formed c' \<and> v_state (view c') = STATE_FULL \<and>
    v_server (view c') = Some pfd \<and> v_out (view c') = [] \<and> v_in (view c') = [] \<and>
    sent_bytes (v_client (view c)) (c_trace c') = [SOCKS5_VERSION, METH_NOAUTH] @
      ([SOCKS5_VERSION, REP_SUCCESS, SOCKS5_RESV] @ addr_bytes (sl_sa adv) (the (sa_port name))) @
      ([SOCKS5_VERSION, REP_SUCCESS, SOCKS5_RESV] @ addr_bytes sa (the (sa_port sa))) \<and>
    filter outbound (c_trace c') = [Sys_socket (sa_family sa) SOCK_STREAM (Some lfd), Sys_bind lfd (sl_sa la) True, Sys_listen lfd True]"
  using bind_session_wp [OF assms(1,2) refl assms(3-5)]
  by (auto simp: wp_iff session_view_def view_trace success_reply_def bind_calls_def)

definition demo_peer :: sockaddr where
  "demo_peer = SIN [127, 0, 0, 1] [0, 80]"

definition demo_any :: Sockaddr_ll where
  "demo_any = \<lparr>sl_addrlen = 16, sl_sa = SIN [0, 0, 0, 0] [0, 0]\<rparr>"

definition bind_demo :: Configs where
  "bind_demo = demo_configs\<lparr>bind_listen := [demo_any], bind_advertise := [demo_any]\<rparr>"

lemma bind_session_witness:
  "\<exists>c'. drive bind_demo (bind_events (demo_os 6 []) demo_peer) demo_conn = Some c' \<and> well_formed c' \<and>
    v_state (view c') = STATE_FULL \<and> v_server (view c') = Some 6 \<and>
    sent_bytes (v_client (view demo_conn)) (c_trace c') = [5, 0] @ [5, 0, 0, 1, 0, 0, 0, 0, 0, 99] @ [5, 0, 0, 1, 127, 0, 0, 1, 0, 80]"
proof -
  have cf: "bind_configs bind_demo demo_peer demo_any demo_any"
    by (simp add: bind_configs_def bind_demo_def demo_configs_def demo_any_def demo_peer_def configs_ok_def)
  have os: "bind_works (demo_os 6 []) (v_client (view demo_conn)) 7 6 (SIN [10, 0, 0, 1] [0, 99]) demo_peer"
    by (simp add: bind_works_def mod_ok_def os_ok_def sends_all_def demo_os_def demo_state demo_peer_def)
  have sa: "inet demo_peer" by (simp add: inet_def demo_peer_def)
  from bind_session [OF demo_accept demo_accept_ok cf sa os] show ?thesis
    by (auto simp: demo_any_def demo_peer_def socks_consts rep_consts METH_NOAUTH_def)
qed

end
