(* ===== verification/Logger.thy ===== *)
theory Logger
  imports Epoll_Data Streams
begin

text \<open>
  \<^verbatim>\<open>src/logger.c\<close>: the messages the log functions write to the pipe, the loop of the logger thread
  that reads them, and the lines it writes. An address is the 128 bytes of a
  \<^verbatim>\<open>sockaddr_storage\<close>; the byte order is that of x86. The text form of an IPv6 address is
  the argument \<open>ntop6\<close>, and \<open>uninit\<close> is the value of a local variable that was not set.
\<close>

section \<open>The messages\<close>

definition LOG_CUSTOM :: byte where "LOG_CUSTOM = 0x00"
definition LOG_ERROR :: byte where "LOG_ERROR = 0x01"
definition LOG_ACCESS :: byte where "LOG_ACCESS = 0x02"
definition LOG_SIG_JOIN :: byte where "LOG_SIG_JOIN = 0xFF"

lemmas log_types = LOG_CUSTOM_def LOG_ERROR_def LOG_ACCESS_def LOG_SIG_JOIN_def

definition SS_SIZE :: nat where "SS_SIZE = 128"

definition log_error_msg :: "byte \<Rightarrow> byte list" where
  "log_error_msg code = [LOG_ERROR, code]"

definition log_access_msg :: "byte list \<Rightarrow> byte list \<Rightarrow> byte \<Rightarrow> byte list" where
  "log_access_msg client server code = [LOG_ACCESS, code] @ client @ server"

text \<open>A string of more than 252 bytes is not written at all.\<close>

definition log_custom_msg :: "byte list \<Rightarrow> byte \<Rightarrow> byte \<Rightarrow> byte list option" where
  "log_custom_msg str strsz dest =
    (if unat strsz > 252 then Some []
     else do {
       s \<leftarrow> mem_read str 0 (unat strsz);
       Some ([LOG_CUSTOM, dest, strsz] @ s) })"

definition log_sig_join_msg :: "byte list" where
  "log_sig_join_msg = [LOG_SIG_JOIN]"

section \<open>The reader\<close>

text \<open>What one pass of the inner loop of the thread makes of the pipe.\<close>

datatype log_record =
  Rec_custom byte "byte list"
| Rec_error byte
| Rec_access byte "byte list" "byte list"
| Rec_join
| Rec_nothing

text \<open>
  A \<^verbatim>\<open>read\<close> of \<open>n\<close> bytes takes what there is, up to \<open>n\<close>; on an empty pipe it returns \<open>-1\<close>, which
  the comparison with the unsigned \<^verbatim>\<open>sizeof\<close> does not see as short, so a missing error code is
  the initial \<^verbatim>\<open>0xFF\<close> (the comparison with the promoted \<^verbatim>\<open>strsz\<close> does see it). An address that is
  cut short keeps the zeros of the buffer behind what was read, a missing access code is \<open>0\<close>.
\<close>

definition read_storage :: "byte list \<Rightarrow> byte list \<times> byte list" where
  "read_storage bs = (zero_filled SS_SIZE (take SS_SIZE bs), drop SS_SIZE bs)"

definition read_custom :: "byte list \<Rightarrow> (log_record \<times> byte list) option" where
  "read_custom bs =
    (case bs of
       dest # strsz # rest \<Rightarrow>
         let strsz = strsz + 1; n = unat strsz in
         if n = 0 then None
         else if length rest < n then Some (Rec_nothing, [])
         else if unat dest \<ge> 2 then None
         else Some (Rec_custom dest (takeWhile (\<lambda>b. b \<noteq> 0) (take (n - 1) rest)), drop n rest)
     | _ \<Rightarrow> Some (Rec_nothing, []))"

definition read_error :: "byte list \<Rightarrow> log_record \<times> byte list" where
  "read_error bs = (case bs of [] \<Rightarrow> (Rec_error 0xFF, []) | code # rest \<Rightarrow> (Rec_error code, rest))"

definition read_access :: "byte list \<Rightarrow> log_record \<times> byte list" where
  "read_access bs =
    (let (code, bs) = (case bs of [] \<Rightarrow> (0, []) | code # rest \<Rightarrow> (code, rest));
         (client, bs) = read_storage bs;
         (server, bs) = read_storage bs
     in (Rec_access code client server, bs))"

definition read_record :: "byte \<Rightarrow> byte list \<Rightarrow> (log_record \<times> byte list) option" where
  "read_record log_type bs =
    (if log_type = LOG_CUSTOM then read_custom bs
     else if log_type = LOG_ERROR then Some (read_error bs)
     else if log_type = LOG_ACCESS then Some (read_access bs)
     else if log_type = LOG_SIG_JOIN then Some (Rec_join, bs)
     else Some (Rec_nothing, bs))"

lemma read_record_shorter: "read_record ty bs = Some (r, rest) \<Longrightarrow> length rest \<le> length bs"
  by (auto simp: read_record_def read_custom_def read_error_def read_access_def read_storage_def Let_def
      split: if_splits list.splits)

text \<open>
  The inner loop: it ends when the pipe is empty (\<^verbatim>\<open>EAGAIN\<close>), with the records in the order
  they were read; the flag says that the thread was told to exit.
\<close>

function logger_loop :: "byte list \<Rightarrow> (log_record list \<times> bool) option" where
  "logger_loop bs =
    (case bs of
       [] \<Rightarrow> Some ([], False)
     | log_type # bs \<Rightarrow>
       (case read_record log_type bs of
          None \<Rightarrow> None
        | Some (r, rest) \<Rightarrow>
          if r = Rec_join then Some ([], True)
          else do {
            (rs, joined) \<leftarrow> logger_loop rest;
            Some (if r = Rec_nothing then rs else r # rs, joined) }))"
  by pat_completeness auto
termination
  by (relation "measure length") (auto dest: read_record_shorter)

declare logger_loop.simps [simp del]

section \<open>The lines\<close>

text \<open>The conversions of \<^verbatim>\<open>fprintf\<close> the formats use; surplus arguments are ignored.\<close>

datatype printf_arg = Str "char list" | Num int

definition show_int :: "int \<Rightarrow> char list" where
  "show_int n = (if n < 0 then CHR ''-'' # decimal (nat (- n)) else decimal (nat n))"

fun printf :: "char list \<Rightarrow> printf_arg list \<Rightarrow> char list option" where
  "printf [] args = Some []"
| "printf (c # f) args =
    (if c \<noteq> CHR ''%'' then map_option (Cons c) (printf f args)
     else case (f, args) of
       (k # f', Str s # args') \<Rightarrow> (if k = CHR ''s'' then map_option ((@) s) (printf f' args') else None)
     | (k # f', Num n # args') \<Rightarrow> (if k = CHR ''d'' then map_option ((@) (show_int n)) (printf f' args') else None)
     | _ \<Rightarrow> None)"

record tm =
  tm_year :: int
  tm_mon :: int
  tm_mday :: int
  tm_hour :: int
  tm_min :: int
  tm_sec :: int

definition tm_args :: "tm \<Rightarrow> printf_arg list" where
  "tm_args t = [Num (tm_year t + 1900), Num (tm_mon t + 1), Num (tm_mday t), Num (tm_hour t), Num (tm_min t),
     Num (tm_sec t)]"

definition error_strings :: "char list list" where
  "error_strings = [
     ''INFO|SPSTARTUP-Socksprox started and parsed configs'',
     ''INFO|LOGGERSETUP-Start and set up logging'',
     ''INFO|EPOLLCREATE-Created the epoll instance'',
     ''EMERG|EPOLLERROR-There was a fatal error in the epoll instance'',
     ''INFO|LISTENINIT-Listeners are bound and waiting for connections'',
     ''EMERG|LISTENERROR-Could not setup listeners'',
     ''INFO|RESOLVERSTART-Started the async DNS resolver'',
     ''WARN|RESOLVERERROR-Failed to start the async dns resolver'',
     ''INFO|NORESOLVER-Not starting resolver, not domain names allowed'',
     ''EMERG|MALLOCERROR-Memory allocation operation failed'',
     ''WARN|EPOLLERRORADD-Error adding fd to epoll'',
     ''WARN|EPOLLERRORMOD-Error modifying fd in epoll'',
     ''WARN|EPOLLERRORDEL-Error deleting fd from epoll'',
     ''INFO|BINDLISTENER-Bound listener from config file'',
     ''EMERG|EPOLLWAITERROR-There was an error waiting for epoll to return'',
     ''WARN|EPOLLDATANULL-Epoll returned a null pointer'',
     ''WARN|NEWCLIENTERROR-There was an error accepting a new client'',
     ''WARN|NULLCHECKFAIL-Found NULL where data was expected'',
     ''WARN|GETSOCKOPTFAIL-Error returned by getsockopt'',
     ''WARN|GETSOCKNAMEFAIL-Error returned by getsockname'']"

definition access_formats :: "char list list" where
  "access_formats = [
     ''[%s]:%d-->socksprox|A new client connected to socksprox'',
     ''[%s]:%d--!socksprox|Connection closing during socks handshake'',
     ''[%s]:%d--!socksprox|Client sent invalid version during handshake'',
     ''[%s]:%d-->socksprox|Client requested command ''@ [CHR 0x27] @ ''connect'' @ [CHR 0x27],
     ''[%s]:%d-->socksprox|Client requested command ''@ [CHR 0x27] @ ''bind'' @ [CHR 0x27],
     ''[%s]:%d-->socksprox|Client requested command ''@ [CHR 0x27] @ ''udp associate'' @ [CHR 0x27],
     ''[%s]:%d--!socksprox|Client requst blocked by firewall'',
     ''[%s]:%d-->socksprox|Method negotiated to ''@ [CHR 0x27] @ ''no authentication'' @ [CHR 0x27],
     ''[%s]:%d-->socksprox|Method negotiated to ''@ [CHR 0x27] @ ''username/password'' @ [CHR 0x27],
     ''[%s]:%d-->socksprox|Method negotiated to ''@ [CHR 0x27] @ ''gssapi'' @ [CHR 0x27],
     ''[%s]:%d--!socksprox|No method could be negotiated'',
     ''[%s]:%d-->socksprox-->[%s]:%d|Successful proxy connection made'',
     ''[%s]:%d-->socksprox<--[%s]:%d|Peer connected to proxied listener'',
     ''[%s]:%d-->socksprox<->[%s]:%d|UDP relay port established'']"

definition time_format :: "char list" where
  "time_format = ''%d-%d-%d_%d:%d:%d-''"

definition write_custom :: "char list \<Rightarrow> tm \<Rightarrow> char list option" where
  "write_custom str t = printf (time_format @ ''%s'' @ [CHR 0x0A]) (tm_args t @ [Str str])"

definition write_error :: "byte \<Rightarrow> tm \<Rightarrow> char list option" where
  "write_error code t = do {
     s \<leftarrow> mem_get error_strings (unat code);
     printf (time_format @ ''%s'' @ [CHR 0x0A]) (tm_args t @ [Str s]) }"

definition ntop4 :: "byte list \<Rightarrow> char list" where
  "ntop4 bs = (case bs of [a, b, c, d] \<Rightarrow>
     decimal (unat a) @ ''.'' @ decimal (unat b) @ ''.'' @ decimal (unat c) @ ''.'' @ decimal (unat d) | _ \<Rightarrow> [])"

definition le16 :: "byte \<Rightarrow> byte \<Rightarrow> int" where
  "le16 lo hi = uint lo + 256 * uint hi"

definition ss_family :: "byte list \<Rightarrow> int" where
  "ss_family src = le16 (src ! 0) (src ! 1)"

text \<open>
  \<^verbatim>\<open>inet_ntop\<close> is given the start of the structure, not its address field; the port is not
  converted from network order.
\<close>

definition get_ip_port :: "(byte list \<Rightarrow> char list) \<Rightarrow> int \<Rightarrow> byte list \<Rightarrow> char list \<times> int" where
  "get_ip_port ntop6 uninit src =
    (if ss_family src = AF_INET then (ntop4 (take 4 src), le16 (src ! 2) (src ! 3))
     else if ss_family src = AF_INET6 then (ntop6 (take 16 src), le16 (src ! 2) (src ! 3))
     else ([], uninit))"

definition write_access ::
  "(byte list \<Rightarrow> char list) \<Rightarrow> int \<Rightarrow> byte \<Rightarrow> byte list \<Rightarrow> byte list \<Rightarrow> tm \<Rightarrow> char list option" where
  "write_access ntop6 uninit code client server t = do {
     let (client_ip, client_port) = get_ip_port ntop6 uninit client;
     let (server_ip, server_port) =
       (if ss_family server \<noteq> 0 then get_ip_port ntop6 uninit server else ([], uninit));
     stamp \<leftarrow> printf time_format (tm_args t);
     f \<leftarrow> mem_get access_formats (unat code);
     body \<leftarrow> printf f [Str client_ip, Num client_port, Str server_ip, Num server_port];
     Some (stamp @ body @ [CHR 0x0A]) }"

section \<open>What the thread makes of the messages\<close>

text \<open>The messages the program writes, as data.\<close>

datatype log_event = Ev_error byte | Ev_access byte "byte list" "byte list"

fun event_msg :: "log_event \<Rightarrow> byte list" where
  "event_msg (Ev_error code) = log_error_msg code"
| "event_msg (Ev_access code client server) = log_access_msg client server code"

fun event_ok :: "log_event \<Rightarrow> bool" where
  "event_ok (Ev_error code) = True"
| "event_ok (Ev_access code client server) = (length client = SS_SIZE \<and> length server = SS_SIZE)"

fun event_record :: "log_event \<Rightarrow> log_record" where
  "event_record (Ev_error code) = Rec_error code"
| "event_record (Ev_access code client server) = Rec_access code client server"

lemma read_storage_append [simp]: "length ss = SS_SIZE \<Longrightarrow> read_storage (ss @ rest) = (ss, rest)"
  by (simp add: read_storage_def zero_filled_def)

lemma logger_loop_Nil [simp]: "logger_loop [] = Some ([], False)"
  by (simp add: logger_loop.simps)

lemma logger_loop_event:
  assumes "event_ok ev"
  shows "logger_loop (event_msg ev @ rest) = map_option (apfst (Cons (event_record ev))) (logger_loop rest)"
  using assms
  by (cases ev; cases "logger_loop rest")
    (auto simp: logger_loop.simps [of "_ # _"] log_error_msg_def log_access_msg_def read_record_def read_error_def
        read_access_def log_types)

interpretation log: record_stream logger_loop event_msg event_ok event_record
  by unfold_locales (simp_all add: logger_loop_event)

text \<open>The log entries of a connection's trace as messages; \<open>enc\<close> is the layout of an address.\<close>

fun trace_events :: "(sockaddr option \<Rightarrow> byte list) \<Rightarrow> sys list \<Rightarrow> log_event list" where
  "trace_events enc [] = []"
| "trace_events enc (a # t) =
    (case a of
       Sys_log_error code \<Rightarrow> Ev_error code # trace_events enc t
     | Sys_log_access code acc \<Rightarrow> Ev_access code (enc (al_client acc)) (enc (al_server acc)) # trace_events enc t
     | _ \<Rightarrow> trace_events enc t)"

lemma trace_events_ok: "\<forall>ss. length (enc ss) = SS_SIZE \<Longrightarrow> \<forall>ev \<in> set (trace_events enc t). event_ok ev"
  by (induction t) (auto split: sys.split)

lemma printf_defined:
  "printf time_format (tm_args t) \<noteq> None"
  by (simp add: time_format_def tm_args_def)

lemma write_error_defined: "write_error code t \<noteq> None \<longleftrightarrow> unat code < 20"
proof -
  have "\<forall>s \<in> set error_strings. printf (time_format @ ''%s'' @ [CHR 0x0A]) (tm_args t @ [Str s]) \<noteq> None"
    by (simp add: time_format_def tm_args_def)
  moreover have "length error_strings = 20" by (simp add: error_strings_def)
  ultimately show ?thesis
    by (auto simp: write_error_def mem_get_def Option.bind_eq_Some_conv)
qed

lemma write_access_defined:
  "write_access ntop6 uninit code client server t \<noteq> None \<longleftrightarrow> unat code < 14"
proof -
  have fmt: "\<forall>f \<in> set access_formats. printf f [Str a, Num p, Str b, Num q] \<noteq> None" for a b p q
    by (simp add: access_formats_def)
  have "length access_formats = 14" by (simp add: access_formats_def)
  with fmt show ?thesis
    using printf_defined [of t]
    by (auto simp: write_access_def mem_get_def Option.bind_eq_Some_conv case_prod_unfold Let_def)
qed

section \<open>Properties\<close>

text \<open>
  C21: the log protocol is a round trip. Whatever sequence of entries the event loop writes to
  the pipe, the logger thread reads back those entries in that order, and nothing else.
\<close>

theorem log_roundtrip:
  assumes "\<forall>ev \<in> set evs. event_ok ev"
  shows "logger_loop (concat (map event_msg evs)) = Some (map event_record evs, False) \<and>
    logger_loop (concat (map event_msg evs) @ log_sig_join_msg @ rest) = Some (map event_record evs, True)"
proof
  show "logger_loop (concat (map event_msg evs)) = Some (map event_record evs, False)"
    by (rule log.loop_all [OF assms])
  have "logger_loop (log_sig_join_msg @ rest) = Some ([], True)"
    by (simp add: logger_loop.simps [of "_ # _"] log_sig_join_msg_def read_record_def log_types)
  then show "logger_loop (concat (map event_msg evs) @ log_sig_join_msg @ rest) = Some (map event_record evs, True)"
    using log.loop_msgs [OF assms] by simp
qed

lemma log_roundtrip_witness:
  "logger_loop (concat (map event_msg [Ev_error L_LISTENINIT, Ev_access A_COMMCONN (replicate 128 1) (replicate 128 0)])) =
     Some (map event_record [Ev_error L_LISTENINIT, Ev_access A_COMMCONN (replicate 128 1) (replicate 128 0)], False) \<and>
   logger_loop (concat (map event_msg [Ev_error L_LISTENINIT, Ev_access A_COMMCONN (replicate 128 1) (replicate 128 0)])
       @ log_sig_join_msg @ []) =
     Some (map event_record [Ev_error L_LISTENINIT, Ev_access A_COMMCONN (replicate 128 1) (replicate 128 0)], True)"
  by (rule log_roundtrip) (simp add: SS_SIZE_def)

text \<open>
  C40: custom messages are not read back. The reader takes one byte more than was written: a
  message alone in the pipe is dropped, and one that is followed by another message swallows
  the first byte of that message, whose rest is then read as a message of its own.
\<close>

theorem custom_message_overreads:
  assumes "length str \<le> 252" and "log_custom_msg str (of_nat (length str)) dest = Some msg" and "unat dest < 2"
  shows "logger_loop msg = Some ([], False) \<and>
    logger_loop (msg @ b # rest) =
      map_option (\<lambda>(rs, joined). (Rec_custom dest (takeWhile (\<lambda>b. b \<noteq> 0) str) # rs, joined)) (logger_loop rest)"
proof -
  define n :: byte where "n = of_nat (length str)"
  have n: "unat n = length str" using assms(1) by (simp add: n_def unat_of_nat take_bit_nat_eq_self)
  have msg: "msg = [LOG_CUSTOM, dest, n] @ str"
    using assms(1,2) n by (simp add: log_custom_msg_def mem_read_def flip: n_def)
  have n1: "unat (n + 1) = length str + 1"
    using assms(1) n by (simp add: unat_word_ariths(1))
  have "n + 1 \<noteq> 0" using n1 by auto
  have short: "read_custom (dest # n # str) = Some (Rec_nothing, [])"
    using n1 by (simp add: read_custom_def Let_def)
  have long: "read_custom (dest # n # str @ b # rest) = Some (Rec_custom dest (takeWhile (\<lambda>b. b \<noteq> 0) str), rest)"
    using n1 assms(3) by (simp add: read_custom_def Let_def)
  show ?thesis
    by (cases "logger_loop rest")
      (auto simp: logger_loop.simps [of "_ # _"] msg read_record_def log_types short long)
qed

lemma custom_message_overreads_witness:
  "logger_loop ([LOG_CUSTOM, 1, 2] @ [0x68, 0x69]) = Some ([], False) \<and>
   logger_loop (([LOG_CUSTOM, 1, 2] @ [0x68, 0x69]) @ LOG_ERROR # [L_LISTENINIT]) =
     map_option (\<lambda>(rs, joined). (Rec_custom 1 (takeWhile (\<lambda>b. b \<noteq> 0) [0x68, 0x69]) # rs, joined)) (logger_loop [L_LISTENINIT])"
  by (rule custom_message_overreads) (simp_all add: log_custom_msg_def mem_read_def)

text \<open>
  The codes of the log. A line is written for exactly the codes that have a text, the 20
  error codes and the 14 access codes; any other code is an access outside the table.
\<close>

lemma log_codes_bounds:
  "(write_error code t \<noteq> None \<longleftrightarrow> unat code < 20) \<and>
   (write_access ntop6 uninit code client server t \<noteq> None \<longleftrightarrow> unat code < 14)"
  by (intro conjI write_error_defined write_access_defined)

text \<open>
  The address in the access log is wrong. For an IPv4 client the line shows the family and
  the port of the socket address as the IP address and the port with its bytes swapped; the
  address of the client does not occur in it.
\<close>

lemma access_log_ignores_address:
  "get_ip_port ntop6 uninit ([2, 0, p, q] @ addr @ padding) =
    (''2.0.'' @ decimal (unat p) @ ''.'' @ decimal (unat q), uint p + 256 * uint q)"
  by (simp add: get_ip_port_def ss_family_def le16_def AF_INET_def ntop4_def decimal.simps [of 2] decimal.simps [of 0]
      char_of_def bit_0)

end
