(* ===== verification/Server.thy ===== *)
theory Server
  imports Handshake Config_Properties Logger
begin

text \<open>
  \<^verbatim>\<open>src/socksprox.c\<close>: the start of the server and its event loop over many connections, with the
  start of the logger and resolver threads. A pointer that epoll returns is a value of
  \<open>ev_ptr\<close>; connections are numbered in the order they were accepted. Every event carries the
  system it meets.
\<close>

section \<open>Start-up\<close>

text \<open>\<open>thread\<close> is the result of \<^verbatim>\<open>pthread_create\<close>; the flags are the success of \<^verbatim>\<open>pipe2\<close>.\<close>

definition init_logger :: "bool \<Rightarrow> int \<Rightarrow> int" where
  "init_logger pipe_ok thread = (if \<not> pipe_ok then -1 else thread)"

definition init_resolver :: "os \<Rightarrow> bool \<Rightarrow> bool \<Rightarrow> fd \<Rightarrow> int \<Rightarrow> conn \<Rightarrow> int \<times> conn" where
  "init_resolver e in_ok out_ok rout_pipe thread c =
    (if \<not> in_ok then (-1, c)
     else if \<not> out_ok then (-1, c)
     else let (ret, c) = ep_add_resolver e rout_pipe c in
       if ret = -1 then (-1, c) else (thread, c))"

text \<open>What start-up meets: the file, and the results of the calls that are not on a connection.\<close>

record boot =
  bt_env :: conf_env
  bt_input :: "char list option"
  bt_junk :: mem
  bt_logger_pipe :: bool
  bt_logger_thread :: int
  bt_events :: bool
  bt_epoll :: bool
  bt_os :: os
  bt_in_pipe :: bool
  bt_out_pipe :: bool
  bt_rout :: fd
  bt_resolver_thread :: int

text \<open>
  The server: its configuration, the connections, and a trace of the calls \<^verbatim>\<open>main\<close> itself makes
  (kept in a \<open>conn\<close> without objects). The result of start-up is the exit code or the server.
\<close>

record server =
  sv_configs :: Configs
  sv_conns :: "conn list"
  sv_main :: conn

datatype started = Exit int conn | Running server

definition start_resolver :: "boot \<Rightarrow> Configs \<Rightarrow> conn \<Rightarrow> Configs \<times> conn" where
  "start_resolver b configs c =
    (if allow_domains configs then
       (let (ret, c) = init_resolver (bt_os b) (bt_in_pipe b) (bt_out_pipe b) (bt_rout b) (bt_resolver_thread b) c in
        if ret \<noteq> 0
        then (configs\<lparr>allow_domains := False\<rparr>, log_error L_NORESOLVER (log_error L_RESOLVERERROR c))
        else (configs, log_error L_RESOLVERSTART c))
     else (configs, log_error L_NORESOLVER c))"

definition main_start :: "boot \<Rightarrow> started option" where
  "main_start b = do {
     (ret, configs) \<leftarrow> parse_configs (bt_env b) (bt_input b) (bt_junk b);
     if ret \<noteq> 0 then Some (Exit 1 no_conn)
     else if init_logger (bt_logger_pipe b) (bt_logger_thread b) \<noteq> 0 then Some (Exit 1 no_conn)
     else
       let c = log_error L_LOGGERSETUP (log_error L_SPSTARTUP no_conn) in
       if \<not> bt_events b then Some (Exit 1 (log_error L_MALLOCERROR c))
       else if \<not> bt_epoll b then Some (Exit 1 (log_error L_EPOLLERROR c))
       else
         let c = log_error L_EPOLLCREATE c;
             (ret, c) = init_listeners (bt_os b) (listen_head configs) c in
         if ret \<noteq> 0 then Some (Exit 1 (log_error L_LISTENERROR c))
         else
           let c = log_error L_LISTENINIT c;
               (configs, c) = start_resolver b configs c in
           Some (Running \<lparr>sv_configs = configs, sv_conns = [], sv_main = c\<rparr>) }"

section \<open>The event loop\<close>

text \<open>
  \<open>Ptr_resolver\<close> carries what the two reads of \<^verbatim>\<open>resolve_ret\<close> return: the result of
  \<^verbatim>\<open>getaddrinfo\<close> and the connection, a read that is short, or one that fails. The result \<open>-1\<close> of a
  failed read is not less than the unsigned \<^verbatim>\<open>sizeof\<close>, so the null pointer is used then.
\<close>

datatype rout_read = Rout_msg int nat | Rout_short | Rout_failed

datatype ev_ptr = Ptr_null | Ptr_listener fd | Ptr_peer nat side | Ptr_resolver rout_read

definition main_log :: "byte \<Rightarrow> server \<Rightarrow> server" where
  "main_log code = sv_main_update (log_error code)"

definition set_conn :: "nat \<Rightarrow> conn \<Rightarrow> server \<Rightarrow> server" where
  "set_conn i c = sv_conns_update (\<lambda>cs. cs[i := c])"

text \<open>One event. The flag says that \<^verbatim>\<open>main\<close> returns \<open>1\<close> (the pending log entries are written first).\<close>

definition main_event :: "os \<Rightarrow> ev_ptr \<Rightarrow> 32 word \<Rightarrow> server \<Rightarrow> (bool \<times> server) option" where
  "main_event e ptr ev sv =
    (case ptr of
       Ptr_null \<Rightarrow> Some (False, main_log L_EPOLLDATANULL sv)
     | Ptr_listener fd \<Rightarrow>
         if ev AND EPOLLIN \<noteq> 0 then
           (case accept_new_client e fd of (ret, c) \<Rightarrow>
              if ret = -1 then Some (False, main_log L_NEWCLIENTFAIL sv)
              else Some (False, sv_conns_update (\<lambda>cs. cs @ [c]) sv))
         else Some (True, main_log L_LISTENERROR sv)
     | Ptr_peer i d \<Rightarrow> do {
         c \<leftarrow> mem_get (sv_conns sv) i;
         _ \<leftarrow> get_data d c;
         (if ev AND (EPOLLIN OR EPOLLOUT) \<noteq> 0 then do {
            (_, c) \<leftarrow> socks5 e d ev (sv_configs sv) c;
            Some (False, set_conn i c sv) }
          else Some (False, sv)) }
     | Ptr_resolver Rout_short \<Rightarrow> Some (False, sv)
     | Ptr_resolver Rout_failed \<Rightarrow> None
     | Ptr_resolver (Rout_msg gai_ret i) \<Rightarrow> do {
         c \<leftarrow> mem_get (sv_conns sv) i;
         c \<leftarrow> resolve_ret gai_ret c;
         (_, c) \<leftarrow> socks5 e Client EPOLLIN (sv_configs sv) c;
         Some (False, set_conn i c sv) })"

text \<open>The events of one \<^verbatim>\<open>epoll_wait\<close>, in order.\<close>

type_synonym main_ev = "os \<times> ev_ptr \<times> 32 word"

fun main_batch :: "main_ev list \<Rightarrow> server \<Rightarrow> (bool \<times> server) option" where
  "main_batch [] sv = Some (False, sv)"
| "main_batch ((e, ptr, ev) # evs) sv = do {
     (stop, sv) \<leftarrow> main_event e ptr ev sv;
     if stop then Some (True, sv) else main_batch evs sv }"

text \<open>The loop over the results of \<^verbatim>\<open>epoll_wait\<close>; \<open>None\<close> is its failure.\<close>

fun main_loop :: "main_ev list option list \<Rightarrow> server \<Rightarrow> (bool \<times> server) option" where
  "main_loop [] sv = Some (False, sv)"
| "main_loop (None # waits) sv = Some (True, main_log L_EPOLLWAITERROR sv)"
| "main_loop (Some evs # waits) sv = do {
     (stop, sv) \<leftarrow> main_batch evs sv;
     if stop then Some (True, sv) else main_loop waits sv }"

section \<open>The invariant of the server\<close>

definition server_inv :: "server \<Rightarrow> bool" where
  "server_inv sv \<longleftrightarrow> (\<forall>c \<in> set (sv_conns sv). reachable (sv_configs sv) c)"

definition live :: "server \<Rightarrow> nat \<times> side \<Rightarrow> bool" where
  "live sv p \<longleftrightarrow> (case p of (i, d) \<Rightarrow> i < length (sv_conns sv) \<and> get_data d (sv_conns sv ! i) \<noteq> None)"

fun peers :: "main_ev list \<Rightarrow> (nat \<times> side) list" where
  "peers [] = []"
| "peers ((e, Ptr_peer i d, ev) # evs) = (i, d) # peers evs"
| "peers ((e, ptr, ev) # evs) = peers evs"

text \<open>The environment of an event, and of a batch along its run. Names are not resolved.\<close>

fun event_env :: "os \<Rightarrow> ev_ptr \<Rightarrow> server \<Rightarrow> bool" where
  "event_env e Ptr_null sv = True"
| "event_env e (Ptr_listener fd) sv = accept_ok e"
| "event_env e (Ptr_peer i d) sv = (well_formed (sv_conns sv ! i) \<longrightarrow> env_ok e (sv_configs sv) (sv_conns sv ! i))"
| "event_env e (Ptr_resolver r) sv = (r = Rout_short)"

fun batch_env :: "main_ev list \<Rightarrow> server \<Rightarrow> bool" where
  "batch_env [] sv = True"
| "batch_env ((e, ptr, ev) # evs) sv \<longleftrightarrow> event_env e ptr sv \<and>
     (case main_event e ptr ev sv of None \<Rightarrow> True | Some (stop, sv') \<Rightarrow> stop \<or> batch_env evs sv')"

text \<open>A step on one side leaves the other side's \<^verbatim>\<open>Data\<close> in place.\<close>

lemma other_side_stays:
  assumes inv: "conn_inv c" and d: "get_data d c \<noteq> None" and env: "well_formed c \<longrightarrow> env_ok e configs c"
    and step: "socks5 e d ev configs c = Some (r, c')" and o: "get_data (other d) c \<noteq> None"
  shows "get_data (other d) c' \<noteq> None"
proof (cases "well_formed c")
  case True
  with live_step [OF inv d env step] have next_ok: "next_ok d (view c) c'" by simp
  from True o obtain fd where fd: "side_fd (other d) (view c) = Some fd"
    by (cases "side_fd (other d) (view c)") (simp_all add: wf_data)
  show ?thesis
  proof (cases "released d (view c) c'")
    case True
    with fd show ?thesis by (simp add: released_def remains_def)
  next
    case False
    with next_ok have "well_formed c'" "v_server (view c) \<noteq> None \<longrightarrow> v_server (view c') \<noteq> None"
      by (simp_all add: next_ok_def)
    with fd show ?thesis by (cases d) (auto simp: wf_client wf_server)
  qed
next
  case False
  with inv consider d' fd where "remains d' fd c" | "gone c" unfolding conn_inv_def by blast
  then show ?thesis
  proof cases
    case (1 d' fd)
    with d o show ?thesis by (cases d; cases d') (simp_all add: remains_def)
  next
    case 2
    with d show ?thesis by (cases d) (simp_all add: gone_def)
  qed
qed

lemma peers_other [simp]: "\<forall>i d. ptr \<noteq> Ptr_peer i d \<Longrightarrow> peers ((e, ptr, ev) # evs) = peers evs"
  by (cases ptr) simp_all

text \<open>One event of a connection: the others stay as they are.\<close>

lemma peer_event:
  assumes inv: "server_inv sv" and live: "live sv (i, d)" and env: "event_env e (Ptr_peer i d) sv"
  shows "\<exists>sv'. main_event e (Ptr_peer i d) ev sv = Some (False, sv') \<and> server_inv sv' \<and>
    sv_configs sv' = sv_configs sv \<and> length (sv_conns sv') = length (sv_conns sv) \<and>
    (\<forall>j. j \<noteq> i \<longrightarrow> sv_conns sv' ! j = sv_conns sv ! j) \<and> (live sv (i, other d) \<longrightarrow> live sv' (i, other d))"
proof -
  let ?c = "sv_conns sv ! i"
  from live have i: "i < length (sv_conns sv)" and data: "get_data d ?c \<noteq> None" by (simp_all add: live_def)
  have reach: "reachable (sv_configs sv) ?c" using inv i by (simp add: server_inv_def)
  have env': "well_formed ?c \<longrightarrow> env_ok e (sv_configs sv) ?c" using env by simp
  have get: "mem_get (sv_conns sv) i = Some ?c" using i by (simp add: mem_get_def)
  show ?thesis
  proof (cases "ev AND (EPOLLIN OR EPOLLOUT) = 0")
    case True
    with get data inv show ?thesis by (auto simp: main_event_def)
  next
    case False
    obtain r c' where step: "socks5 e d ev (sv_configs sv) ?c = Some (r, c')"
      using socks5_step [OF reachable_inv [OF reach] data env'] unfolding wp_iff by force
    have new: "reachable (sv_configs sv) c'" by (rule reachable.event [OF reach data env' step])
    have "main_event e (Ptr_peer i d) ev sv = Some (False, set_conn i c' sv)"
      using False get data step by (auto simp: main_event_def)
    moreover have "server_inv (set_conn i c' sv)"
      using inv new set_update_subset_insert [of "sv_conns sv" i c'] by (auto simp: server_inv_def set_conn_def)
    moreover have "live (set_conn i c' sv) (i, other d)" if "live sv (i, other d)"
      using that i other_side_stays [OF reachable_inv [OF reach] data env' step]
      by (simp add: live_def set_conn_def)
    ultimately show ?thesis by (auto simp: set_conn_def)
  qed
qed

lemma other_event:
  assumes inv: "server_inv sv" and env: "event_env e ptr sv" and ptr: "\<forall>i d. ptr \<noteq> Ptr_peer i d"
  shows "\<exists>stop sv'. main_event e ptr ev sv = Some (stop, sv') \<and> server_inv sv' \<and>
    sv_configs sv' = sv_configs sv \<and> (\<exists>cs. sv_conns sv' = sv_conns sv @ cs)"
proof (cases ptr)
  case (Ptr_listener fd)
  obtain ret c where acc: "accept_new_client e fd = (ret, c)" by (cases "accept_new_client e fd")
  have "ret = -1 \<or> ret = 0"
    using acc by (auto simp: accept_new_client_def Let_def split: option.splits prod.splits if_splits)
  with Ptr_listener inv env acc show ?thesis
    by (auto simp: main_event_def main_log_def server_inv_def intro: reachable.accept)
next
  case (Ptr_resolver r)
  with inv env show ?thesis by (auto simp: main_event_def)
qed (use inv ptr in \<open>auto simp: main_event_def main_log_def server_inv_def\<close>)

section \<open>A batch of events\<close>

lemma main_batch_safe:
  assumes "server_inv sv" and "distinct (peers evs)" and "\<forall>p \<in> set (peers evs). live sv p" and "batch_env evs sv"
  shows "\<exists>stop sv'. main_batch evs sv = Some (stop, sv') \<and> server_inv sv' \<and>
    (\<forall>i < length (sv_conns sv). i \<notin> fst ` set (peers evs) \<longrightarrow> sv_conns sv' ! i = sv_conns sv ! i)"
  using assms
proof (induction evs arbitrary: sv)
  case Nil
  then show ?case by auto
next
  case (Cons x evs)
  obtain e ptr ev where x: "x = (e, ptr, ev)" by (cases x)
  show ?case
  proof (cases "\<exists>i d. ptr = Ptr_peer i d")
    case True
    then obtain i d where ptr: "ptr = Ptr_peer i d" by blast
    have live: "live sv (i, d)" and env: "event_env e (Ptr_peer i d) sv"
      using Cons.prems(3,4) x ptr by simp_all
    from peer_event [OF Cons.prems(1) live env, of ev] obtain sv' where
      step: "main_event e ptr ev sv = Some (False, sv')" "server_inv sv'" "length (sv_conns sv') = length (sv_conns sv)"
      and others: "\<forall>j. j \<noteq> i \<longrightarrow> sv_conns sv' ! j = sv_conns sv ! j"
      and side: "live sv (i, other d) \<longrightarrow> live sv' (i, other d)" unfolding ptr by blast
    have "live sv' p" if "p \<in> set (peers evs)" for p
    proof -
      obtain j d' where p: "p = (j, d')" by (cases p)
      have old: "live sv (j, d')" using that p x ptr Cons.prems(3) by simp
      have "j \<noteq> i \<or> d' = other d"
        using that p x ptr Cons.prems(2) by (cases d; cases d') auto
      with old side others step(3) show ?thesis by (auto simp: p live_def)
    qed
    with Cons.IH [OF step(2)] Cons.prems(2,4) x ptr step(1)
    obtain stop sv'' where rest: "main_batch evs sv' = Some (stop, sv'')" "server_inv sv''"
      "\<forall>i < length (sv_conns sv'). i \<notin> fst ` set (peers evs) \<longrightarrow> sv_conns sv'' ! i = sv_conns sv' ! i" by auto
    with step others x ptr show ?thesis by simp
  next
    case False
    then have ptr: "\<forall>i d. ptr \<noteq> Ptr_peer i d" by blast
    have env: "event_env e ptr sv" using Cons.prems(4) x by simp
    from other_event [OF Cons.prems(1) env ptr, of ev] obtain stop sv' cs where
      step: "main_event e ptr ev sv = Some (stop, sv')" "server_inv sv'" "sv_conns sv' = sv_conns sv @ cs" by blast
    show ?thesis
    proof (cases stop)
      case True
      with step x show ?thesis by (auto simp: nth_append)
    next
      case go: False
      have "\<forall>p \<in> set (peers evs). live sv' p"
        using Cons.prems(3) x ptr step(3) by (auto simp: live_def nth_append split: prod.splits)
      with Cons.IH [OF step(2)] Cons.prems(2,4) x ptr step(1) go
      obtain stop' sv'' where rest: "main_batch evs sv' = Some (stop', sv'')" "server_inv sv''"
        "\<forall>i < length (sv_conns sv'). i \<notin> fst ` set (peers evs) \<longrightarrow> sv_conns sv'' ! i = sv_conns sv' ! i" by auto
      have "sv_conns sv'' ! i = sv_conns sv ! i" if "i < length (sv_conns sv)" "i \<notin> fst ` set (peers evs)" for i
        using rest(3) that step(3) by (simp add: nth_append)
      with rest step go x ptr show ?thesis by simp
    qed
  qed
qed

section \<open>The whole run\<close>

text \<open>The environment of a run: every batch is for distinct live \<^verbatim>\<open>Data\<close>.\<close>

fun loop_env :: "main_ev list option list \<Rightarrow> server \<Rightarrow> bool" where
  "loop_env [] sv = True"
| "loop_env (None # waits) sv = True"
| "loop_env (Some evs # waits) sv \<longleftrightarrow> distinct (peers evs) \<and> (\<forall>p \<in> set (peers evs). live sv p) \<and> batch_env evs sv \<and>
     (case main_batch evs sv of None \<Rightarrow> True | Some (stop, sv') \<Rightarrow> stop \<or> loop_env waits sv')"

lemma main_loop_safe:
  "server_inv sv \<Longrightarrow> loop_env waits sv \<Longrightarrow> \<exists>stop sv'. main_loop waits sv = Some (stop, sv') \<and> server_inv sv'"
proof (induction waits sv rule: main_loop.induct)
  case (1 sv)
  then show ?case by auto
next
  case (2 waits sv)
  then show ?case by (auto simp: main_log_def server_inv_def)
next
  case (3 evs waits sv)
  then obtain stop sv' where batch: "main_batch evs sv = Some (stop, sv')" "server_inv sv'"
    using main_batch_safe [of sv evs] by auto
  then show ?case
    using 3 by (cases stop) auto
qed

lemma listeners_bound:
  assumes "listeners_loop e ls c = (0, c')"
  shows "(\<exists>t. c_trace c' = c_trace c @ t) \<and>
    (\<forall>l \<in> set ls. \<exists>fd. Sys_bind fd (sl_sa l) True \<in> set (c_trace c') \<and>
      Sys_epoll_ctl EPOLL_CTL_ADD fd EPOLLIN Listener_data True \<in> set (c_trace c'))"
  using assms
proof (induction ls arbitrary: c)
  case Nil
  then show ?case by simp
next
  case (Cons l ls)
  from Cons.prems obtain fd where fd: "os_socket e (now c) = Some fd"
    by (auto simp: sys_socket_def Let_def split: option.splits)
  with Cons.prems obtain c1 where rest: "listeners_loop e ls c1 = (0, c')"
    and c1: "\<exists>t. c_trace c1 = c_trace c @ t" "Sys_bind fd (sl_sa l) True \<in> set (c_trace c1)"
      "Sys_epoll_ctl EPOLL_CTL_ADD fd EPOLLIN Listener_data True \<in> set (c_trace c1)"
    by (auto simp: sys_defs v6flag_def ep_add_listener_def Let_def split: option.splits if_splits prod.splits)
  with Cons.IH [OF rest] show ?case by auto
qed

lemma start_resolver_configs:
  "start_resolver b configs c = (configs', c') \<Longrightarrow>
    (configs' = configs \<or> configs' = configs\<lparr>allow_domains := False\<rparr>) \<and>
    (allow_domains configs' \<longrightarrow> bt_resolver_thread b = 0) \<and> (\<exists>t. c_trace c' = c_trace c @ t)"
  by (auto simp: start_resolver_def init_resolver_def ep_add_resolver_def sys_defs Let_def log_error_def
      split: if_splits prod.splits)

section \<open>A concrete server\<close>

definition demo_boot :: boot where
  "demo_boot = \<lparr>bt_env = demo_env, bt_input = Some (print_doc demo_doc), bt_junk = replicate 255 nul,
    bt_logger_pipe = True, bt_logger_thread = 0, bt_events = True, bt_epoll = True, bt_os = demo_os 5 [],
    bt_in_pipe = True, bt_out_pipe = True, bt_rout = 9, bt_resolver_thread = 0\<rparr>"

lemma demo_accepted: "conf_error_check (meaning demo_env demo_doc zero_configs) = 0"
proof -
  have "(\<Sum>m \<leftarrow> (replicate 255 0)[unat (0 :: byte) := (1 :: byte)]. uint m) \<noteq> 0"
    by (simp add: numeral_eq_Suc)
  then have "conf_errors (meaning demo_env demo_doc zero_configs) = []"
    by (simp add: conf_errors_def meaning_def demo_doc_def zero_configs_def c_buffer_def nodes_def resolved_def demo_env_def)
  then show ?thesis by (simp add: conf_error_check_def)
qed

lemma demo_start: "\<exists>sv. main_start demo_boot = Some (Running sv)"
proof -
  have parse: "parse_configs demo_env (Some (print_doc demo_doc)) (replicate 255 nul) =
      Some (0, meaning demo_env demo_doc zero_configs)"
    using parse_print [OF demo_env_ok(1) demo_doc_ok, of "replicate 255 nul"] demo_accepted by simp
  have "listen_head (meaning demo_env demo_doc zero_configs) =
      [\<lparr>sl_addrlen = 16, sl_sa = SIN [10, 0, 0, 0] [0, 0]\<rparr>]"
    by (simp add: meaning_def demo_doc_def zero_configs_def nodes_def resolved_def demo_env_def ai_addrlen_def)
  moreover have "\<exists>c'. init_listeners (demo_os 5 []) [\<lparr>sl_addrlen = 16, sl_sa = SIN [10, 0, 0, 0] [0, 0]\<rparr>] c = (0, c')" for c
    by (simp add: init_listeners_def sys_defs ep_add_listener_def demo_os_def Let_def AF_INET_def AF_INET6_def)
  moreover define c where "c = log_error L_EPOLLCREATE (log_error L_LOGGERSETUP (log_error L_SPSTARTUP no_conn))"
  ultimately obtain c' where "init_listeners (demo_os 5 []) (listen_head (meaning demo_env demo_doc zero_configs)) c = (0, c')"
    by auto
  then show ?thesis
    by (simp add: main_start_def demo_boot_def parse init_logger_def c_def case_prod_unfold Let_def)
qed

definition one_client :: server where
  "one_client = \<lparr>sv_configs = demo_configs, sv_conns = [demo_conn], sv_main = no_conn\<rparr>"

definition demo_batch :: "main_ev list" where
  "demo_batch = [(demo_os 6 [5, 1, 0], Ptr_peer 0 Client, EPOLLIN), (demo_os 6 [], Ptr_listener 3, EPOLLIN)]"

lemma one_client_inv: "server_inv one_client" "live one_client (0, Client)"
  using demo_reachable demo_state(4) by (simp_all add: one_client_def server_inv_def live_def)

lemma demo_accept_6: "accept_ok (demo_os 6 bs)"
  by (simp add: accept_ok_def demo_os_def)

lemma demo_batch_env: "batch_env demo_batch one_client"
  using demo_env [of "[5, 1, 0]"] demo_accept_6
  by (auto simp: demo_batch_def one_client_def split: option.split)

section \<open>Properties\<close>



text \<open>
  C25: a server that starts is ready. Its configuration was accepted by the check and is
  well-formed, every configured address is bound and registered with epoll, and names are
  only allowed when the resolver thread runs.
\<close>

theorem start_ready:
  assumes gai: "gai_ok (bt_env b)" and start: "main_start b = Some (Running sv)"
  shows "configs_inv (sv_configs sv) \<and> configs_ok (sv_configs sv) \<and> listen_head (sv_configs sv) \<noteq> [] \<and>
    1 \<in> set (cf_methods (sv_configs sv)) \<and> sv_conns sv = [] \<and>
    (allow_domains (sv_configs sv) \<longrightarrow> bt_resolver_thread b = 0) \<and>
    (\<forall>l \<in> set (listen_head (sv_configs sv)). \<exists>fd. Sys_bind fd (sl_sa l) True \<in> set (c_trace (sv_main sv)) \<and>
      Sys_epoll_ctl EPOLL_CTL_ADD fd EPOLLIN Listener_data True \<in> set (c_trace (sv_main sv)))"
proof -
  from start obtain configs c c1 c2 where parse: "parse_configs (bt_env b) (bt_input b) (bt_junk b) = Some (0, configs)"
    and listen: "init_listeners (bt_os b) (listen_head configs) c = (0, c1)"
    and res: "start_resolver b configs (log_error L_LISTENINIT c1) = (sv_configs sv, c2)"
    and sv: "sv_conns sv = []" "sv_main sv = c2"
    by (auto simp: main_start_def Option.bind_eq_Some_conv Let_def split: if_splits prod.splits)
  have cf: "sv_configs sv = configs \<or> sv_configs sv = configs\<lparr>allow_domains := False\<rparr>"
    and dom: "allow_domains (sv_configs sv) \<longrightarrow> bt_resolver_thread b = 0"
    and c2: "\<exists>t. c_trace c2 = c_trace (log_error L_LISTENINIT c1) @ t"
    using start_resolver_configs [OF res] by blast+
  have loop: "listeners_loop (bt_os b) (listen_head configs) c = (0, c1)" and "listen_head configs \<noteq> []"
    using listen by (auto simp: init_listeners_def split: if_splits)
  moreover have "\<exists>fd. Sys_bind fd (sl_sa l) True \<in> set (c_trace c2) \<and>
      Sys_epoll_ctl EPOLL_CTL_ADD fd EPOLLIN Listener_data True \<in> set (c_trace c2)" if "l \<in> set (listen_head configs)" for l
    using listeners_bound [OF loop] that c2 by (fastforce simp: log_error_def)
  moreover have "configs_inv configs" "1 \<in> set (cf_methods configs)"
    using accepted_configs [OF gai parse] by blast+
  ultimately show ?thesis
    using cf dom sv by (auto simp: configs_inv_def configs_ok_def addrs_wf_def)
qed

lemma start_ready_witness:
  "\<exists>sv. main_start demo_boot = Some (Running sv) \<and>
    configs_inv (sv_configs sv) \<and> configs_ok (sv_configs sv) \<and> listen_head (sv_configs sv) \<noteq> [] \<and>
    1 \<in> set (cf_methods (sv_configs sv)) \<and> sv_conns sv = [] \<and>
    (allow_domains (sv_configs sv) \<longrightarrow> bt_resolver_thread demo_boot = 0) \<and>
    (\<forall>l \<in> set (listen_head (sv_configs sv)). \<exists>fd. Sys_bind fd (sl_sa l) True \<in> set (c_trace (sv_main sv)) \<and>
      Sys_epoll_ctl EPOLL_CTL_ADD fd EPOLLIN Listener_data True \<in> set (c_trace (sv_main sv)))"
proof -
  obtain sv where start: "main_start demo_boot = Some (Running sv)" using demo_start by blast
  have "gai_ok (bt_env demo_boot)" using demo_env_ok(2) by (simp add: demo_boot_def)
  from start_ready [OF this start] start show ?thesis by blast
qed



end
