(* ===== verification/Traces.thy ===== *)
theory Traces
  imports Socks
begin

text \<open>
  What a connection does to the world, whatever the world answers: from any point on, its calls
  name only descriptors it held at that point or that its own \<^verbatim>\<open>accept\<close> and \<^verbatim>\<open>socket\<close> calls
  returned after it, and its log entries have codes with a text. The rules of the collection
  \<open>trace_rules\<close> carry this through every function of the handlers, with no hypothesis on the system.
\<close>

named_theorems trace_rules \<open>operations that keep the discipline of a trace\<close>

section \<open>The discipline of a trace\<close>

text \<open>The descriptors a call returns, and those it is made on.\<close>

fun gives :: "sys \<Rightarrow> fd list" where
  "gives (Sys_socket af ty (Some fd)) = [fd]"
| "gives (Sys_accept l (Some (fd, ss))) = [fd]"
| "gives a = []"

fun uses :: "sys \<Rightarrow> fd list" where
  "uses (Sys_recv fd n r) = [fd]"
| "uses (Sys_send fd bs r) = [fd]"
| "uses (Sys_shutdown fd w) = [fd]"
| "uses (Sys_close fd) = [fd]"
| "uses (Sys_epoll_ctl op fd evs ptr r) = [fd]"
| "uses (Sys_nonblock fd) = [fd]"
| "uses (Sys_connect fd sa r) = [fd]"
| "uses (Sys_bind fd sa r) = [fd]"
| "uses (Sys_listen fd r) = [fd]"
| "uses (Sys_accept fd r) = [fd]"
| "uses (Sys_getsockname fd r) = [fd]"
| "uses (Sys_getsockopt fd r) = [fd]"
| "uses (Sys_setsockopt fd r) = [fd]"
| "uses a = []"

fun loggable :: "sys \<Rightarrow> bool" where
  "loggable (Sys_log_error code) = (unat code < 20)"
| "loggable (Sys_log_access code acc) = (unat code < 14)"
| "loggable a = True"

text \<open>\<open>S\<close> are the descriptors obtained so far; \<open>-1\<close>, the value of a missing one, is never open.\<close>

fun disciplined :: "fd list \<Rightarrow> sys list \<Rightarrow> bool" where
  "disciplined S [] = True"
| "disciplined S (a # t) \<longleftrightarrow> set (uses a) \<subseteq> insert (-1) (set S) \<and> loggable a \<and> disciplined (gives a @ S) t"

definition obtained :: "sys list \<Rightarrow> fd list" where
  "obtained t = concat (map gives t)"

lemma obtained_simps [simp]: "obtained [] = []" "obtained (t @ u) = obtained t @ obtained u" "obtained [a] = gives a"
  by (simp_all add: obtained_def)

lemma disciplined_snoc:
  "disciplined S (t @ [a]) \<longleftrightarrow>
    disciplined S t \<and> set (uses a) \<subseteq> insert (-1) (set S \<union> set (obtained t)) \<and> loggable a"
  by (induction t arbitrary: S) (auto simp: obtained_def)

text \<open>
  The descriptors a connection may name at a point: those in \<open>S\<close>, which it had after the calls \<open>T\<close>, and
  those it obtained since; \<open>traced\<close> is the invariant of the calls since then.
\<close>

definition own :: "fd list \<Rightarrow> sys list \<Rightarrow> conn \<Rightarrow> fd \<Rightarrow> bool" where
  "own S T c fd \<longleftrightarrow> fd \<in> insert (-1) (set S \<union> set (obtained (drop (length T) (c_trace c))))"

definition traced :: "fd list \<Rightarrow> sys list \<Rightarrow> conn \<Rightarrow> bool" where
  "traced S T c \<longleftrightarrow> take (length T) (c_trace c) = T \<and> disciplined S (drop (length T) (c_trace c)) \<and>
     (\<forall>sh. c_shared c = Some sh \<longrightarrow> own S T c (s_client_fd sh) \<and> own S T c (s_server_fd sh)) \<and>
     (\<forall>dat. c_client c = Some dat \<longrightarrow> own S T c (d_self_fd dat)) \<and>
     (\<forall>dat. c_server c = Some dat \<longrightarrow> own S T c (d_self_fd dat))"

lemma traced_length:
  assumes "traced S T c"
  shows "length T \<le> length (c_trace c)"
proof -
  have "length (take (length T) (c_trace c)) = length T" using assms by (simp add: traced_def)
  then show ?thesis by simp
qed

lemma own_emit [simp]:
  "own S T c fd \<Longrightarrow> own S T (emit a c) fd"
  "traced S T c \<Longrightarrow> fd \<in> set (gives a) \<Longrightarrow> own S T (emit a c) fd"
  using traced_length [of S T c] by (auto simp: own_def)

lemma own_simps [simp]:
  "own S T (c\<lparr>c_shared := s\<rparr>) fd = own S T c fd" "own S T (c\<lparr>c_client := x\<rparr>) fd = own S T c fd"
  "own S T (c\<lparr>c_server := x\<rparr>) fd = own S T c fd" "own S T c (-1)" "own S T (put_data d x c) fd = own S T c fd"
  by (auto simp: own_def put_data_def split: side.split)

lemma traced_emit [simp]:
  assumes "traced S T c" and "\<forall>fd \<in> set (uses a). own S T c fd" and "loggable a"
  shows "traced S T (emit a c)"
proof -
  have "drop (length T) (c_trace (emit a c)) = drop (length T) (c_trace c) @ [a]"
    and "take (length T) (c_trace (emit a c)) = T"
    using traced_length [OF assms(1)] assms(1) by (simp_all add: traced_def)
  moreover from this have "disciplined S (drop (length T) (c_trace (emit a c)))"
    using assms by (auto simp: disciplined_snoc traced_def own_def)
  ultimately show ?thesis using assms(1) unfolding traced_def by (auto simp: traced_def)
qed

lemma traced_parts [simp]:
  "traced S T c \<Longrightarrow> own S T c (s_client_fd sh) \<Longrightarrow> own S T c (s_server_fd sh) \<Longrightarrow> traced S T (c\<lparr>c_shared := Some sh\<rparr>)"
  "traced S T c \<Longrightarrow> traced S T (c\<lparr>c_shared := None\<rparr>)"
  "traced S T c \<Longrightarrow> own S T c (d_self_fd dat) \<Longrightarrow> traced S T (c\<lparr>c_client := Some dat\<rparr>)"
  "traced S T c \<Longrightarrow> own S T c (d_self_fd dat) \<Longrightarrow> traced S T (c\<lparr>c_server := Some dat\<rparr>)"
  "traced S T c \<Longrightarrow> own S T c (d_self_fd dat) \<Longrightarrow> traced S T (put_data d (Some dat) c)"
  "traced S T c \<Longrightarrow> traced S T (put_data d None c)"
  by (auto simp: traced_def put_data_def own_def split: side.split)

section \<open>The rules for the primitives\<close>

text \<open>An operation is tame when it keeps the invariant and what the connection owns.\<close>

abbreviation (input) grows :: "fd list \<Rightarrow> sys list \<Rightarrow> conn \<Rightarrow> conn \<Rightarrow> bool" where
  "grows S T c c' \<equiv> traced S T c' \<and> (\<forall>fd. own S T c fd \<longrightarrow> own S T c' fd)"

text \<open>The weakest precondition, for the rules of a fixed \<open>S\<close> and \<open>T\<close>.\<close>

definition runs :: "fd list \<Rightarrow> sys list \<Rightarrow> 'a option \<Rightarrow> ('a \<Rightarrow> bool) \<Rightarrow> bool" where
  "runs S T m Q = wlp m Q"

lemma runs_simps [simp]:
  "runs S T (Some x) Q = Q x" "runs S T None Q" "runs S T (Option.bind m f) Q = runs S T m (\<lambda>x. runs S T (f x) Q)"
  by (simp_all add: runs_def)

lemma runs_iff: "runs S T m Q \<longleftrightarrow> (\<forall>x. m = Some x \<longrightarrow> Q x)"
  by (cases m) simp_all

lemma runs_if [trace_rules]: "(b \<Longrightarrow> runs S T m Q) \<Longrightarrow> (\<not> b \<Longrightarrow> runs S T m' Q) \<Longrightarrow> runs S T (if b then m else m') Q"
  by simp

definition tame :: "(conn \<Rightarrow> conn option) \<Rightarrow> bool" where
  "tame f \<longleftrightarrow> (\<forall>S T c. traced S T c \<longrightarrow> runs S T (f c) (\<lambda>c'. grows S T c c'))"

definition tame2 :: "(conn \<Rightarrow> ('a \<times> conn) option) \<Rightarrow> bool" where
  "tame2 f \<longleftrightarrow> (\<forall>S T c. traced S T c \<longrightarrow> runs S T (f c) (\<lambda>x. grows S T c (snd x)))"

lemma tame_rule:
  assumes "tame f" and "traced S T c"
    and "\<And>c'. traced S T c' \<Longrightarrow> \<forall>fd. own S T c fd \<longrightarrow> own S T c' fd \<Longrightarrow> Q c'"
  shows "runs S T (f c) Q"
  using assms by (auto simp: tame_def runs_iff)

lemma tame2_rule:
  assumes "tame2 f" and "traced S T c"
    and "\<And>x. traced S T (snd x) \<Longrightarrow> \<forall>fd. own S T c fd \<longrightarrow> own S T (snd x) fd \<Longrightarrow> Q x"
  shows "runs S T (f c) Q"
  using assms by (auto simp: tame2_def runs_iff)

lemma runs_shared [trace_rules]:
  assumes "traced S T c" and "\<And>sh. own S T c (s_client_fd sh) \<Longrightarrow> own S T c (s_server_fd sh) \<Longrightarrow> Q sh"
  shows "runs S T (c_shared c) Q"
  using assms by (auto simp: runs_iff traced_def)

lemma runs_get_data [trace_rules]:
  assumes "traced S T c" and "\<And>dat. own S T c (d_self_fd dat) \<Longrightarrow> Q dat"
  shows "runs S T (get_data d c) Q"
  using assms by (auto simp: runs_iff traced_def get_data_def split: side.splits)

text \<open>What only reads does not matter.\<close>

lemma runs_reads [trace_rules]:
  "(\<And>x. Q x) \<Longrightarrow> runs S T (peek_client_out k c) Q" "(\<And>x. Q x) \<Longrightarrow> runs S T (peek_server_out k c) Q"
  "(\<And>x. R x) \<Longrightarrow> runs S T (get_info c) R" "(\<And>x. P x) \<Longrightarrow> runs S T (sa_port ss) P" "(\<And>x. P x) \<Longrightarrow> runs S T (mem_read bs i k) P"
  "(\<And>x. U x) \<Longrightarrow> runs S T (select_method ms os) U" "(\<And>x. P x) \<Longrightarrow> runs S T (resolve_msg p q) P"
  "(\<And>x. V x) \<Longrightarrow> runs S T (s_info sh) V" "(\<And>x. W x) \<Longrightarrow> runs S T (write_ringbuff r xs k) W"
  "(\<And>x. W x) \<Longrightarrow> runs S T (consume_ringbuff r k) W"
  by (simp_all add: runs_def wlp_any)

lemma runs_option [trace_rules]:
  "(x = None \<Longrightarrow> runs S T m Q) \<Longrightarrow> (\<And>y. x = Some y \<Longrightarrow> runs S T (f y) Q) \<Longrightarrow> runs S T (case x of None \<Rightarrow> m | Some y \<Rightarrow> f y) Q"
  by (cases x) simp_all

lemma runs_list [trace_rules]:
  "(xs = [] \<Longrightarrow> runs S T m Q) \<Longrightarrow> (\<And>y ys. xs = y # ys \<Longrightarrow> runs S T (f y ys) Q) \<Longrightarrow> runs S T (case xs of [] \<Rightarrow> m | y # ys \<Rightarrow> f y ys) Q"
  by (cases xs) simp_all

lemma runs_sockaddr [trace_rules]:
  "(\<And>a p. runs S T (f a p) Q) \<Longrightarrow> (\<And>a p. runs S T (g a p) Q) \<Longrightarrow> (\<And>k. runs S T (h k) Q) \<Longrightarrow> runs S T (case_sockaddr f g h ss) Q"
  by (cases ss) simp_all

lemmas trace_defs = tame_def tame2_def Let_def case_prod_unfold sys_defs

text \<open>The writes to the objects.\<close>

lemma tame_upd_shared:
  assumes "\<And>sh. s_client_fd (f sh) = s_client_fd sh" and "\<And>sh. s_server_fd (f sh) = s_server_fd sh"
  shows "tame (upd_shared f)"
  by (auto simp: trace_defs upd_shared_def assms intro!: trace_rules)

lemma tame_upd_info: "tame (upd_info f)"
  by (auto simp: trace_defs upd_info_def intro!: trace_rules)

lemma tame_set_state: "tame (set_state st)"
  unfolding set_state_def by (rule tame_upd_shared) simp_all

lemma tame_set_rep: "tame (set_rep r)"
  unfolding set_rep_def by (rule tame_upd_info)

lemma tame_buffers:
  "tame2 (write_client_out xs)" "tame2 (write_server_out xs)" "tame (consume_client_out k)" "tame (consume_server_out k)"
  by (auto simp: trace_defs write_client_out_def write_server_out_def consume_client_out_def consume_server_out_def
      intro!: trace_rules)

lemma tame_log_access: "unat code < 14 \<Longrightarrow> tame (log_access code)"
  by (auto simp: trace_defs log_access_def intro!: trace_rules)

lemmas [trace_rules] = tame_upd_info [THEN tame_rule] tame_set_state [THEN tame_rule] tame_set_rep [THEN tame_rule]
  tame_buffers(1,2) [THEN tame2_rule] tame_buffers(3,4) [THEN tame_rule] tame_log_access [THEN tame_rule]
  tame_upd_shared [THEN tame_rule]

text \<open>The registrations.\<close>

lemma traced_ep [simp]:
  assumes "traced S T c" and "own S T c fd"
  shows "traced S T (snd (ep_add_new_client e fd d c))" and "traced S T (snd (ep_connecting e fd d c))"
    and "traced S T (snd (ep_waiting_send e fd d c))" and "traced S T (snd (ep_done_sending e fd d c))"
    and "traced S T (ep_delete_fd e fd c)"
  using assms by (simp_all add: ep_defs sys_defs Let_def error_codes)

lemma own_ep [simp]:
  assumes "own S T c fd"
  shows "own S T (snd (ep_add_new_client e x d c)) fd" and "own S T (snd (ep_connecting e x d c)) fd"
    and "own S T (snd (ep_waiting_send e x d c)) fd" and "own S T (snd (ep_done_sending e x d c)) fd"
    and "own S T (ep_delete_fd e x c) fd"
  using assms by (simp_all add: ep_defs sys_defs Let_def)

lemma tame_free_data: "tame (free_data d)"
  by (auto simp: trace_defs free_data_def free_buffers_def intro!: trace_rules)

lemmas [trace_rules] = tame_free_data [THEN tame_rule]

section \<open>The commands\<close>

lemma tame_write_rep: "tame (write_rep_info rep)" "tame (write_rep_addr atyp addr port)" "tame2 (wake_client e)"
  by (auto simp: trace_defs write_rep_info_def write_rep_addr_def wake_client_def intro!: trace_rules)

lemmas [trace_rules] = tame_write_rep(1,2) [THEN tame_rule] tame_write_rep(3) [THEN tame2_rule]

lemma runs_link_server [trace_rules]:
  assumes "traced S T c" and "own S T c sfd"
    and "\<And>c'. traced S T c' \<Longrightarrow> \<forall>fd. own S T c fd \<longrightarrow> own S T c' fd \<Longrightarrow> Q c'"
  shows "runs S T (link_server sfd c) Q"
  using assms(1,2) by (auto simp: link_server_def upd_shared_def intro!: trace_rules assms(3))

lemma runs_open_and_connect [trace_rules]:
  assumes "traced S T c"
    and "\<And>x. traced S T (snd x) \<Longrightarrow> \<forall>fd. own S T c fd \<longrightarrow> own S T (snd x) fd \<Longrightarrow>
      \<forall>fd. fst x = Some fd \<longrightarrow> own S T (snd x) fd \<Longrightarrow> Q x"
  shows "runs S T (open_and_connect e af ty sa c) Q"
  using assms(1) by (auto simp: trace_defs open_and_connect_def intro!: trace_rules assms(2))

lemma runs_connect_target [trace_rules]:
  assumes "traced S T c"
    and "\<And>x. traced S T (snd x) \<Longrightarrow> \<forall>fd. own S T c fd \<longrightarrow> own S T (snd x) fd \<Longrightarrow>
      \<forall>fd. fst x = Some fd \<longrightarrow> own S T (snd x) fd \<Longrightarrow> Q x"
  shows "runs S T (connect_target e info c) Q"
  using assms(1) by (auto simp: trace_defs connect_target_def intro!: trace_rules assms(2))

lemma tame_init_connect: "tame (init_connect e)"
  by (auto simp: trace_defs init_connect_def error_codes intro!: trace_rules)

lemma runs_start_reply [trace_rules]:
  assumes "traced S T c" and "own S T c sfd"
    and "\<And>c'. traced S T c' \<Longrightarrow> \<forall>fd. own S T c fd \<longrightarrow> own S T c' fd \<Longrightarrow> Q c'"
  shows "runs S T (start_reply e sfd c) Q"
  using assms(1,2) by (auto simp: trace_defs start_reply_def intro!: trace_rules assms(3))

lemma runs_fail_close [trace_rules]:
  assumes "traced S T c" and "own S T c sfd"
    and "\<And>c'. traced S T c' \<Longrightarrow> \<forall>fd. own S T c fd \<longrightarrow> own S T c' fd \<Longrightarrow> Q c'"
  shows "runs S T (fail_close rep sfd c) Q"
  using assms(1,2) by (auto simp: trace_defs fail_close_def intro!: trace_rules assms(3))

lemma tame_replies: "tame2 (bind_reply e adv ss)" "tame2 (udpa_reply e af node)"
  by (auto simp: trace_defs bind_reply_def udpa_reply_def intro!: trace_rules)

lemmas [trace_rules] = tame_init_connect [THEN tame_rule] tame_replies [THEN tame2_rule]

lemma runs_announce [trace_rules]:
  assumes "traced S T c" and "own S T c sfd"
    and "\<And>c'. traced S T c' \<Longrightarrow> \<forall>fd. own S T c fd \<longrightarrow> own S T c' fd \<Longrightarrow> Q c'"
  shows "runs S T (bind_announce e sfd adv c) Q" and "runs S T (udpa_announce e sfd af node c) Q"
  using assms(1,2) by (auto simp: trace_defs bind_announce_def udpa_announce_def intro!: trace_rules assms(3))

lemma tame_init: "tame (init_bind e configs)" "tame (init_udpa e configs)"
  by (auto simp: trace_defs init_bind_def init_udpa_def error_codes intro!: trace_rules)

lemmas [trace_rules] = tame_init [THEN tame_rule]

section \<open>The handlers\<close>

lemma tame_traffic: "tame2 (send_traffic e fd)" "tame2 (read_traffic e fd)"
  by (auto simp: trace_defs send_traffic_def read_traffic_def intro!: trace_rules)

lemma tame_handshake_err: "tame (handshake_err e d)"
  by (auto simp: trace_defs handshake_err_def access_codes intro!: trace_rules)

lemmas [trace_rules] = tame_traffic [THEN tame2_rule] tame_handshake_err [THEN tame_rule]

lemma tame_reply_with_err: "tame (reply_with_err e d)"
  by (auto simp: trace_defs reply_with_err_def intro!: trace_rules)

lemmas [trace_rules] = tame_reply_with_err [THEN tame_rule]

lemma tame_reply_rep: "tame (reply_rep e d rep)"
  by (auto simp: trace_defs reply_rep_def intro!: trace_rules)

lemmas [trace_rules] = tame_reply_rep [THEN tame_rule]

lemma tame_init_command: "tame (init_command e d configs)"
  by (auto simp: trace_defs init_command_def access_codes intro!: trace_rules)

lemmas [trace_rules] = tame_init_command [THEN tame_rule]

lemma tame_negotiate: "tame (negotiate e d configs version nmethods)" "tame2 (recv_handshake e d)"
    "tame2 (send_handshake e d k)" "tame (method_sent e d)"
  by (auto simp: trace_defs negotiate_def recv_handshake_def send_handshake_def method_sent_def access_codes
      intro!: trace_rules)

lemmas [trace_rules] = tame_negotiate(1,4) [THEN tame_rule] tame_negotiate(2,3) [THEN tame2_rule]

lemma tame_read_methods: "tame (read_methods e d configs)"
  by (auto simp: trace_defs read_methods_def intro!: trace_rules)

lemmas [trace_rules] = tame_read_methods [THEN tame_rule]

lemma tame_methods: "tame (waitingmethods e d configs ev)" "tame (sendingmethod e d ev)"
  by (auto simp: trace_defs waitingmethods_def sendingmethod_def intro!: trace_rules)

lemma tame_resolve: "tame (resolve e input)" "tame (resolve_ret gai_ret)"
  by (auto simp: trace_defs resolve_def resolve_ret_def intro!: trace_rules)

lemma tame_set_sa: "tame (set_sa sa)"
  unfolding set_sa_def by (rule tame_upd_info)

lemma tame_run_command: "tame2 (run_command e d configs)"
  by (auto simp: trace_defs run_command_def access_codes intro!: trace_rules)

lemmas [trace_rules] = tame_methods [THEN tame_rule] tame_resolve [THEN tame_rule] tame_set_sa [THEN tame_rule]
  tame_run_command [THEN tame2_rule]

lemma tame_handle_request: "tame2 (handle_request e d configs req)"
  by (auto simp: trace_defs handle_request_def error_codes access_codes intro!: trace_rules)

lemma tame_resolver_returned: "tame (resolver_returned e d configs)"
  by (auto simp: trace_defs resolver_returned_def intro!: trace_rules)

lemmas [trace_rules] = tame_handle_request [THEN tame2_rule] tame_resolver_returned [THEN tame_rule]

lemma tame_read_request: "tame2 (read_request e d configs)"
  by (auto simp: trace_defs read_request_def intro!: trace_rules)

lemmas [trace_rules] = tame_read_request [THEN tame2_rule]

lemma tame_waitingcommand: "tame2 (waitingcommand e d configs ev)"
  by (auto simp: trace_defs waitingcommand_def intro!: trace_rules)

lemma tame_reply_sent: "tame (reply_sent e d)"
  by (auto simp: trace_defs reply_sent_def access_codes intro!: trace_rules)

lemma tame_set_server_addr: "tame (set_server_addr ss)"
  unfolding set_server_addr_def by (rule tame_upd_shared) simp_all

lemma tame_connect_failed: "tame (connect_failed e d error)"
  by (auto simp: trace_defs connect_failed_def intro!: trace_rules)

lemma tame_connected_reply: "tame (connected_reply e d atyp addr port)"
  by (auto simp: trace_defs connected_reply_def intro!: trace_rules)

lemmas [trace_rules] = tame_waitingcommand [THEN tame2_rule] tame_reply_sent [THEN tame_rule]
  tame_set_server_addr [THEN tame_rule] tame_connect_failed [THEN tame_rule] tame_connected_reply [THEN tame_rule]

lemma tame_sendingreply: "tame (sendingreply e d ev)"
  by (auto simp: trace_defs sendingreply_def intro!: trace_rules)

lemma runs_connect_done [trace_rules]:
  assumes "traced S T c" and "own S T c sfd"
    and "\<And>c'. traced S T c' \<Longrightarrow> \<forall>fd. own S T c fd \<longrightarrow> own S T c' fd \<Longrightarrow> Q c'"
  shows "runs S T (connect_done e d sfd c) Q"
  using assms(1,2) by (auto simp: trace_defs connect_done_def error_codes intro!: trace_rules assms(3))

lemma tame_connecting: "tame (connecting e d ev)"
  by (auto simp: trace_defs connecting_def error_codes intro!: trace_rules)

lemma tame_peer_reply: "tame (peer_reply e d ss)"
  by (auto simp: trace_defs peer_reply_def intro!: trace_rules)

lemmas [trace_rules] = tame_sendingreply [THEN tame_rule] tame_connecting [THEN tame_rule] tame_peer_reply [THEN tame_rule]

lemma runs_set_server_fd [trace_rules]:
  assumes "traced S T c" and "own S T c sfd"
    and "\<And>c'. traced S T c' \<Longrightarrow> \<forall>fd. own S T c fd \<longrightarrow> own S T c' fd \<Longrightarrow> Q c'"
  shows "runs S T (upd_shared (s_server_fd_update (\<lambda>_. sfd)) c) Q"
  using assms(1,2) by (auto simp: upd_shared_def intro!: trace_rules assms(3))

lemma runs_peer_accepted [trace_rules]:
  assumes "traced S T c" and "own S T c sfd"
    and "\<And>c'. traced S T c' \<Longrightarrow> \<forall>fd. own S T c fd \<longrightarrow> own S T c' fd \<Longrightarrow> Q c'"
  shows "runs S T (peer_accepted e d sfd ss c) Q"
  using assms(1,2) by (auto simp: trace_defs peer_accepted_def intro!: trace_rules assms(3))

lemma tame_bindlistening: "tame (bindlistening e d ev)"
  by (auto simp: trace_defs bindlistening_def intro!: trace_rules)

lemma tame_relay: "tame (full e d ev)" "tame half_close" "tame (closed e d)" "tame2 full_udpa"
  by (auto simp: trace_defs full_def half_close_def closed_def full_udpa_def intro!: trace_rules)

lemmas [trace_rules] = tame_bindlistening [THEN tame_rule] tame_relay(1-3) [THEN tame_rule] tame_relay(4) [THEN tame2_rule]

lemma runs_ret0 [trace_rules]: "runs S T m (\<lambda>c. Q (0, c)) \<Longrightarrow> runs S T (ret0 m) Q"
  by (auto simp: runs_iff ret0_def)

lemma tame_socks5: "tame2 (socks5 e d ev configs)"
  by (auto simp: trace_defs socks5_def error_codes split: conn_state.split intro!: trace_rules)

end
