(* ===== verification/Descriptors.thy ===== *)
theory Descriptors
  imports Server Endings Traces
begin

text \<open>
  The descriptors and the log entries of whole runs: what \<open>Traces\<close> shows of one event, over any
  series of events on one connection and over any run of the server, and the descriptors the
  program opens and never closes.
\<close>

section \<open>One connection\<close>

lemma traced_step:
  assumes "traced S T c" and "socks5 e d ev configs c = Some (r, c')"
  shows "traced S T c'"
  using assms tame_socks5 [of e d ev configs] by (auto simp: tame2_def runs_iff)

lemma traced_drive:
  assumes "traced S T c" and "drive configs evs c = Some c'"
  shows "traced S T c'"
  using assms by (induction configs evs c rule: drive.induct) (auto simp: Option.bind_eq_Some_conv dest: traced_step)

lemma traced_extends:
  assumes "traced S T c"
  obtains u where "c_trace c = T @ u" and "disciplined S u"
proof
  show "c_trace c = T @ drop (length T) (c_trace c)"
    using assms append_take_drop_id [of "length T" "c_trace c"] by (simp add: traced_def)
  show "disciplined S (drop (length T) (c_trace c))" using assms by (simp add: traced_def)
qed

lemma disciplined_at: "disciplined S (t @ a # u) \<Longrightarrow> set (uses a) \<subseteq> insert (-1) (set S \<union> set (obtained t)) \<and> loggable a"
proof (induction t arbitrary: S)
  case (Cons b t)
  have "set (uses a) \<subseteq> insert (-1) (set (gives b @ S) \<union> set (obtained t)) \<and> loggable a"
    by (rule Cons.IH) (use Cons.prems in simp)
  then show ?case by (auto simp: obtained_def)
qed simp

lemma disciplined_uses:
  assumes "disciplined S u" and "a \<in> set u"
  shows "set (uses a) \<subseteq> insert (-1) (set S \<union> set (obtained u))" and "loggable a"
proof -
  from assms(2) obtain t v where u: "u = t @ a # v" by (auto simp: in_set_conv_decomp)
  from disciplined_at [OF assms(1) [unfolded u]]
  show "set (uses a) \<subseteq> insert (-1) (set S \<union> set (obtained u))" and "loggable a" unfolding u by auto
qed

text \<open>A descriptor the connection does not hold at some point, and does not get again, is never named after it.\<close>

lemma traced_forgets:
  assumes "traced S T c" and "x \<notin> insert (-1) (set S)" and "x \<notin> set (obtained (drop (length T) (c_trace c)))"
  shows "\<forall>a \<in> set (drop (length T) (c_trace c)). x \<notin> set (uses a)"
proof -
  obtain u where u: "c_trace c = T @ u" "disciplined S u" by (rule traced_extends [OF assms(1)])
  with assms(2,3) show ?thesis using disciplined_uses(1) [OF u(2)] by auto
qed

text \<open>What a live connection holds.\<close>

lemma traced_live:
  assumes "well_formed c"
  shows "traced (v_client (view c) # case_option [] (\<lambda>fd. [fd]) (v_server (view c))) (c_trace c) c"
  using assms wf_no_server [OF assms] wf_server_fd [OF assms]
  by (auto elim!: wfE simp: traced_def own_def view_def the_shared_def split: option.split)

section \<open>The server\<close>

text \<open>A connection since the \<^verbatim>\<open>accept\<close> that made it.\<close>

definition born :: "conn \<Rightarrow> bool" where
  "born c \<longleftrightarrow> (\<exists>l r. traced (gives (Sys_accept l r)) [Sys_accept l r] c)"

lemma accept_born:
  assumes "accept_new_client e fd = (ret, c)"
  shows "born c"
proof -
  let ?a = "Sys_accept fd (os_accept e 0 fd)"
  let ?c = "emit ?a no_conn"
  have first: "traced (gives ?a) [?a] ?c"
    by (simp add: traced_def no_conn_def emit_def)
  have own: "own (gives ?a) [?a] ?c new_fd" if "os_accept e 0 fd = Some (new_fd, ss)" for new_fd ss
    using that by (simp add: own_def)
  have "now no_conn = 0" by (simp add: now_def no_conn_def)
  with assms first own have "traced (gives ?a) [?a] c"
    by (cases "os_accept e 0 fd")
      (auto simp: accept_new_client_def Let_def sys_defs case_prod_unfold error_codes access_codes new_shared_def
        split: if_splits)
  then show ?thesis unfolding born_def by blast
qed

lemma born_step: "born c \<Longrightarrow> socks5 e d ev configs c = Some (r, c') \<Longrightarrow> born c'"
  unfolding born_def using traced_step by blast

lemma born_resolved:
  assumes "born c" and "resolve_ret gai_ret c = Some c'"
  shows "born c'"
proof -
  obtain l r where "traced (gives (Sys_accept l r)) [Sys_accept l r] c" using assms(1) by (auto simp: born_def)
  then have "traced (gives (Sys_accept l r)) [Sys_accept l r] c'"
    using assms(2) tame_resolve(2) [of gai_ret] by (simp add: tame_def runs_iff)
  then show ?thesis by (auto simp: born_def)
qed

definition logs_ok :: "conn \<Rightarrow> bool" where
  "logs_ok c \<longleftrightarrow> (\<forall>a \<in> set (c_trace c). loggable a)"

definition server_traced :: "server \<Rightarrow> bool" where
  "server_traced sv \<longleftrightarrow> (\<forall>c \<in> set (sv_conns sv). born c) \<and> logs_ok (sv_main sv)"

lemma main_log_traced [simp]: "server_traced sv \<Longrightarrow> unat code < 20 \<Longrightarrow> server_traced (main_log code sv)"
  by (auto simp: server_traced_def main_log_def logs_ok_def log_error_def)

lemma set_conn_traced: "server_traced sv \<Longrightarrow> born c \<Longrightarrow> server_traced (set_conn i c sv)"
  using set_update_subset_insert [of "sv_conns sv" i c] by (auto simp: server_traced_def set_conn_def)

lemma mem_get_born: "server_traced sv \<Longrightarrow> mem_get (sv_conns sv) i = Some c \<Longrightarrow> born c"
  by (auto simp: server_traced_def mem_get_def split: if_splits)

lemma main_event_traced:
  assumes "server_traced sv" and "main_event e ptr ev sv = Some (stop, sv')"
  shows "server_traced sv'"
proof (cases ptr)
  case Ptr_null
  with assms show ?thesis by (auto simp: main_event_def error_codes)
next
  case (Ptr_listener fd)
  obtain ret c where "accept_new_client e fd = (ret, c)" by (cases "accept_new_client e fd")
  with Ptr_listener assms accept_born show ?thesis
    by (auto simp: main_event_def error_codes split: if_splits) (auto simp: server_traced_def)
next
  case (Ptr_peer i d)
  with assms show ?thesis
    by (auto simp: main_event_def Option.bind_eq_Some_conv split: if_splits
        intro!: set_conn_traced dest: mem_get_born intro: born_step)
next
  case (Ptr_resolver r)
  with assms show ?thesis
    by (cases r) (auto simp: main_event_def Option.bind_eq_Some_conv intro!: set_conn_traced dest: mem_get_born
        intro: born_step born_resolved)
qed

lemma main_batch_traced: "server_traced sv \<Longrightarrow> main_batch evs sv = Some (stop, sv') \<Longrightarrow> server_traced sv'"
  by (induction evs sv rule: main_batch.induct)
    (auto simp: Option.bind_eq_Some_conv split: if_splits dest: main_event_traced)

lemma main_loop_traced: "server_traced sv \<Longrightarrow> main_loop waits sv = Some (stop, sv') \<Longrightarrow> server_traced sv'"
  by (induction waits sv rule: main_loop.induct)
    (auto simp: Option.bind_eq_Some_conv error_codes split: if_splits dest: main_batch_traced)

lemma logs_ok_emit [simp]: "logs_ok (emit a c) \<longleftrightarrow> logs_ok c \<and> loggable a"
  by (auto simp: logs_ok_def)

lemma listeners_logs: "logs_ok c \<Longrightarrow> logs_ok (snd (listeners_loop e ls c))"
proof (induction ls arbitrary: c)
  case (Cons l ls)
  then show ?case
    by (cases "os_socket e (now c)") (simp_all add: sys_defs v6flag_def ep_add_listener_def Let_def error_codes)
qed simp

lemma start_traced:
  assumes "main_start b = Some (Running sv)"
  shows "server_traced sv"
proof -
  have loop: "logs_ok c'" if "listeners_loop e ls c = (ret, c')" "logs_ok c" for e ls c ret c'
    using listeners_logs [OF that(2), of e ls] that(1) by simp
  have "logs_ok no_conn" by (simp add: logs_ok_def no_conn_def)
  with assms show ?thesis
    by (auto simp: main_start_def server_traced_def Option.bind_eq_Some_conv Let_def init_listeners_def start_resolver_def
        init_resolver_def ep_add_resolver_def sys_defs error_codes split: if_splits prod.splits dest!: loop)
qed

section \<open>Descriptors that are never closed\<close>

lemma bindlistening_refused:
  assumes wf: "well_formed c" and st: "v_state (view c) = STATE_BIND_LISTENING" and sv: "v_server (view c) = Some sfd"
    and acc: "os_accept e (length (c_trace c)) sfd = Some (new_fd, ss)"
    and chk: "peer_check (v_info (view c)) ss = Some rep"
  shows "socks5 e Server EPOLLIN configs c =
    do { c \<leftarrow> set_server_addr ss (emit (Sys_accept sfd (Some (new_fd, ss))) c);
         c \<leftarrow> reply_rep e Server rep c; Some (0, c) }"
proof -
  have d: "side_fd Server (view c) = Some sfd" using sv by simp
  let ?c = "emit (Sys_accept sfd (Some (new_fd, ss))) c"
  obtain c1 where c1: "set_server_addr ss ?c = Some c1" "get_info c1 = get_info ?c"
    using wf by (auto elim!: wfE simp: set_server_addr_def upd_shared_def get_info_def)
  have "get_info ?c = Some (v_info (view c))"
    using wf_info [OF wf] by (simp add: get_info_def)
  with wf d sv acc chk c1 not_for_server [OF wf d sv]
  have "bindlistening e Server EPOLLIN c = do { c \<leftarrow> set_server_addr ss ?c; reply_rep e Server rep c }"
    by (simp add: bindlistening_def wf_simps sys_accept_def now_def Let_def EPOLLIN_def)
  then show ?thesis by (simp add: socks5_bind [OF wf d st])
qed

text \<open>From a point at which the connection does not hold \<open>x\<close>, over any further events.\<close>

lemma drive_forgets:
  assumes "traced S T c" and "drive configs evs c = Some c'" and "x \<notin> insert (-1) (set S)"
  shows "\<exists>u. c_trace c' = T @ u \<and> (x \<notin> set (obtained u) \<longrightarrow> (\<forall>a \<in> set u. x \<notin> set (uses a)))"
proof -
  have traced: "traced S T c'" by (rule traced_drive [OF assms(1,2)])
  then obtain u where "c_trace c' = T @ u" by (rule traced_extends)
  with traced_forgets [OF traced assms(3)] show ?thesis by auto
qed

lemma refused_peer_traced:
  assumes wf: "well_formed c" and st: "v_state (view c) = STATE_BIND_LISTENING" and sv: "v_server (view c) = Some sfd"
    and acc: "os_accept e (length (c_trace c)) sfd = Some (new_fd, ss)"
    and chk: "peer_check (v_info (view c)) ss = Some rep"
    and step: "socks5 e Server EPOLLIN configs c = Some (r, c')"
  shows "traced [v_client (view c), sfd] (c_trace c @ [Sys_accept sfd (Some (new_fd, ss))]) c'"
proof -
  let ?S = "[v_client (view c), sfd]" and ?c = "emit (Sys_accept sfd (Some (new_fd, ss))) c"
  have "well_formed ?c" "v_server (view ?c) = Some sfd" using wf sv by simp_all
  with traced_live [of ?c] have "traced ?S (c_trace ?c) ?c" by simp
  then have "runs ?S (c_trace ?c) (do { c \<leftarrow> set_server_addr ss ?c; c \<leftarrow> reply_rep e Server rep c; Some (0, c) })
      (\<lambda>(r, c'). traced ?S (c_trace ?c) c')"
    by (auto intro!: trace_rules)
  with step show ?thesis by (auto simp: bindlistening_refused [OF wf st sv acc chk] runs_iff)
qed

text \<open>A \<^verbatim>\<open>connect\<close> that fails at once.\<close>

definition failing_calls :: "fd \<Rightarrow> sockaddr \<Rightarrow> int \<Rightarrow> sys list" where
  "failing_calls sfd sa err = [Sys_socket (sa_family sa) SOCK_STREAM (Some sfd), Sys_nonblock sfd, Sys_connect sfd sa err]"

lemma failed_connect_run:
  assumes wf: "well_formed c" and fw: "\<not> firewall (v_info (view c)) configs" and allow: "allow_connect configs"
    and cmd: "i_cmd (v_info (view c)) = CMD_CONN" and sa: "i_sa (v_info (view c)) = Some sa" "inet sa"
    and os: "\<And>k. os_socket e k = Some sfd" "\<And>k. os_connect e k sfd = err" "err \<notin> {0, EAGAIN, EINPROGRESS}"
    and sv: "v_server (view c) = None" and run: "run_command e Client configs c = Some (r, c')"
  shows "\<exists>t. traced [v_client (view c)] (c_trace c @ t @ failing_calls sfd sa err) c'"
proof -
  let ?log = "Sys_log_access A_COMMCONN (v_access (view c))" and ?S = "[v_client (view c)]"
  define c1 where "c1 = emit (Sys_connect sfd sa err) (emit (Sys_nonblock sfd)
    (emit (Sys_socket (sa_family sa) SOCK_STREAM (Some sfd)) (emit ?log c)))"
  have log: "log_access A_COMMCONN c = Some (emit ?log c)"
    using wf by (simp add: log_access_def wf_shared wf_access)
  have info: "get_info (emit a c) = Some (v_info (view c))" for a using wf_info [OF wf] by (simp add: get_info_def)
  have "connect_target e (v_info (view c)) (emit ?log c) = do { c \<leftarrow> set_rep REP_GENFAIL c1; Some (None, c) }"
    using sa os by (cases sa) (auto simp: connect_target_def open_and_connect_def sys_defs Let_def c1_def inet_def)
  then have init: "init_command e Client configs c = set_rep REP_GENFAIL c1"
    using wf sa allow cmd log info by (simp add: init_command_def init_connect_def wf_simps)
  have T: "c_trace c1 = c_trace c @ [?log] @ failing_calls sfd sa err" by (simp add: c1_def failing_calls_def)
  have wf1: "well_formed c1" "v_server (view c1) = None" using wf sv by (simp_all add: c1_def)
  then have "traced ?S (c_trace c1) c1" using traced_live [of c1] by (simp add: c1_def)
  then have "runs ?S (c_trace c1) (run_command e Client configs c) (\<lambda>x. traced ?S (c_trace c1) (snd x))"
    using wf_info [OF wf] fw by (auto simp: run_command_def init intro!: trace_rules)
  with run T show ?thesis by (auto simp: runs_iff intro!: exI [of _ "[?log]"])
qed

lemma failed_connect_step:
  assumes r: "ready e configs c" and sa: "inet sa" and allow: "allow_connect configs"
    and fw: "\<not> (\<exists>b \<in> set (block_head configs). matches b sa)"
    and os: "\<And>k. os_socket e k = Some sfd" "\<And>k. os_connect e k sfd = err" "err \<notin> {0, EAGAIN, EINPROGRESS}"
  shows "wp (socks5 (deliver e (connect_request sa)) Client EPOLLIN configs c) (\<lambda>(r, c'). r = 0 \<and>
    (\<exists>t. traced [v_client (view c)] (c_trace c @ t @ failing_calls sfd sa err) c'))"
proof (rule wp_step_run [where cmd = CMD_CONN and sa = sa])
  let ?e = "deliver e (connect_request sa)" and ?v = "requested CMD_CONN sa (view c)"
  have inq: "v_in (view c) = []" and sv: "v_server (view c) = None" using ready_conn [OF r] ready_phase [OF r] by simp_all
  fix c1
  assume c1: "well_formed c1" "view c1 = ?v"
  have "wp (run_command ?e Client configs c1) (ran configs ?v)"
    using wp_run_ready [OF r c1(1) c1(2) [unfolded requested_def]] by (simp add: requested_def)
  then obtain ret c' where run: "run_command ?e Client configs c1 = Some (ret, c')" "ret = 0"
    unfolding wp_iff by (auto simp: ran_def)
  let ?u = "[Sys_recv (v_client (view c)) OUTBUFFSIZE (Some (connect_request sa)), Sys_malloc True]"
  have u: "c_trace c1 = c_trace c @ ?u"
    using c1(2) requested_trace [of CMD_CONN sa "view c"] inq by (simp add: view_trace [symmetric])
  have "\<exists>t. traced [v_client (view c1)] (c_trace c1 @ t @ failing_calls sfd sa err) c'"
  proof (rule failed_connect_run [OF c1(1) _ allow _ _ sa _ _ os(3) _ run(1)])
    show "\<not> firewall (v_info (view c1)) configs" using filter_request(1) [OF sa inq] fw unfolding c1(2) by blast
    show "os_socket ?e k = Some sfd" "os_connect ?e k sfd = err" for k using os by (simp_all add: deliver_def)
  qed (use c1(2) requested_info [OF inq sa, of CMD_CONN] sv in simp_all)
  then obtain t where "traced [v_client (view c1)] ((c_trace c @ ?u) @ t @ failing_calls sfd sa err) c'" unfolding u by blast
  then have "traced [v_client (view c)] (c_trace c @ (?u @ t) @ failing_calls sfd sa err) c'" using c1(2) by simp
  then have "\<exists>t. traced [v_client (view c)] (c_trace c @ t @ failing_calls sfd sa err) c'" by blast
  with run show "wp (run_command ?e Client configs c1) (\<lambda>(r, c'). case (word_of_int r :: 16 word, c') of (r, c') \<Rightarrow> r = 0 \<and>
      (\<exists>t. traced [v_client (view c)] (c_trace c @ t @ failing_calls sfd sa err) c'))" by auto
qed (use r sa ready_conn [OF r] in \<open>auto simp: ready_def env_ok_def\<close>)

section \<open>Properties\<close>

text \<open>
  C6: what the server does to its descriptors. In any run from a start, whatever the system
  answers and the clients send, every call of a connection names only descriptors that the connection's
  own \<^verbatim>\<open>accept\<close> and \<^verbatim>\<open>socket\<close> calls returned before (or \<open>-1\<close>): no event of one client touches
  the socket of another. Every log entry, of a connection or of \<^verbatim>\<open>main\<close>, has a code with a text.
\<close>

theorem server_discipline:
  assumes "main_start b = Some (Running sv)" and "main_loop waits sv = Some (stop, sv')"
  shows "(\<forall>c \<in> set (sv_conns sv'). \<forall>t a u. c_trace c = t @ a # u \<and> t \<noteq> [] \<longrightarrow>
      set (uses a) \<subseteq> insert (-1) (set (obtained t))) \<and>
    (\<forall>c \<in> insert (sv_main sv') (set (sv_conns sv')).
      (\<forall>code. Sys_log_error code \<in> set (c_trace c) \<longrightarrow> write_error code tm \<noteq> None) \<and>
      (\<forall>code acc. Sys_log_access code acc \<in> set (c_trace c) \<longrightarrow> write_access ntop uninit code client server tm \<noteq> None))"
proof -
  have traced: "server_traced sv'" by (rule main_loop_traced [OF start_traced [OF assms(1)] assms(2)])
  have owned: "set (uses a) \<subseteq> insert (-1) (set (obtained t))"
    if c: "c \<in> set (sv_conns sv')" "c_trace c = t @ a # u" "t \<noteq> []" for c t a u
  proof -
    obtain l r where born: "traced (gives (Sys_accept l r)) [Sys_accept l r] c"
      using traced c(1) by (auto simp: server_traced_def born_def)
    then obtain v where v: "c_trace c = Sys_accept l r # v" "disciplined (gives (Sys_accept l r)) v"
      by (rule traced_extends) simp
    with c(2,3) obtain t' where "t = Sys_accept l r # t'" "v = t' @ a # u" by (cases t) auto
    with disciplined_at [of _ t' a u] v(2) show ?thesis by (auto simp: obtained_def)
  qed
  have logs: "loggable a" if c: "c \<in> insert (sv_main sv') (set (sv_conns sv'))" "a \<in> set (c_trace c)" for c a
  proof (cases "c = sv_main sv'")
    case True
    with traced c(2) show ?thesis by (auto simp: server_traced_def logs_ok_def)
  next
    case False
    then obtain l r where born: "traced (gives (Sys_accept l r)) [Sys_accept l r] c"
      using traced c(1) by (auto simp: server_traced_def born_def)
    then obtain v where "c_trace c = [Sys_accept l r] @ v" "disciplined (gives (Sys_accept l r)) v"
      by (rule traced_extends)
    with c(2) disciplined_uses(2) show ?thesis by auto
  qed
  show ?thesis
    using owned logs [where a = "Sys_log_error _"] logs [where a = "Sys_log_access _ _"]
      write_error_defined write_access_defined by auto
qed

lemma server_discipline_witness:
  "\<exists>sv stop sv'. main_start demo_boot = Some (Running sv) \<and>
    main_loop [Some [(demo_os 6 [], Ptr_listener 3, EPOLLIN)], None] sv = Some (stop, sv') \<and>
    (\<forall>c \<in> set (sv_conns sv'). Sys_close 3 \<notin> set (drop 1 (c_trace c)) \<or> 3 \<in> set (obtained (c_trace c)))"
proof -
  let ?run = "[Some [(demo_os 6 [], Ptr_listener 3, EPOLLIN)], None]"
  obtain sv where start: "main_start demo_boot = Some (Running sv)" using demo_start by blast
  then have "sv_conns sv = []"
    by (auto simp: main_start_def Option.bind_eq_Some_conv Let_def split: if_splits prod.splits)
  then have "server_inv sv" by (simp add: server_inv_def)
  moreover have "loop_env ?run sv" using demo_accept_6 by (auto split: option.split)
  ultimately obtain stop sv' where run: "main_loop ?run sv = Some (stop, sv')" using main_loop_safe by blast
  have "Sys_close 3 \<notin> set (drop 1 (c_trace c)) \<or> 3 \<in> set (obtained (c_trace c))" if "c \<in> set (sv_conns sv')" for c
  proof (rule ccontr)
    assume no: "\<not> ?thesis"
    then obtain p q where "drop 1 (c_trace c) = p @ Sys_close 3 # q" by (auto simp: in_set_conv_decomp)
    then obtain x where "c_trace c = (x # p) @ Sys_close 3 # q" by (cases "c_trace c") auto
    moreover from this server_discipline [OF start run] that
    have "set (uses (Sys_close 3)) \<subseteq> insert (-1) (set (obtained (x # p)))" by blast
    ultimately show False using no by (auto simp: obtained_def)
  qed
  with start run show ?thesis by blast
qed

text \<open>
  C35: a refused peer is never closed. When a connection from elsewhere than the requested address
  arrives on a BIND, the descriptor \<^verbatim>\<open>accept\<close> returned for it is not closed, by this event or any later
  one: no call of the connection names it again (unless the system returns the number anew, which
  it does not while it is open). Each refused peer costs the server one descriptor.
\<close>

theorem refused_peer_leaks:
  assumes "well_formed c" and "v_state (view c) = STATE_BIND_LISTENING" and "v_server (view c) = Some sfd"
    and "i_sa (v_info (view c)) = Some req" and "sa_wf req"
    and "os_accept e (length (c_trace c)) sfd = Some (new_fd, ss)" and "sa_wf ss" and "ss \<noteq> req"
    and "new_fd \<notin> {-1, v_client (view c), sfd}"
    and "drive configs ((e, Server, EPOLLIN) # evs) c = Some c'"
  shows "\<exists>u. c_trace c' = c_trace c @ Sys_accept sfd (Some (new_fd, ss)) # u \<and>
    (new_fd \<notin> set (obtained u) \<longrightarrow> (\<forall>a \<in> set u. new_fd \<notin> set (uses a)))"
proof -
  have ra: "request_addr (v_info (view c)) = Some req" using assms(4) by (simp add: request_addr_def)
  then obtain rep where chk: "peer_check (v_info (view c)) ss = Some rep"
    using peer_check_None [OF _ ra assms(5,7)] assms(8) by fastforce
  obtain r c1 where step: "socks5 e Server EPOLLIN configs c = Some (r, c1)" and rest: "drive configs evs c1 = Some c'"
    using assms(10) by (auto simp: Option.bind_eq_Some_conv)
  have "new_fd \<notin> insert (-1) (set [v_client (view c), sfd])" using assms(9) by simp
  from drive_forgets [OF refused_peer_traced [OF assms(1-3,6) chk step] rest this] show ?thesis by simp
qed

lemma refused_peer_leaks_witness:
  "\<exists>c c' u. drive demo_configs [(refusing_os 0 (SIN [6, 6, 6, 6] [0, 1]), Server, EPOLLIN)] c = Some c' \<and>
    c_trace c' = c_trace c @ Sys_accept 7 (Some (8, SIN [6, 6, 6, 6] [0, 1])) # u \<and>
    (8 \<notin> set (obtained u) \<longrightarrow> (\<forall>a \<in> set u. 8 \<notin> set (uses a)))"
proof -
  obtain c where c: "well_formed c" "phase (view c)" "v_state (view c) = STATE_BIND_LISTENING" "v_client (view c) = 5"
    "v_server (view c) = Some 7" "i_sa (v_info (view c)) = Some demo_sa"
    using demo_in_state by blast
  let ?e = "refusing_os 0 (SIN [6, 6, 6, 6] [0, 1])"
  have env: "env_ok ?e demo_configs c" using c by (intro refusing_env) simp_all
  have acc: "os_accept ?e (length (c_trace c)) 7 = Some (8, SIN [6, 6, 6, 6] [0, 1])" by (simp add: refusing_os_def)
  have "wp (socks5 ?e Server EPOLLIN demo_configs c) (\<lambda>_. True)"
    by (rule wp_step_bind [OF c(1-3) env c(5)]) simp
  then obtain c' where run: "drive demo_configs [(?e, Server, EPOLLIN)] c = Some c'" unfolding wp_iff by auto
  have "SIN [6, 6, 6, 6] [0, 1] \<noteq> demo_sa" by (simp add: demo_sa_def)
  from refused_peer_leaks [OF c(1,3,5,6) demo_session(2) acc _ this _ run] c(4) run show ?thesis by auto
qed

text \<open>
  C36: a \<^verbatim>\<open>connect\<close> that fails at once leaves its socket open. The client gets an error reply and the
  connection ends, but no call after \<^verbatim>\<open>connect\<close> names the socket, in this event or any later one: a client
  that asks for unreachable addresses takes one descriptor of the server with every request.
\<close>

theorem failed_connect_leaks:
  assumes "ready e configs c" and "inet sa" and "allow_connect configs"
    and "\<not> (\<exists>b \<in> set (block_head configs). matches b sa)"
    and "\<And>k. os_socket e k = Some sfd" and "\<And>k. os_connect e k sfd = err" and "err \<notin> {0, EAGAIN, EINPROGRESS}"
    and "sfd \<notin> {-1, v_client (view c)}"
    and "drive configs ((deliver e (connect_request sa), Client, EPOLLIN) # evs) c = Some c'"
  shows "\<exists>t u. c_trace c' = c_trace c @ t @
      [Sys_socket (sa_family sa) SOCK_STREAM (Some sfd), Sys_nonblock sfd, Sys_connect sfd sa err] @ u \<and>
    (sfd \<notin> set (obtained u) \<longrightarrow> (\<forall>a \<in> set u. sfd \<notin> set (uses a)))"
proof -
  obtain c1 t where rest: "drive configs evs c1 = Some c'"
    and traced: "traced [v_client (view c)] (c_trace c @ t @ failing_calls sfd sa err) c1"
    using failed_connect_step [OF assms(1-7)] assms(9) unfolding wp_iff by (auto simp: Option.bind_eq_Some_conv)
  have "sfd \<notin> insert (-1) (set [v_client (view c)])" using assms(8) by simp
  from drive_forgets [OF traced rest this] show ?thesis by (auto simp: failing_calls_def)
qed

lemma failed_connect_leaks_witness:
  "\<exists>c c' t u. drive demo_configs [(deliver ((demo_os 6 [])\<lparr>os_connect := \<lambda>_ _. ENETUNREACH\<rparr>) (connect_request demo_sa), Client, EPOLLIN)] c = Some c' \<and>
    c_trace c' = c_trace c @ t @
      [Sys_socket (sa_family demo_sa) SOCK_STREAM (Some 7), Sys_nonblock 7, Sys_connect 7 demo_sa ENETUNREACH] @ u \<and>
    (7 \<notin> set (obtained u) \<longrightarrow> (\<forall>a \<in> set u. 7 \<notin> set (uses a)))"
proof -
  let ?e = "(demo_os 6 [])\<lparr>os_connect := \<lambda>_ _. ENETUNREACH\<rparr>"
  have cf: "configs_ok demo_configs" "cf_methods demo_configs ! 0 = 1" "\<not> allow_domains demo_configs"
    by (simp_all add: demo_configs_def configs_ok_def)
  obtain c where c: "ready (demo_os 6 []) demo_configs c" "v_client (view c) = 5" using negotiated_conn [OF cf] by blast
  have "env_later ?e demo_configs 5"
    by (simp add: env_later_def mod_ok_def os_ok_def demo_os_def configs_ok_def demo_configs_def)
  then have "env_ok ?e demo_configs c" using c by (intro env_later_ok) (simp_all add: ready_def)
  then have r: "ready ?e demo_configs c" using c(1) by (simp add: ready_def demo_os_def)
  have sa: "inet demo_sa" by (simp add: demo_sa_def inet_def)
  have os: "os_socket ?e k = Some 7" "os_connect ?e k 7 = ENETUNREACH" for k by (simp_all add: demo_os_def)
  have err: "ENETUNREACH \<notin> {0, EAGAIN, EINPROGRESS}" by (simp add: ENETUNREACH_def EAGAIN_def EINPROGRESS_def)
  have allow: "allow_connect demo_configs" "\<not> (\<exists>b \<in> set (block_head demo_configs). matches b demo_sa)"
    by (simp_all add: demo_configs_def)
  have fd: "7 \<notin> {-1, v_client (view c)}" using c(2) by simp
  obtain c' where run: "drive demo_configs [(deliver ?e (connect_request demo_sa), Client, EPOLLIN)] c = Some c'"
    using failed_connect_step [OF r sa allow os err] unfolding wp_iff by auto
  from failed_connect_leaks [OF r sa allow os err fd run] run show ?thesis by blast
qed

end
