(* ===== verification/Resolved_Names.thy ===== *)
theory Resolved_Names
  imports Descriptors
begin

text \<open>
  What the event loop does with the answer of the resolver (the first branch of \<^verbatim>\<open>waitingcommand\<close> in
  \<^verbatim>\<open>src/socks.c\<close>): the command runs on the resolved addresses, and the filter is not asked.
\<close>

lemma traced_now:
  assumes "well_formed c" and "v_client (view c) \<in> set S" and "\<And>fd. v_server (view c) = Some fd \<Longrightarrow> fd \<in> set S"
  shows "traced S (c_trace c) c"
  using assms wf_no_server [OF assms(1)] wf_server_fd [OF assms(1)]
  by (auto elim!: wfE simp: traced_def own_def view_def the_shared_def)

lemma resolved_connect_run:
  assumes wf: "well_formed c" and sv: "v_server (view c) = None" and ret: "i_resolver_ret (v_info (view c)) = 0"
    and cmd: "i_cmd (v_info (view c)) = CMD_CONN" and sa: "i_sa (v_info (view c)) = None"
    and ai: "i_ai (v_info (view c)) = ai # ais" and allow: "allow_connect configs" and os: "\<And>k. os_socket e k = Some sfd"
    and run: "resolver_returned e Client configs c = Some c'"
  shows "\<exists>t u err. c_trace c' = c_trace c @ t @
    [Sys_socket (ai_family ai) (ai_socktype ai) (Some sfd), Sys_nonblock sfd, Sys_connect sfd (ai_addr ai) err] @ u"
proof -
  let ?log = "Sys_log_access A_COMMCONN (v_access (view c))" and ?S = "[v_client (view c), sfd]"
  let ?c0 = "emit (Sys_nonblock sfd) (emit (Sys_socket (ai_family ai) (ai_socktype ai) (Some sfd)) (emit ?log c))"
  define err where "err = os_connect e (now ?c0) sfd"
  define c1 where "c1 = emit (Sys_connect sfd (ai_addr ai) err) ?c0"
  have log: "log_access A_COMMCONN c = Some (emit ?log c)"
    using wf by (simp add: log_access_def wf_shared wf_access)
  have info: "get_info (emit a c) = Some (v_info (view c))" for a using wf_info [OF wf] by (simp add: get_info_def)
  have opened: "open_and_connect e (ai_family ai) (ai_socktype ai) (ai_addr ai) (emit ?log c) =
      (if err \<noteq> 0 \<and> err \<noteq> EAGAIN \<and> err \<noteq> EINPROGRESS then do { c \<leftarrow> set_rep REP_GENFAIL c1; Some (None, c) }
       else Some (Some sfd, c1))"
    by (simp add: open_and_connect_def sys_defs Let_def os err_def c1_def)
  have wf1: "well_formed c1" "v_client (view c1) \<in> set ?S" "v_server (view c1) = None" using wf sv by (simp_all add: c1_def)
  have T: "traced ?S (c_trace c1) c1" by (rule traced_now) (use wf1 in simp_all)
  then have own: "own ?S (c_trace c1) c1 sfd" by (simp add: own_def)
  have "runs ?S (c_trace c1) (resolver_returned e Client configs c) (\<lambda>c'. traced ?S (c_trace c1) c')"
    using T own
    by (auto simp: resolver_returned_def init_command_def init_connect_def connect_target_def wf_simps wf ret cmd sa ai allow
        log info opened Let_def case_prod_unfold sys_defs error_codes intro!: trace_rules)
  with run have "traced ?S (c_trace c1) c'" by (simp add: runs_iff)
  then obtain u where "c_trace c' = c_trace c1 @ u" by (rule traced_extends)
  then have "c_trace c' = c_trace c @ [?log] @
      [Sys_socket (ai_family ai) (ai_socktype ai) (Some sfd), Sys_nonblock sfd, Sys_connect sfd (ai_addr ai) err] @ u"
    by (simp add: c1_def)
  then show ?thesis by blast
qed

lemma resolver_returned_defined:
  assumes wf: "well_formed c" and ret: "i_resolver_ret (v_info (view c)) = 0"
    and cmd: "command_enabled configs (i_cmd (v_info (view c)))"
    and os: "os_ok e (v_client (view c))" and cf: "configs_ok configs"
  shows "\<exists>c'. resolver_returned e Client configs c = Some c'"
proof -
  have side: "side_fd Client v = Some (v_client v)" for v by simp
  have "wp (init_command e Client configs c) (\<lambda>c1. wp (do { info \<leftarrow> get_info c1;
      if i_rep info \<noteq> 0xFF \<and> i_rep info \<noteq> REP_SUCCESS then reply_with_err e Client c1 else Some c1 }) (\<lambda>_. True))"
    by (rule wp_init_command [OF wf side os cf])
      (use cmd in \<open>auto simp: wf_info intro!: wp_reply_with_err [OF _ side]\<close>)
  then have "wp (resolver_returned e Client configs c) (\<lambda>_. True)"
    by (simp add: resolver_returned_def wf_info [OF wf] ret)
  then show ?thesis unfolding wp_iff by auto
qed

text \<open>A connection whose CONNECT by name has been answered with the address \<open>demo_resolved\<close>.\<close>

definition demo_resolved :: addrinfo where
  "demo_resolved = \<lparr>ai_addr = SIN [10, 1, 2, 3] [0, 80], ai_socktype = SOCK_STREAM, ai_protocol = 6\<rparr>"

definition blocking_configs :: Configs where
  "blocking_configs = demo_configs\<lparr>block_head := [block4 8 [10, 0, 0, 0]]\<rparr>"

lemma demo_answered:
  "\<exists>c. well_formed c \<and> v_server (view c) = None \<and> v_client (view c) = 5 \<and> i_resolver_ret (v_info (view c)) = 0 \<and>
    i_cmd (v_info (view c)) = CMD_CONN \<and> i_sa (v_info (view c)) = None \<and> i_ai (v_info (view c)) = [demo_resolved]"
proof -
  have cf: "configs_ok demo_configs" "cf_methods demo_configs ! 0 = 1" "\<not> allow_domains demo_configs"
    by (simp_all add: demo_configs_def configs_ok_def)
  obtain c where c: "ready (demo_os 6 []) demo_configs c" "v_client (view c) = 5" using negotiated_conn [OF cf] by blast
  have "well_formed c" "v_server (view c) = None" using ready_conn [OF c(1)] ready_phase [OF c(1)] by simp_all
  with c(2) have "wp (upd_info (\<lambda>i. i\<lparr>i_resolver_ret := 0, i_cmd := CMD_CONN, i_sa := None, i_ai := [demo_resolved]\<rparr>) c)
      (\<lambda>c. well_formed c \<and> v_server (view c) = None \<and> v_client (view c) = 5 \<and> i_resolver_ret (v_info (view c)) = 0 \<and>
        i_cmd (v_info (view c)) = CMD_CONN \<and> i_sa (v_info (view c)) = None \<and> i_ai (v_info (view c)) = [demo_resolved])"
    by (intro wp_upd_info) simp_all
  then show ?thesis unfolding wp_iff by blast
qed

lemma demo_blocked:
  assumes "i_cmd info = CMD_CONN" and "i_sa info = None" and "i_ai info = [demo_resolved]"
  shows "firewall info blocking_configs"
proof -
  have "check_sin [10, 1, 2, 3] [block4 8 [10, 0, 0, 0]]"
    by (simp add: block4_check del: check_sin.simps(2))
      (simp add: in_network_def msb_bit_def)
  with assms show ?thesis
    by (simp add: firewall_def udpa_unspec_def socks_consts demo_resolved_def blocking_configs_def)
qed

section \<open>Properties\<close>

text \<open>
  C32: the block list does not hold for names. When the resolver has answered a CONNECT by name, the
  server connects to the first address of the answer, even where the filter refuses that request.
\<close>

theorem blocked_name_connected:
  assumes "well_formed c" and "v_server (view c) = None" and "i_resolver_ret (v_info (view c)) = 0"
    and "i_cmd (v_info (view c)) = CMD_CONN" and "i_sa (v_info (view c)) = None" and "i_ai (v_info (view c)) = ai # ais"
    and "allow_connect configs" and "firewall (v_info (view c)) configs" and "\<And>k. os_socket e k = Some sfd"
    and "resolver_returned e Client configs c = Some c'"
  shows "\<exists>t u err. c_trace c' = c_trace c @ t @
    [Sys_socket (ai_family ai) (ai_socktype ai) (Some sfd), Sys_nonblock sfd, Sys_connect sfd (ai_addr ai) err] @ u"
  by (rule resolved_connect_run [OF assms(1-7,9,10)])

lemma blocked_name_connected_witness:
  "\<exists>c c' t u err. resolver_returned (demo_os 6 []) Client blocking_configs c = Some c' \<and>
    firewall (v_info (view c)) blocking_configs \<and> c_trace c' = c_trace c @ t @
    [Sys_socket AF_INET SOCK_STREAM (Some 7), Sys_nonblock 7, Sys_connect 7 (SIN [10, 1, 2, 3] [0, 80]) err] @ u"
proof -
  obtain c where c: "well_formed c" "v_server (view c) = None" "v_client (view c) = 5" "i_resolver_ret (v_info (view c)) = 0"
    "i_cmd (v_info (view c)) = CMD_CONN" "i_sa (v_info (view c)) = None" "i_ai (v_info (view c)) = [demo_resolved]"
    using demo_answered by blast
  have allow: "allow_connect blocking_configs" by (simp add: blocking_configs_def demo_configs_def)
  have os: "os_ok (demo_os 6 []) (v_client (view c))" and sock: "os_socket (demo_os 6 []) k = Some 7" for k
    using c(3) by (simp_all add: os_ok_def demo_os_def)
  have cf: "configs_ok blocking_configs" by (simp add: blocking_configs_def demo_configs_def configs_ok_def)
  have "command_enabled blocking_configs (i_cmd (v_info (view c)))" using allow c(5) by (simp add: command_enabled_def)
  from resolver_returned_defined [OF c(1,4) this os cf]
  obtain c' where run: "resolver_returned (demo_os 6 []) Client blocking_configs c = Some c'" by blast
  have blocked: "firewall (v_info (view c)) blocking_configs" by (rule demo_blocked [OF c(5-7)])
  from blocked_name_connected [OF c(1,2,4-7) allow blocked sock run] obtain t u err where
    "c_trace c' = c_trace c @ t @ [Sys_socket AF_INET SOCK_STREAM (Some 7), Sys_nonblock 7,
      Sys_connect 7 (SIN [10, 1, 2, 3] [0, 80]) err] @ u"
    unfolding demo_resolved_def ai_family_def by auto
  with blocked run show ?thesis by blast
qed

end
