(* ===== verification/Config_Release.thy ===== *)
theory Config_Release
  imports Config
begin

text \<open>
  The release of a configuration (\<^verbatim>\<open>src/config.c\<close>) on the nodes in memory. \<open>Config\<close> has the lists as
  values; here a list is its first pointer and the heap of the nodes, so that a node that is read
  after it was freed, or freed twice, is undefined behaviour.
\<close>

text \<open>The \<^verbatim>\<open>next\<close> field of each allocated node; \<open>0\<close> is the null pointer.\<close>

type_synonym node_heap = "nat \<rightharpoonup> nat"

text \<open>\<^verbatim>\<open>free_sa\<close> and \<^verbatim>\<open>free_blocks\<close>, the same loop on nodes of two types: \<^verbatim>\<open>next\<close> is read before the node is freed.\<close>

partial_function (option) free_nodes :: "node_heap \<Rightarrow> nat \<Rightarrow> node_heap option" where
  "free_nodes h current =
    (if current = 0 then Some h
     else do { next \<leftarrow> h current; free_nodes (h(current := None)) next })"

text \<open>\<^verbatim>\<open>free_configs\<close> on the heads of its lists, in order: a null head is skipped.\<close>

fun free_heads :: "node_heap \<Rightarrow> nat list \<Rightarrow> node_heap option" where
  "free_heads h [] = Some h"
| "free_heads h (p # ps) = do {
     h \<leftarrow> (if p \<noteq> 0 then free_nodes h p else Some h);
     free_heads h ps }"

text \<open>The nodes of the list that starts at \<open>p\<close>.\<close>

fun chain :: "node_heap \<Rightarrow> nat \<Rightarrow> nat list \<Rightarrow> bool" where
  "chain h p [] = (p = 0)"
| "chain h p (a # xs) = (p = a \<and> a \<noteq> 0 \<and> (case h a of None \<Rightarrow> False | Some q \<Rightarrow> chain h q xs))"

lemma chain_restrict:
  assumes "chain h p xs" and "set xs \<inter> A = {}"
  shows "chain (h |` (- A)) p xs"
  using assms by (induction h p xs rule: chain.induct) (auto split: option.splits)

lemma free_nodes_chain:
  assumes "chain h p xs" and "distinct xs"
  shows "free_nodes h p = Some (h |` (- set xs))"
  using assms
proof (induction xs arbitrary: h p)
  case Nil
  then show ?case by (simp add: free_nodes.simps [of h 0] restrict_map_def)
next
  case (Cons a xs)
  then obtain q where q: "p = a" "a \<noteq> 0" "h a = Some q" "chain h q xs" by (auto split: option.splits)
  have drop: "h(a := None) = h |` (- {a})" by (auto simp: restrict_map_def)
  have "chain (h |` (- {a})) q xs" using q(4) Cons.prems(2) by (intro chain_restrict) auto
  with Cons.IH [of "h(a := None)" q] Cons.prems(2) q
  have "free_nodes h p = Some ((h(a := None)) |` (- set xs))"
    by (simp add: free_nodes.simps [of h a] drop)
  then show ?case by (auto simp: restrict_map_def)
qed

text \<open>
  Releasing a configuration whose lists share no node frees every node of every list, none twice, and
  reads none after it was freed; the rest of the memory is left alone.
\<close>

lemma free_heads_chains:
  assumes "list_all2 (chain h) ps xss" and "distinct (concat xss)"
  shows "free_heads h ps = Some (h |` (- set (concat xss)))"
  using assms
proof (induction ps arbitrary: h xss)
  case Nil
  then show ?case by (simp add: restrict_map_def)
next
  case (Cons p ps)
  then obtain xs yss where xss: "xss = xs # yss" "chain h p xs" "list_all2 (chain h) ps yss"
    by (auto simp: list_all2_Cons1)
  have dis: "distinct xs" "set xs \<inter> set (concat yss) = {}" "distinct (concat yss)"
    using Cons.prems(2) xss(1) by auto
  have first: "(if p \<noteq> 0 then free_nodes h p else Some h) = Some (h |` (- set xs))"
  proof (cases "p = 0")
    case True
    then have "xs = []" using xss(2) by (cases xs) auto
    with True show ?thesis by (simp add: restrict_map_def)
  next
    case False
    then show ?thesis by (simp add: free_nodes_chain [OF xss(2) dis(1)])
  qed
  have "list_all2 (chain (h |` (- set xs))) ps yss"
    unfolding list_all2_conv_all_nth
  proof (intro conjI allI impI)
    show "length ps = length yss" by (rule list_all2_lengthD [OF xss(3)])
    fix i
    assume i: "i < length ps"
    have "chain h (ps ! i) (yss ! i)" "yss ! i \<in> set yss"
      using xss(3) i by (auto simp: list_all2_conv_all_nth)
    with dis(2) show "chain (h |` (- set xs)) (ps ! i) (yss ! i)" by (intro chain_restrict) auto
  qed
  from Cons.IH [OF this dis(3)] first show ?case
    by (simp add: xss(1) Int_commute)
qed

text \<open>A node of two lists is used after it was freed.\<close>

lemma shared_node: "free_heads [1 \<mapsto> 0] [1, 1] = None"
  by (simp add: free_nodes.simps)

end
