(* ===== verification/Logger_Thread.thy ===== *)
theory Logger_Thread
  imports Logger
begin

text \<open>
  The event loop and the logger thread side by side: \<^verbatim>\<open>logger_th\<close> of \<^verbatim>\<open>src/logger.c\<close> as a machine
  that makes one system call per step, the writes of the event loop to the pipe, and every
  interleaving of the two up to the join. The theory \<open>Logger\<close> runs the same loop on a pipe whose
  contents do not change.
\<close>

section \<open>The thread\<close>

text \<open>Where the thread is: at the opening of the files, at \<^verbatim>\<open>poll\<close>, or at one of its reads.\<close>

datatype logger_pc =
  At_open
| At_poll
| At_type
| At_dest
| At_strsz byte
| At_str byte byte
| At_code
| At_acode
| At_client byte
| At_server byte "byte list"
| At_exit

text \<open>What a step meets: the success of \<^verbatim>\<open>fopen\<close> and \<^verbatim>\<open>setvbuf\<close>, the time, an unset variable.\<close>

record th_env =
  te_fopen_a :: bool
  te_fopen_e :: bool
  te_setvbuf_a :: bool
  te_setvbuf_e :: bool
  te_time :: tm
  te_uninit :: int

text \<open>The pipe with its read end, the thread, and the lines of its two files.\<close>

record logger_sys =
  lg_pipe :: "byte list"
  lg_reading :: bool
  lg_pc :: logger_pc
  lg_access :: "char list list"
  lg_error :: "char list list"

definition open_files :: "th_env \<Rightarrow> int" where
  "open_files te =
    (if \<not> te_fopen_a te \<or> \<not> te_fopen_e te then 1
     else if \<not> te_setvbuf_a te \<or> \<not> te_setvbuf_e te then 1
     else 0)"

text \<open>A \<^verbatim>\<open>read\<close> of one byte into a variable, and of \<open>n\<close> bytes into a zeroed buffer.\<close>

definition read_byte :: "byte \<Rightarrow> 'a logger_sys_scheme \<Rightarrow> byte \<times> 'a logger_sys_scheme" where
  "read_byte x s = (case lg_pipe s of [] \<Rightarrow> (x, s) | b # bs \<Rightarrow> (b, s\<lparr>lg_pipe := bs\<rparr>))"

definition read_sa :: "'a logger_sys_scheme \<Rightarrow> byte list \<times> 'a logger_sys_scheme" where
  "read_sa s = (fst (read_storage (lg_pipe s)), s\<lparr>lg_pipe := snd (read_storage (lg_pipe s))\<rparr>)"

definition after_type :: "byte \<Rightarrow> logger_pc" where
  "after_type log_type =
    (if log_type = LOG_CUSTOM then At_dest
     else if log_type = LOG_ERROR then At_code
     else if log_type = LOG_ACCESS then At_acode
     else if log_type = LOG_SIG_JOIN then At_exit
     else At_type)"

definition goto :: "logger_pc \<Rightarrow> 'a logger_sys_scheme \<Rightarrow> 'a logger_sys_scheme" where
  "goto pc = lg_pc_update (\<lambda>_. pc)"

definition add_access :: "char list \<Rightarrow> 'a logger_sys_scheme \<Rightarrow> 'a logger_sys_scheme" where
  "add_access l = lg_access_update (\<lambda>ls. ls @ [l])"

definition add_error :: "char list \<Rightarrow> 'a logger_sys_scheme \<Rightarrow> 'a logger_sys_scheme" where
  "add_error l = lg_error_update (\<lambda>ls. ls @ [l])"

lemma goto_simps [simp]:
  "lg_pc (goto pc s) = pc" "lg_pipe (goto pc s) = lg_pipe s" "lg_reading (goto pc s) = lg_reading s"
  by (simp_all add: goto_def)

lemma add_line_simps [simp]:
  "lg_pc (add_access l s) = lg_pc s" "lg_pipe (add_access l s) = lg_pipe s"
  "lg_reading (add_access l s) = lg_reading s"
  "lg_pc (add_error l s) = lg_pc s" "lg_pipe (add_error l s) = lg_pipe s"
  "lg_reading (add_error l s) = lg_reading s"
  by (simp_all add: add_access_def add_error_def)

text \<open>
  The string of a custom message: one byte more than was announced is read, and the array of
  length \<open>0\<close> of the length \<open>255\<close> is undefined.
\<close>

definition read_str :: "th_env \<Rightarrow> byte \<Rightarrow> byte \<Rightarrow> 'a logger_sys_scheme \<Rightarrow> 'a logger_sys_scheme option" where
  "read_str te dest strsz s =
    (let n = unat strsz; str = take n (lg_pipe s); s = s\<lparr>lg_pipe := drop n (lg_pipe s)\<rparr> in
     if n = 0 then None
     else if length str < n then Some (goto At_type s)
     else if unat dest \<ge> 2 then None
     else do {
       l \<leftarrow> write_custom (map (\<lambda>b. char_of (unat b)) (takeWhile (\<lambda>b. b \<noteq> 0) (take (n - 1) str))) (te_time te);
       Some (goto At_type (if dest = 0 then add_access l s else add_error l s)) })"

definition logger_th_step ::
  "(byte list \<Rightarrow> char list) \<Rightarrow> th_env \<Rightarrow> 'a logger_sys_scheme \<Rightarrow> 'a logger_sys_scheme option" where
  "logger_th_step ntop6 te s =
    (case lg_pc s of
       At_open \<Rightarrow>
         Some (if open_files te \<noteq> 0 then goto At_exit (s\<lparr>lg_reading := False\<rparr>) else goto At_poll s)
     | At_poll \<Rightarrow> Some (if lg_pipe s \<noteq> [] then goto At_type s else s)
     | At_type \<Rightarrow>
         (case lg_pipe s of
            [] \<Rightarrow> Some (goto At_poll s)
          | log_type # bs \<Rightarrow> Some (goto (after_type log_type) (s\<lparr>lg_pipe := bs\<rparr>)))
     | At_dest \<Rightarrow> (case read_byte 0 s of (dest, s) \<Rightarrow> Some (goto (At_strsz dest) s))
     | At_strsz dest \<Rightarrow> (case read_byte 0 s of (strsz, s) \<Rightarrow> Some (goto (At_str dest (strsz + 1)) s))
     | At_str dest strsz \<Rightarrow> read_str te dest strsz s
     | At_code \<Rightarrow>
         (case read_byte 0xFF s of (code, s) \<Rightarrow> do {
            l \<leftarrow> write_error code (te_time te);
            Some (goto At_type (add_error l s)) })
     | At_acode \<Rightarrow> (case read_byte 0 s of (code, s) \<Rightarrow> Some (goto (At_client code) s))
     | At_client code \<Rightarrow> (case read_sa s of (client, s) \<Rightarrow> Some (goto (At_server code client) s))
     | At_server code client \<Rightarrow>
         (case read_sa s of (server, s) \<Rightarrow> do {
            l \<leftarrow> write_access ntop6 (te_uninit te) code client server (te_time te);
            Some (goto At_type (add_access l s)) })
     | At_exit \<Rightarrow> Some s)"

text \<open>A run of the thread alone.\<close>

fun logger_run ::
  "(byte list \<Rightarrow> char list) \<Rightarrow> th_env list \<Rightarrow> 'a logger_sys_scheme \<Rightarrow> 'a logger_sys_scheme option" where
  "logger_run ntop6 [] s = Some s"
| "logger_run ntop6 (te # tes) s =
    (if lg_pc s = At_exit then Some s
     else case logger_th_step ntop6 te s of None \<Rightarrow> None | Some s' \<Rightarrow> logger_run ntop6 tes s')"

section \<open>The event loop\<close>

text \<open>
  The main thread writes entries until it calls \<^verbatim>\<open>log_sig_join\<close>, which returns when the logger
  thread has exited. \<open>lw_accepted\<close> are the entries the pipe took, \<open>lw_joined\<close> says that it took
  the request to exit. The pipe is non-blocking and a message is shorter than \<^verbatim>\<open>PIPE_BUF\<close>, so
  a write takes all of a message or nothing; \<open>room\<close> is the answer of the kernel.
\<close>

datatype main_pc = Main_runs | Main_joins | Main_returned

record log_world = logger_sys +
  lw_main :: main_pc
  lw_accepted :: "log_event list"
  lw_joined :: bool

lemma main_simps [simp]:
  "lw_main (goto pc w) = lw_main w" "lw_accepted (goto pc w) = lw_accepted w" "lw_joined (goto pc w) = lw_joined w"
  "lw_main (add_access l w) = lw_main w" "lw_accepted (add_access l w) = lw_accepted w"
  "lw_joined (add_access l w) = lw_joined w"
  "lw_main (add_error l w) = lw_main w" "lw_accepted (add_error l w) = lw_accepted w"
  "lw_joined (add_error l w) = lw_joined w"
  by (simp_all add: goto_def add_access_def add_error_def)

definition log_start :: log_world where
  "log_start = \<lparr>lg_pipe = [], lg_reading = True, lg_pc = At_open, lg_access = [], lg_error = [],
     lw_main = Main_runs, lw_accepted = [], lw_joined = False\<rparr>"

definition log_put :: "bool \<Rightarrow> log_event \<Rightarrow> log_world \<Rightarrow> log_world" where
  "log_put room ev w =
    (if room \<and> lg_reading w
     then w\<lparr>lg_pipe := lg_pipe w @ event_msg ev, lw_accepted := lw_accepted w @ [ev]\<rparr>
     else w)"

definition log_sig_join :: "bool \<Rightarrow> log_world \<Rightarrow> log_world" where
  "log_sig_join room w =
    (if room \<and> lg_reading w
     then w\<lparr>lg_pipe := lg_pipe w @ log_sig_join_msg, lw_joined := True, lw_main := Main_joins\<rparr>
     else w\<lparr>lw_main := Main_joins\<rparr>)"

text \<open>The codes with a text, which are those the program logs.\<close>

fun event_coded :: "log_event \<Rightarrow> bool" where
  "event_coded (Ev_error code) = (unat code < 20)"
| "event_coded (Ev_access code client server) = (unat code < 14)"

inductive log_step :: "(byte list \<Rightarrow> char list) \<Rightarrow> log_world \<Rightarrow> log_world \<Rightarrow> bool" for ntop6 where
  log_write: "lw_main w = Main_runs \<Longrightarrow> event_ok ev \<Longrightarrow> event_coded ev \<Longrightarrow>
    log_step ntop6 w (log_put room ev w)"
| log_join: "lw_main w = Main_runs \<Longrightarrow> log_step ntop6 w (log_sig_join room w)"
| log_return: "lw_main w = Main_joins \<Longrightarrow> lg_pc w = At_exit \<Longrightarrow>
    log_step ntop6 w (w\<lparr>lw_main := Main_returned\<rparr>)"
| log_thread: "lg_pc w \<noteq> At_exit \<Longrightarrow> logger_th_step ntop6 te w = Some w' \<Longrightarrow> log_step ntop6 w w'"

inductive log_reachable :: "(byte list \<Rightarrow> char list) \<Rightarrow> log_world \<Rightarrow> bool" for ntop6 where
  log_init: "log_reachable ntop6 log_start"
| log_next: "log_reachable ntop6 w \<Longrightarrow> log_step ntop6 w w' \<Longrightarrow> log_reachable ntop6 w'"

inductive_cases log_stepE: "log_step ntop6 w w'"

section \<open>The lines of the files\<close>

text \<open>What belongs in the files: the line of each entry, made at the time the thread read it.\<close>

definition error_lines :: "(th_env \<times> log_event) list \<Rightarrow> char list list" where
  "error_lines tes = concat (map (\<lambda>(te, ev). case ev of
     Ev_error code \<Rightarrow> (case write_error code (te_time te) of None \<Rightarrow> [] | Some l \<Rightarrow> [l])
   | _ \<Rightarrow> []) tes)"

definition access_lines :: "(byte list \<Rightarrow> char list) \<Rightarrow> (th_env \<times> log_event) list \<Rightarrow> char list list" where
  "access_lines ntop6 tes = concat (map (\<lambda>(te, ev). case ev of
     Ev_access code client server \<Rightarrow>
       (case write_access ntop6 (te_uninit te) code client server (te_time te) of None \<Rightarrow> [] | Some l \<Rightarrow> [l])
   | _ \<Rightarrow> []) tes)"

lemma lines_simps [simp]:
  "error_lines [] = []" "access_lines ntop6 [] = []"
  "error_lines (a @ b) = error_lines a @ error_lines b"
  "access_lines ntop6 (a @ b) = access_lines ntop6 a @ access_lines ntop6 b"
  by (simp_all add: error_lines_def access_lines_def)

section \<open>The stream in the pipe\<close>

text \<open>The bytes of the entries still to be read, with the request to exit behind them.\<close>

definition stream :: "log_event list \<Rightarrow> bool \<Rightarrow> byte list" where
  "stream evs joined = concat (map event_msg evs) @ (if joined then log_sig_join_msg else [])"

lemma stream_append [simp]: "stream (evs @ [ev]) False = stream evs False @ event_msg ev"
  by (simp add: stream_def)

lemma stream_join: "part @ bs = stream evs False \<Longrightarrow> part @ bs @ log_sig_join_msg = stream evs True"
  by (simp add: stream_def flip: append_assoc)

lemma stream_head:
  assumes "b # bs = stream evs joined"
  shows "(b = LOG_SIG_JOIN \<and> evs = [] \<and> joined \<and> bs = []) \<or>
    (\<exists>code evs'. b = LOG_ERROR \<and> evs = Ev_error code # evs' \<and> bs = code # stream evs' joined) \<or>
    (\<exists>code client server evs'. b = LOG_ACCESS \<and> evs = Ev_access code client server # evs' \<and>
       bs = code # client @ server @ stream evs' joined)"
proof (cases evs)
  case Nil
  with assms show ?thesis by (simp add: stream_def log_sig_join_msg_def split: if_splits)
next
  case (Cons ev evs')
  with assms show ?thesis by (cases ev) (auto simp: stream_def log_error_msg_def log_access_msg_def)
qed

text \<open>The bytes of the entry the thread is in the middle of.\<close>

fun half_read :: "logger_pc \<Rightarrow> byte list option" where
  "half_read At_open = Some []"
| "half_read At_poll = Some []"
| "half_read At_type = Some []"
| "half_read At_code = Some [LOG_ERROR]"
| "half_read At_acode = Some [LOG_ACCESS]"
| "half_read (At_client code) = Some [LOG_ACCESS, code]"
| "half_read (At_server code client) =
     (if length client = SS_SIZE then Some ([LOG_ACCESS, code] @ client) else None)"
| "half_read _ = None"

section \<open>The invariant\<close>

text \<open>
  \<open>tes\<close> is what the thread met when it wrote each of its lines. While the thread runs, what it has read of
  the current entry and the pipe together are exactly the entries it has not written.
\<close>

definition log_lines :: "(byte list \<Rightarrow> char list) \<Rightarrow> th_env list \<Rightarrow> log_event list \<Rightarrow> 'a logger_sys_scheme \<Rightarrow> bool" where
  "log_lines ntop6 tes evs s \<longleftrightarrow> length tes = length evs \<and>
     lg_error s = error_lines (zip tes evs) \<and> lg_access s = access_lines ntop6 (zip tes evs)"

definition log_inv_at :: "(byte list \<Rightarrow> char list) \<Rightarrow> log_event list \<Rightarrow> log_event list \<Rightarrow> th_env list \<Rightarrow> log_world \<Rightarrow> bool" where
  "log_inv_at ntop6 evs rest tes w \<longleftrightarrow>
     lw_accepted w = evs @ rest \<and>
     log_lines ntop6 tes evs w \<and>
     (\<forall>ev \<in> set (lw_accepted w). event_ok ev \<and> event_coded ev) \<and>
     (lw_main w = Main_runs \<longrightarrow> \<not> lw_joined w) \<and>
     (lw_main w = Main_returned \<longrightarrow> lg_pc w = At_exit) \<and>
     (if lg_pc w = At_exit then lg_reading w \<longrightarrow> lw_joined w \<and> rest = []
      else lg_reading w \<and>
        (\<exists>part. half_read (lg_pc w) = Some part \<and> part @ lg_pipe w = stream rest (lw_joined w)))"

definition log_inv :: "(byte list \<Rightarrow> char list) \<Rightarrow> log_world \<Rightarrow> bool" where
  "log_inv ntop6 w \<longleftrightarrow> (\<exists>evs rest tes. log_inv_at ntop6 evs rest tes w)"

lemma log_inv_start: "log_inv ntop6 log_start"
  unfolding log_inv_def
  by (rule exI [of _ "[]"], rule exI [of _ "[]"], rule exI [of _ "[]"])
    (simp add: log_inv_at_def log_lines_def log_start_def stream_def)

lemma log_inv_put:
  assumes "log_inv_at ntop6 evs rest tes w" and "lw_main w = Main_runs" and "event_ok ev" "event_coded ev"
  shows "log_inv ntop6 (log_put room ev w)"
proof (cases "room \<and> lg_reading w")
  case True
  with assms have "log_inv_at ntop6 evs (rest @ [ev]) tes (log_put room ev w)"
    by (auto simp: log_inv_at_def log_lines_def log_put_def split: if_splits)
  then show ?thesis unfolding log_inv_def by blast
next
  case False
  with assms have "log_put room ev w = w" by (auto simp: log_put_def)
  with assms(1) show ?thesis unfolding log_inv_def by auto
qed

lemma log_inv_sig_join:
  assumes "log_inv_at ntop6 evs rest tes w" and "lw_main w = Main_runs"
  shows "log_inv ntop6 (log_sig_join room w)"
proof -
  from assms have "log_inv_at ntop6 evs rest tes (log_sig_join room w)"
    by (auto simp: log_inv_at_def log_lines_def log_sig_join_def stream_join split: if_splits)
  then show ?thesis unfolding log_inv_def by blast
qed

text \<open>A step of the thread: it reads on in the current entry, or writes its line.\<close>

lemma log_lines_simps [simp]:
  "log_lines ntop6 tes evs (goto pc s) = log_lines ntop6 tes evs s"
  "log_lines ntop6 tes evs (s\<lparr>lg_pipe := bs\<rparr>) = log_lines ntop6 tes evs s"
  by (simp_all add: log_lines_def goto_def)

lemma log_lines_error:
  assumes "log_lines ntop6 tes evs s" and "write_error code (te_time te) = Some l"
  shows "log_lines ntop6 (tes @ [te]) (evs @ [Ev_error code]) (add_error l s)"
  using assms by (simp add: log_lines_def add_error_def error_lines_def access_lines_def)

lemma log_lines_access:
  assumes "log_lines ntop6 tes evs s"
    and "write_access ntop6 (te_uninit te) code client server (te_time te) = Some l"
  shows "log_lines ntop6 (tes @ [te]) (evs @ [Ev_access code client server]) (add_access l s)"
  using assms by (simp add: log_lines_def add_access_def error_lines_def access_lines_def)

lemma thread_step_open:
  assumes inv: "log_inv_at ntop6 evs rest tes w" and pc: "lg_pc w = At_open \<or> lg_pc w = At_poll"
  shows "\<exists>w'. logger_th_step ntop6 te w = Some w' \<and> log_inv_at ntop6 evs rest tes w'"
  using assms by (auto simp: logger_th_step_def log_inv_at_def log_lines_def goto_def)

lemma thread_step_type:
  assumes inv: "log_inv_at ntop6 evs rest tes w" and pc: "lg_pc w = At_type"
  shows "\<exists>w'. logger_th_step ntop6 te w = Some w' \<and> log_inv_at ntop6 evs rest tes w'"
proof (cases "lg_pipe w")
  case Nil
  with assms show ?thesis by (auto simp: logger_th_step_def log_inv_at_def)
next
  case (Cons b bs)
  let ?w = "goto (after_type b) (w\<lparr>lg_pipe := bs\<rparr>)"
  from Cons assms have "b # bs = stream rest (lw_joined w)" by (auto simp: log_inv_at_def)
  from stream_head [OF this] inv pc have "log_inv_at ntop6 evs rest tes ?w"
    by (auto simp: log_inv_at_def after_type_def log_types Cons)
  then show ?thesis by (simp add: logger_th_step_def pc Cons)
qed

lemma thread_step_code:
  assumes inv: "log_inv_at ntop6 evs rest tes w" and pc: "lg_pc w = At_code"
  shows "\<exists>w' evs' rest' tes'. logger_th_step ntop6 te w = Some w' \<and> log_inv_at ntop6 evs' rest' tes' w'"
proof -
  from assms have "LOG_ERROR # lg_pipe w = stream rest (lw_joined w)" by (auto simp: log_inv_at_def)
  from stream_head [OF this] obtain code rest' where
    rest: "rest = Ev_error code # rest'" and pipe: "lg_pipe w = code # stream rest' (lw_joined w)"
    by (auto simp: log_types)
  from inv rest have "unat code < 20" by (auto simp: log_inv_at_def)
  then obtain l where l: "write_error code (te_time te) = Some l"
    using write_error_defined [of code "te_time te"] by blast
  let ?w = "goto At_type (add_error l (w\<lparr>lg_pipe := stream rest' (lw_joined w)\<rparr>))"
  have "logger_th_step ntop6 te w = Some ?w"
    by (simp add: logger_th_step_def pc read_byte_def pipe l)
  moreover have "log_inv_at ntop6 (evs @ [Ev_error code]) rest' (tes @ [te]) ?w"
    using inv pc rest l by (auto simp: log_inv_at_def log_lines_error)
  ultimately show ?thesis by blast
qed

text \<open>The parts of an access entry.\<close>

lemma access_head:
  assumes "LOG_ACCESS # code # client @ bs = stream rest joined" and "length client = SS_SIZE"
    and "\<forall>ev \<in> set rest. event_ok ev"
  shows "\<exists>server rest'. rest = Ev_access code client server # rest' \<and> bs = server @ stream rest' joined \<and>
    length server = SS_SIZE"
  using stream_head [OF assms(1)] assms(2,3) by (auto simp: log_types)

lemma thread_step_acode:
  assumes inv: "log_inv_at ntop6 evs rest tes w" and pc: "lg_pc w = At_acode"
  shows "\<exists>w'. logger_th_step ntop6 te w = Some w' \<and> log_inv_at ntop6 evs rest tes w'"
proof -
  from assms have "LOG_ACCESS # lg_pipe w = stream rest (lw_joined w)" by (auto simp: log_inv_at_def)
  from stream_head [OF this] obtain code bs where pipe: "lg_pipe w = code # bs"
    by (auto simp: log_types)
  have "log_inv_at ntop6 evs rest tes (goto (At_client code) (w\<lparr>lg_pipe := bs\<rparr>))"
    using inv pc pipe by (auto simp: log_inv_at_def)
  then show ?thesis by (simp add: logger_th_step_def pc read_byte_def pipe)
qed

lemma thread_step_client:
  assumes inv: "log_inv_at ntop6 evs rest tes w" and pc: "lg_pc w = At_client code"
  shows "\<exists>w'. logger_th_step ntop6 te w = Some w' \<and> log_inv_at ntop6 evs rest tes w'"
proof -
  from assms have head: "LOG_ACCESS # code # lg_pipe w = stream rest (lw_joined w)" by (auto simp: log_inv_at_def)
  from stream_head [OF this] inv obtain client bs where
    pipe: "lg_pipe w = client @ bs" and len: "length client = SS_SIZE"
    by (auto simp: log_types log_inv_at_def)
  have "log_inv_at ntop6 evs rest tes (goto (At_server code client) (w\<lparr>lg_pipe := bs\<rparr>))"
    using inv pc pipe len by (auto simp: log_inv_at_def)
  then show ?thesis by (simp add: logger_th_step_def pc read_sa_def pipe len)
qed

lemma thread_step_server:
  assumes inv: "log_inv_at ntop6 evs rest tes w" and pc: "lg_pc w = At_server code client"
  shows "\<exists>w' evs' rest' tes'. logger_th_step ntop6 te w = Some w' \<and> log_inv_at ntop6 evs' rest' tes' w'"
proof -
  from assms have "LOG_ACCESS # code # client @ lg_pipe w = stream rest (lw_joined w)" "length client = SS_SIZE"
      "\<forall>ev \<in> set rest. event_ok ev"
    by (auto simp: log_inv_at_def split: if_splits)
  from access_head [OF this] obtain server rest' where
    rest: "rest = Ev_access code client server # rest'" and pipe: "lg_pipe w = server @ stream rest' (lw_joined w)"
    and len: "length server = SS_SIZE" by blast
  from inv rest have "unat code < 14" by (auto simp: log_inv_at_def)
  then obtain l where l: "write_access ntop6 (te_uninit te) code client server (te_time te) = Some l"
    using write_access_defined [of ntop6 "te_uninit te" code client server "te_time te"] by blast
  let ?w = "goto At_type (add_access l (w\<lparr>lg_pipe := stream rest' (lw_joined w)\<rparr>))"
  have "logger_th_step ntop6 te w = Some ?w"
    by (simp add: logger_th_step_def pc read_sa_def pipe len l)
  moreover have "log_inv_at ntop6 (evs @ [Ev_access code client server]) rest' (tes @ [te]) ?w"
    using inv pc rest l by (auto simp: log_inv_at_def log_lines_access)
  ultimately show ?thesis by blast
qed

lemma thread_step:
  assumes "log_inv ntop6 w" and "lg_pc w \<noteq> At_exit"
  shows "\<exists>w'. logger_th_step ntop6 te w = Some w' \<and> log_inv ntop6 w'"
proof -
  from assms(1) obtain evs rest tes where inv: "log_inv_at ntop6 evs rest tes w" unfolding log_inv_def by blast
  then have "\<exists>part. half_read (lg_pc w) = Some part" using assms(2) by (auto simp: log_inv_at_def)
  then show ?thesis
    using assms(2) inv thread_step_open [OF inv] thread_step_type [OF inv] thread_step_code [OF inv]
      thread_step_acode [OF inv] thread_step_client [OF inv] thread_step_server [OF inv]
    unfolding log_inv_def by (cases "lg_pc w") (simp_all, blast+)
qed

lemma log_step_inv:
  assumes "log_step ntop6 w w'" and "log_inv ntop6 w"
  shows "log_inv ntop6 w'"
  using assms(1)
proof cases
  case (log_return)
  with assms(2) show ?thesis by (auto simp: log_inv_def log_inv_at_def log_lines_def)
next
  case (log_thread te)
  with thread_step [OF assms(2), of te] show ?thesis by auto
qed (use assms(2) in \<open>auto simp: log_inv_def intro: log_inv_put [unfolded log_inv_def] log_inv_sig_join [unfolded log_inv_def]\<close>)

lemma log_reachable_inv: "log_reachable ntop6 w \<Longrightarrow> log_inv ntop6 w"
  by (induction rule: log_reachable.induct) (auto intro: log_inv_start log_step_inv)

section \<open>Progress\<close>

lemma read_byte_frame [simp]:
  "lg_reading (snd (read_byte x s)) = lg_reading s"
  "lw_main (snd (read_byte x w)) = lw_main w" "lw_joined (snd (read_byte x w)) = lw_joined w"
  by (simp_all add: read_byte_def split: list.split)

text \<open>What a step of the thread leaves alone.\<close>

lemma thread_frame:
  assumes "logger_th_step ntop6 te w = Some w'" and "log_inv ntop6 w" and "lg_pc w \<noteq> At_open"
  shows "lw_main w' = lw_main w \<and> lw_joined w' = lw_joined w \<and> lg_reading w' = lg_reading w \<and> lg_pc w' \<noteq> At_open"
  using assms
  by (auto simp: logger_th_step_def log_inv_def log_inv_at_def read_sa_def case_prod_unfold after_type_def
      Option.bind_eq_Some_conv split: logger_pc.splits list.splits if_splits)

text \<open>The work left in the pipe, when the request to exit is in it.\<close>

definition work :: "log_world \<Rightarrow> nat" where
  "work w = length (lg_pipe w) + (if lg_pc w = At_poll then 1 else 0)"

lemma pipe_nonempty:
  assumes "log_inv ntop6 w" and "lw_joined w" and "lg_pc w \<noteq> At_exit"
  shows "lg_pipe w \<noteq> []"
proof
  assume "lg_pipe w = []"
  with assms obtain evs rest tes part where inv: "log_inv_at ntop6 evs rest tes w"
    and part: "half_read (lg_pc w) = Some part" "part = stream rest True"
    unfolding log_inv_def by (auto simp: log_inv_at_def)
  have nonempty: "stream evs True \<noteq> []" for evs by (simp add: stream_def log_sig_join_msg_def)
  with part obtain b bs where b: "b # bs = stream rest True"
    by (metis neq_Nil_conv)
  from inv have "\<forall>ev \<in> set rest. event_ok ev" by (simp add: log_inv_at_def)
  moreover from part b have "half_read (lg_pc w) = Some (b # bs)" by simp
  ultimately show False
    using stream_head [OF b] nonempty by (cases "lg_pc w") (auto simp: log_types SS_SIZE_def split: if_splits)
qed

lemma thread_progress:
  assumes inv: "log_inv ntop6 w" and joined: "lw_joined w" and pc: "lg_pc w \<noteq> At_open" "lg_pc w \<noteq> At_exit"
    and step: "logger_th_step ntop6 te w = Some w'"
  shows "work w' < work w"
proof -
  obtain b bs where pipe: "lg_pipe w = b # bs"
    using pipe_nonempty [OF inv joined pc(2)] by (cases "lg_pipe w") auto
  from inv pc have "half_read (lg_pc w) \<noteq> None" by (auto simp: log_inv_def log_inv_at_def)
  with step pc pipe show ?thesis
    by (auto simp: logger_th_step_def work_def read_byte_def read_sa_def read_storage_def after_type_def SS_SIZE_def
        Option.bind_eq_Some_conv split: logger_pc.splits if_splits)
qed

lemma thread_joins:
  assumes "log_inv ntop6 w" and "lw_joined w" and "lg_pc w \<noteq> At_open" and "work w \<le> length tes"
  shows "\<exists>w'. logger_run ntop6 tes w = Some w' \<and> lg_pc w' = At_exit \<and> log_inv ntop6 w'"
  using assms
proof (induction tes arbitrary: w)
  case Nil
  then show ?case using pipe_nonempty [OF Nil(1,2)] by (auto simp: work_def)
next
  case (Cons te tes)
  show ?case
  proof (cases "lg_pc w = At_exit")
    case True
    with Cons.prems show ?thesis by simp
  next
    case False
    with thread_step [OF Cons.prems(1)] obtain w' where
      step: "logger_th_step ntop6 te w = Some w'" and inv: "log_inv ntop6 w'" by blast
    from thread_progress [OF Cons.prems(1-3) False step] thread_frame [OF step Cons.prems(1,3)] Cons.prems
      Cons.IH [OF inv]
    show ?thesis by (simp add: False step)
  qed
qed

text \<open>Without the request the thread does not exit, and the main thread does not return.\<close>

lemma never_joined:
  assumes "(log_step ntop6)\<^sup>*\<^sup>* w w'" and "log_inv ntop6 w" and "lw_main w = Main_joins" and "\<not> lw_joined w"
    and "lg_pc w \<noteq> At_open" "lg_pc w \<noteq> At_exit"
  shows "log_inv ntop6 w' \<and> lw_main w' = Main_joins \<and> \<not> lw_joined w' \<and> lg_pc w' \<noteq> At_open \<and> lg_pc w' \<noteq> At_exit"
  using assms(1)
proof (induction rule: rtranclp_induct)
  case base
  with assms show ?case by simp
next
  case (step w1 w2)
  then have "\<exists>te. logger_th_step ntop6 te w1 = Some w2" by (auto elim: log_stepE)
  then obtain te where th: "logger_th_step ntop6 te w1 = Some w2" ..
  have inv2: "log_inv ntop6 w2" using log_step_inv step by blast
  have "lg_reading w1" using step by (auto simp: log_inv_def log_inv_at_def)
  with thread_frame [OF th] step inv2 show ?case
    by (auto simp: log_inv_def log_inv_at_def split: if_splits)
qed

section \<open>An example\<close>

text \<open>A run of the two: an entry, the thread up to \<^verbatim>\<open>poll\<close>, and the join while the entry is unread.\<close>

definition demo_te :: th_env where
  "demo_te = \<lparr>te_fopen_a = True, te_fopen_e = True, te_setvbuf_a = True, te_setvbuf_e = True,
     te_time = \<lparr>tm_year = 126, tm_mon = 0, tm_mday = 1, tm_hour = 0, tm_min = 0, tm_sec = 0\<rparr>, te_uninit = 0\<rparr>"

definition demo_joining :: "bool \<Rightarrow> log_world" where
  "demo_joining room =
    log_sig_join room (goto At_poll (log_put True (Ev_error L_LISTENINIT) log_start))"

lemma demo_joining_reachable: "log_reachable ntop6 (demo_joining room)"
proof -
  let ?w = "log_put True (Ev_error L_LISTENINIT) log_start"
  have 1: "log_reachable ntop6 ?w"
    by (rule log_next [OF log_init log_write]) (simp_all add: log_start_def L_LISTENINIT_def)
  have 2: "log_reachable ntop6 (goto At_poll ?w)"
    by (rule log_next [OF 1 log_thread [where te = demo_te]])
      (simp_all add: log_put_def log_start_def logger_th_step_def open_files_def demo_te_def)
  show ?thesis
    unfolding demo_joining_def by (rule log_next [OF 2 log_join]) (simp add: log_put_def log_start_def)
qed

lemma logger_run_reachable:
  "log_reachable ntop6 w \<Longrightarrow> logger_run ntop6 tes w = Some w' \<Longrightarrow> log_reachable ntop6 w'"
proof (induction tes arbitrary: w)
  case (Cons te tes)
  then show ?case
    by (auto split: if_splits option.splits intro: Cons.IH [OF log_next [OF Cons.prems(1) log_thread]])
qed simp

definition demo_returned :: log_world where
  "demo_returned = (case logger_run (\<lambda>_. []) (replicate 4 demo_te) (demo_joining True) of
     Some w \<Rightarrow> w\<lparr>lw_main := Main_returned\<rparr> | None \<Rightarrow> log_start)"

lemma demo_run:
  "(case logger_run (\<lambda>_. []) (replicate 4 demo_te) (demo_joining True) of
      None \<Rightarrow> False
    | Some w \<Rightarrow> lg_pc w = At_exit \<and> lw_main w = Main_joins \<and> lg_reading w \<and> length (lw_accepted w) = 1)"
  by code_simp

lemma demo_returned_reachable:
  "log_reachable (\<lambda>_. []) demo_returned" "lw_main demo_returned = Main_returned" "lg_reading demo_returned"
  "length (lw_accepted demo_returned) = 1"
proof -
  from demo_run obtain w where w: "logger_run (\<lambda>_. []) (replicate 4 demo_te) (demo_joining True) = Some w"
    and end_of: "lg_pc w = At_exit" "lw_main w = Main_joins" "lg_reading w" "length (lw_accepted w) = 1"
    by (auto split: option.splits)
  then show "log_reachable (\<lambda>_. []) demo_returned" "lw_main demo_returned = Main_returned" "lg_reading demo_returned"
    "length (lw_accepted demo_returned) = 1"
    using logger_run_reachable [OF demo_joining_reachable w] by (auto simp: demo_returned_def intro: log_next log_return)
qed

section \<open>Properties\<close>

text \<open>
  C22: the log under any interleaving of the event loop and the logger thread. Whatever the pipe
  refuses and however the reads fall between the writes, the thread never reads outside its
  tables, and the two files hold exactly the lines of the first entries the pipe accepted, each in its file and in
  order; when the main thread returns from the join, every accepted entry has been written,
  unless the files could not be opened.
\<close>

theorem logger_interleaving:
  assumes "log_reachable ntop6 w"
  shows "(lg_pc w \<noteq> At_exit \<longrightarrow> logger_th_step ntop6 te w \<noteq> None) \<and>
    (\<exists>tes. length tes \<le> length (lw_accepted w) \<and>
       lg_error w = error_lines (zip tes (lw_accepted w)) \<and>
       lg_access w = access_lines ntop6 (zip tes (lw_accepted w)) \<and>
       (lw_main w = Main_returned \<and> lg_reading w \<longrightarrow> length tes = length (lw_accepted w)))"
proof
  note inv = log_reachable_inv [OF assms]
  show "lg_pc w \<noteq> At_exit \<longrightarrow> logger_th_step ntop6 te w \<noteq> None"
    using thread_step [OF inv, of te] by auto
  from inv obtain evs rest tes where at: "log_inv_at ntop6 evs rest tes w" unfolding log_inv_def by blast
  show "\<exists>tes. length tes \<le> length (lw_accepted w) \<and>
       lg_error w = error_lines (zip tes (lw_accepted w)) \<and>
       lg_access w = access_lines ntop6 (zip tes (lw_accepted w)) \<and>
       (lw_main w = Main_returned \<and> lg_reading w \<longrightarrow> length tes = length (lw_accepted w))"
    by (rule exI [of _ tes]) (use at in \<open>auto simp: log_inv_at_def log_lines_def zip_append2\<close>)
qed

lemma logger_interleaving_witness:
  "logger_th_step (\<lambda>_. []) demo_te (demo_joining True) \<noteq> None \<and>
   (\<exists>tes. length tes = 1 \<and> lg_error demo_returned = error_lines (zip tes (lw_accepted demo_returned)))"
proof
  have "lg_pc (demo_joining True) = At_poll" by code_simp
  then show "logger_th_step (\<lambda>_. []) demo_te (demo_joining True) \<noteq> None"
    using logger_interleaving [OF demo_joining_reachable, of True "\<lambda>_. []" demo_te] by auto
  show "\<exists>tes. length tes = 1 \<and> lg_error demo_returned = error_lines (zip tes (lw_accepted demo_returned))"
    using logger_interleaving [OF demo_returned_reachable(1)] demo_returned_reachable(2-4) by auto
qed

text \<open>
  C23: the end of the log. Once the main thread waits for the logger thread and the thread has opened its files:
  if the pipe took the request to exit, the thread exits after at most one step per byte of the
  pipe and one more; if the pipe was full and refused it, which \<^verbatim>\<open>log_sig_join\<close> does not check,
  the main thread never returns.
\<close>

theorem join_returns:
  assumes "log_reachable ntop6 w" and "lw_main w = Main_joins" and "lg_pc w \<noteq> At_open" and "lg_pc w \<noteq> At_exit"
  shows "if lw_joined w
    then \<forall>tes. length (lg_pipe w) + 1 \<le> length tes \<longrightarrow>
      (\<exists>w'. logger_run ntop6 tes w = Some w' \<and> lg_pc w' = At_exit)
    else \<forall>w'. (log_step ntop6)\<^sup>*\<^sup>* w w' \<longrightarrow> lw_main w' \<noteq> Main_returned"
proof -
  note inv = log_reachable_inv [OF assms(1)]
  have bound: "work w \<le> length (lg_pipe w) + 1" by (simp add: work_def)
  show ?thesis
  proof (cases "lw_joined w")
    case True
    then show ?thesis using thread_joins [OF inv True assms(3)] le_trans [OF bound] by auto
  next
    case False
    then show ?thesis using never_joined [OF _ inv assms(2) False assms(3,4)] by auto
  qed
qed

lemma join_returns_witness:
  "(\<exists>w'. logger_run (\<lambda>_. []) (replicate 4 demo_te) (demo_joining True) = Some w' \<and> lg_pc w' = At_exit) \<and>
   \<not> (\<exists>w'. (log_step (\<lambda>_. []))\<^sup>*\<^sup>* (demo_joining False) w' \<and> lw_main w' = Main_returned)"
proof -
  have at: "lw_main (demo_joining room) = Main_joins" "lg_pc (demo_joining room) = At_poll"
      "lw_joined (demo_joining room) = room" "length (lg_pipe (demo_joining room)) \<le> 3" for room
    by (simp_all add: demo_joining_def log_sig_join_def log_put_def log_start_def log_error_msg_def log_sig_join_msg_def)
  note ret = join_returns [OF demo_joining_reachable [of "\<lambda>_. []"]]
  from ret [of True] at show ?thesis
    using ret [of False] by (auto simp: le_diff_conv)
qed

end
